(* ===== verification/Prelude.thy ===== *)
theory Prelude
  imports Main "HOL-Library.Word"
begin

text \<open>
  Shared vocabulary of the model of \<^verbatim>\<open>src/api/client/images.go\<close>: Go's error
  values and fallible results, the two string primitives the code relies on
  (\<^verbatim>\<open>strings.HasPrefix\<close> and tab-separated cells as \<^verbatim>\<open>text/tabwriter\<close>
  reads them), the collection \<open>model_simps\<close> of the definitions that are unfolded
  when a concrete listing is evaluated, and the list lemmas the component
  theories share.
\<close>

named_theorems model_simps "definitions unfolded when a concrete listing is evaluated"

subsection \<open>Errors\<close>

text \<open>
  A Go \<^verbatim>\<open>error\<close> is an opaque value that \<^verbatim>\<open>CmdImages\<close> returns verbatim;
  it is modelled by its message. A fallible call returns \<open>Inl err\<close> or
  \<open>Inr value\<close>.
\<close>

datatype go_error = GoError string

type_synonym 'a go_result = "go_error + 'a"

subsection \<open>Strings\<close>

text \<open>Go strings are byte sequences; they are modelled as \<^typ>\<open>string\<close>.\<close>

abbreviation TAB :: char where
  "TAB \<equiv> CHR 0x09"

text \<open>\<^verbatim>\<open>strings.HasPrefix(s, prefix)\<close>: \<^verbatim>\<open>len(s) >= len(prefix) && s[0:len(prefix)] == prefix\<close>.\<close>

definition HasPrefix :: "string \<Rightarrow> string \<Rightarrow> bool" where
  "HasPrefix s pfx \<longleftrightarrow> length pfx \<le> length s \<and> take (length pfx) s = pfx"

text \<open>
  The cells of a line, as \<^verbatim>\<open>text/tabwriter\<close> splits it: every tab ends a cell,
  and the line terminator ends the last one, so a line with \<open>k\<close> tabs has
  \<open>k + 1\<close> cells.
\<close>

fun cells :: "string \<Rightarrow> string list" where
  "cells [] = [[]]"
| "cells (c # cs) =
     (if c = TAB then [] # cells cs
      else (case cells cs of x # xs \<Rightarrow> (c # x) # xs | [] \<Rightarrow> [[c]]))"

text \<open>The line a format string with tab-separated verbs builds from its fields.\<close>

fun tab_join :: "string list \<Rightarrow> string" where
  "tab_join [] = []"
| "tab_join [x] = x"
| "tab_join (x # y # zs) = x @ TAB # tab_join (y # zs)"

definition tab_free :: "string \<Rightarrow> bool" where
  "tab_free s \<longleftrightarrow> TAB \<notin> set s"

declare HasPrefix_def [model_simps] tab_free_def [model_simps]

subsection \<open>Shared lemmas\<close>

lemma HasPrefix_iff_prefix: "HasPrefix s pfx \<longleftrightarrow> (\<exists>r. s = pfx @ r)"
proof
  assume "HasPrefix s pfx"
  then have "s = pfx @ drop (length pfx) s"
    by (metis HasPrefix_def append_take_drop_id)
  then show "\<exists>r. s = pfx @ r" ..
next
  assume "\<exists>r. s = pfx @ r"
  then show "HasPrefix s pfx" by (auto simp: HasPrefix_def)
qed

lemma cells_not_Nil [simp]: "cells s \<noteq> []"
  by (induction s) (auto split: list.splits)

lemma cells_Cons_nontab:
  "c \<noteq> TAB \<Longrightarrow> cells (c # cs) = (c # hd (cells cs)) # tl (cells cs)"
  by (cases "cells cs") auto

lemma length_cells: "length (cells s) = Suc (count_list s TAB)"
proof (induction s)
  case Nil
  then show ?case by simp
next
  case (Cons c cs)
  then show ?case by (cases "cells cs") auto
qed

lemma cells_tab_free_append:
  "tab_free x \<Longrightarrow> cells (x @ TAB # s) = x # cells s"
  by (induction x) (auto simp: tab_free_def cells_Cons_nontab)

lemma cells_tab_free [simp]: "tab_free x \<Longrightarrow> cells x = [x]"
  by (induction x) (auto simp: tab_free_def cells_Cons_nontab)

lemma tab_free_append [simp]: "tab_free (x @ y) \<longleftrightarrow> tab_free x \<and> tab_free y"
  by (auto simp: tab_free_def)

lemma tab_free_Cons [simp]: "tab_free (c # s) \<longleftrightarrow> c \<noteq> TAB \<and> tab_free s"
  by (auto simp: tab_free_def)

lemma tab_free_Nil [simp]: "tab_free []"
  by (simp add: tab_free_def)

text \<open>Splitting a tab-joined line gives back its fields, when no field holds a tab.\<close>

lemma cells_tab_join:
  "xs \<noteq> [] \<Longrightarrow> list_all tab_free xs \<Longrightarrow> cells (tab_join xs) = xs"
proof (induction xs rule: tab_join.induct)
  case (3 x y zs)
  then show ?case by (simp add: cells_tab_free_append)
qed simp_all

lemma tab_join_cells: "tab_join (cells s) = s"
proof (induction s)
  case Nil
  then show ?case by simp
next
  case (Cons c cs)
  show ?case
  proof (cases "c = TAB")
    case True
    with Cons show ?thesis by (cases "cells cs") auto
  next
    case False
    with Cons show ?thesis by (cases "cells cs" rule: remdups_adj.cases) auto
  qed
qed

lemma tab_free_tab_join:
  "list_all tab_free xs \<Longrightarrow> length xs \<le> 1 \<Longrightarrow> tab_free (tab_join xs)"
  by (cases xs rule: tab_join.cases) auto


lemma length_cells_one_iff: "length (cells s) = Suc 0 \<longleftrightarrow> tab_free s"
  by (simp add: length_cells tab_free_def count_list_0_iff)

lemma two_le_length_cells: "\<not> tab_free s \<Longrightarrow> 2 \<le> length (cells s)"
  using count_list_0_iff [of s TAB] by (simp add: length_cells tab_free_def)


subsection \<open>Sums over parts of a list\<close>

text \<open>The measures of recursions that split a list into a block and the rest.\<close>

lemma sum_list_takeWhile_le:
  "sum_list (map (f :: 'a \<Rightarrow> nat) (takeWhile P xs)) \<le> sum_list (map f xs)"
  by (induction xs) auto

lemma sum_list_dropWhile_le:
  "sum_list (map (f :: 'a \<Rightarrow> nat) (dropWhile P xs)) \<le> sum_list (map f xs)"
  by (induction xs) auto

lemma sum_list_map_less:
  assumes "\<forall>x\<in>set xs. (g :: 'a \<Rightarrow> nat) x < f x" "xs \<noteq> []"
  shows "sum_list (map g xs) < sum_list (map f xs)"
  using assms
proof (induction xs)
  case (Cons x xs)
  then show ?case by (cases "xs = []") (auto intro: add_less_le_mono less_imp_le sum_list_mono)
qed simp

text \<open>Reading back a 64-bit word made from an integer: unchanged inside the \<^verbatim>\<open>int64\<close> range, one turn of \<open>2^64\<close> down just above it.\<close>

lemma sint64_word_of_int_in_range:
  "- (2 ^ 63) \<le> x \<Longrightarrow> x < 2 ^ 63 \<Longrightarrow> sint (word_of_int x :: 64 word) = x"
  by (simp add: sint_sbintrunc' signed_take_bit_int_eq_self)

lemma sint64_word_of_int_wrap:
  assumes "2 ^ 63 \<le> x" and "x < 2 ^ 64"
  shows "sint (word_of_int x :: 64 word) = x - 2 ^ 64"
proof -
  define y :: int where "y = x + 2 ^ 63 - 2 ^ 64"
  have y: "0 \<le> y" "y < 2 ^ 64" using assms by (simp_all add: y_def)
  have "(x + 2 ^ 63) mod 2 ^ 64 = (y + 2 ^ 64) mod 2 ^ 64" by (simp add: y_def add.commute)
  also have "\<dots> = y" using y by (simp only: mod_add_self2 mod_pos_pos_trivial)
  finally show ?thesis by (simp add: int_word_sint y_def)
qed

end
