(* ===== verification/Reference.thy ===== *)
theory Reference
  imports Prelude
begin

text \<open>
  The interface of the image-reference package
  (\<^verbatim>\<open>github.com/docker/distribution/reference\<close>) as \<^verbatim>\<open>images.go\<close> uses it.
  \<^verbatim>\<open>reference.ParseNamed\<close> returns a value of one of four concrete types, each of
  which implements \<^verbatim>\<open>Named\<close> (it has a \<^verbatim>\<open>Name()\<close>) and some of the two
  capabilities \<^verbatim>\<open>Tagged\<close> (\<^verbatim>\<open>Tag()\<close>) and \<^verbatim>\<open>Digested\<close> (\<^verbatim>\<open>Digest()\<close>):
  a bare repository, a tagged reference, a canonical (digest) reference, and a
  reference carrying both a tag and a digest. The type switch of \<^verbatim>\<open>images.go\<close>
  asks for the capabilities, so they are functions into \<^typ>\<open>string option\<close>.

  The package itself is not part of the repository: \<^verbatim>\<open>CmdImages\<close> is verified for
  every parser, passed as a parameter of type \<open>ref_parser\<close>. The small parser
  \<open>ParseNamed_simple\<close> below only follows the two forms the specification names
  (\<open>repository:tag\<close> and \<open>repository@digest\<close>); it is used to evaluate
  scenarios.
\<close>

datatype reference =
    Repository string
  | TaggedReference string string
  | CanonicalReference string string
  | FullReference string string string

type_synonym ref_parser = "string \<Rightarrow> reference go_result"

primrec Name :: "reference \<Rightarrow> string" where
  "Name (Repository n) = n"
| "Name (TaggedReference n t) = n"
| "Name (CanonicalReference n d) = n"
| "Name (FullReference n t d) = n"

text \<open>\<^verbatim>\<open>ref.(reference.Tagged)\<close>: \<open>Some\<close> of \<^verbatim>\<open>Tag()\<close> when the value has the capability.\<close>

primrec as_Tagged :: "reference \<Rightarrow> string option" where
  "as_Tagged (Repository n) = None"
| "as_Tagged (TaggedReference n t) = Some t"
| "as_Tagged (CanonicalReference n d) = None"
| "as_Tagged (FullReference n t d) = Some t"

text \<open>\<^verbatim>\<open>ref.(reference.Digested)\<close>: \<open>Some\<close> of \<^verbatim>\<open>Digest().String()\<close> when the value has the capability.\<close>

primrec as_Digested :: "reference \<Rightarrow> string option" where
  "as_Digested (Repository n) = None"
| "as_Digested (TaggedReference n t) = None"
| "as_Digested (CanonicalReference n d) = Some d"
| "as_Digested (FullReference n t d) = Some d"

subsection \<open>A parser for the two forms of the specification\<close>

text \<open>
  \<open>repository@digest\<close> gives a canonical reference; otherwise a colon after the
  last slash separates the tag; an empty repository or digest is an error.
\<close>

definition split_at_last_colon :: "string \<Rightarrow> string \<times> string option" where
  "split_at_last_colon s =
     (let r = rev s; t = takeWhile (\<lambda>c. c \<noteq> CHR '':'' \<and> c \<noteq> CHR ''/'') r
      in if length t < length r \<and> r ! length t = CHR '':''
         then (rev (drop (Suc (length t)) r), Some (rev t))
         else (s, None))"

definition ParseNamed_simple :: ref_parser where
  "ParseNamed_simple s =
     (let name = takeWhile (\<lambda>c. c \<noteq> CHR ''@'') s;
          rest = dropWhile (\<lambda>c. c \<noteq> CHR ''@'') s
      in if rest \<noteq> []
         then (if name = [] \<or> tl rest = [] then Inl (GoError ''invalid reference format'')
               else Inr (CanonicalReference name (tl rest)))
         else (case split_at_last_colon s of
                 (n, Some t) \<Rightarrow> if n = [] \<or> t = [] then Inl (GoError ''invalid reference format'')
                               else Inr (TaggedReference n t)
               | (n, None) \<Rightarrow> if n = [] then Inl (GoError ''invalid reference format'')
                              else Inr (Repository n)))"

declare split_at_last_colon_def [model_simps] ParseNamed_simple_def [model_simps]

subsection \<open>Capabilities\<close>

lemma as_Tagged_Some_iff:
  "as_Tagged r = Some t \<longleftrightarrow> (\<exists>n. r = TaggedReference n t) \<or> (\<exists>n d. r = FullReference n t d)"
  by (cases r) auto

lemma as_Digested_Some_iff:
  "as_Digested r = Some d \<longleftrightarrow> (\<exists>n. r = CanonicalReference n d) \<or> (\<exists>n t. r = FullReference n t d)"
  by (cases r) auto

lemma ParseNamed_simple_tagged:
  "ParseNamed_simple ''library/foo:latest'' = Inr (TaggedReference ''library/foo'' ''latest'')"
  by (simp add: model_simps)

lemma ParseNamed_simple_digested:
  "ParseNamed_simple ''foo@sha256:ab'' = Inr (CanonicalReference ''foo'' ''sha256:ab'')"
  by (simp add: model_simps)

lemma ParseNamed_simple_missing_repository:
  "ParseNamed_simple '':latest'' = Inl (GoError ''invalid reference format'')"
  by (simp add: model_simps)

end
