(* ===== verification/Reconcile.thy ===== *)
theory Reconcile
  imports Prelude Reference
begin

text \<open>
  The Reference Reconciler: the part of the per-image loop of \<^verbatim>\<open>CmdImages\<close>
  (\<^verbatim>\<open>src/api/client/images.go\<close>, lines 77--106) that turns an image record's
  repository tags and digests into rows of (repository, tag, digest). The code
  interleaves it with printing; here it is also stated on its own
  (\<open>reconcile\<close>), as the specification's component, and the printing loop of
  theory \<open>Images\<close> is shown to follow it.
\<close>

subsection \<open>Image records\<close>

text \<open>
  \<^verbatim>\<open>types.Image\<close> as the listing API returns it; only the fields \<^verbatim>\<open>CmdImages\<close>
  reads. \<^verbatim>\<open>Created\<close> and \<^verbatim>\<open>Size\<close> are Go \<^verbatim>\<open>int64\<close>.
\<close>

record image =
  ID :: string
  RepoTags :: "string list"
  RepoDigests :: "string list"
  Created :: "64 word"
  Size :: "64 word"

text \<open>The three string variables \<^verbatim>\<open>repo\<close>, \<^verbatim>\<open>tag\<close>, \<^verbatim>\<open>digest\<close> of one iteration.\<close>

record ref_row =
  repo :: string
  tag :: string
  digest :: string

definition none_row :: ref_row where
  "none_row = \<lparr>repo = ''<none>'', tag = ''<none>'', digest = ''<none>''\<rparr>"

subsection \<open>Dangling images and the combined list\<close>

text \<open>Line 80: the test for the single dangling image (\<^verbatim>\<open>repoTags[0]\<close> is read only under \<^verbatim>\<open>len == 1\<close>).\<close>

definition dangling :: "string list \<Rightarrow> string list \<Rightarrow> bool" where
  "dangling repoTags repoDigests \<longleftrightarrow>
     length repoTags = 1 \<and> repoTags ! 0 = ''<none>:<none>'' \<and>
     length repoDigests = 1 \<and> repoDigests ! 0 = ''<none>@<none>''"

text \<open>Lines 77--86: clear the digests of a dangling image, then \<^verbatim>\<open>append(repoTags, repoDigests...)\<close>.\<close>

text \<open>Lines 80--83: a dangling image keeps its tag and loses its digest.\<close>

definition collapse_digests :: "string list \<Rightarrow> string list \<Rightarrow> string list" where
  "collapse_digests repoTags repoDigests = (if dangling repoTags repoDigests then [] else repoDigests)"

declare collapse_digests_def [simp]

definition tagsAndDigests :: "image \<Rightarrow> string list" where
  "tagsAndDigests img =
     (let repoTags = RepoTags img;
          repoDigests = collapse_digests repoTags (RepoDigests img)
      in repoTags @ repoDigests)"

subsection \<open>One reference string\<close>

text \<open>
  Lines 88--106: default the three fields to \<^verbatim>\<open><none>\<close>; unless the string starts
  with \<^verbatim>\<open><none>\<close>, parse it (a parse error returns from \<^verbatim>\<open>CmdImages\<close>), take the
  repository name, and in the type switch take the digest if the value is
  \<^verbatim>\<open>Digested\<close>, else the tag if it is \<^verbatim>\<open>Tagged\<close>.
\<close>

text \<open>Line 93: the strings that are not parsed.\<close>

definition is_none_ref :: "string \<Rightarrow> bool" where
  "is_none_ref repoAndRef \<longleftrightarrow> HasPrefix repoAndRef ''<none>''"

text \<open>Lines 98--105: the repository name, then the type switch.\<close>

definition ref_fields :: "reference \<Rightarrow> ref_row \<Rightarrow> ref_row" where
  "ref_fields ref r =
     (let r = r\<lparr>repo := Name ref\<rparr>
      in case as_Digested ref of
           Some d \<Rightarrow> r\<lparr>digest := d\<rparr>
         | None \<Rightarrow> (case as_Tagged ref of
                     Some t \<Rightarrow> r\<lparr>tag := t\<rparr>
                   | None \<Rightarrow> r))"

declare is_none_ref_def [simp] ref_fields_def [simp]

definition resolve_ref :: "ref_parser \<Rightarrow> string \<Rightarrow> ref_row go_result" where
  "resolve_ref ParseNamed repoAndRef =
     (let r = \<lparr>repo = ''<none>'', tag = ''<none>'', digest = ''<none>''\<rparr>
      in if \<not> is_none_ref repoAndRef then
           (case ParseNamed repoAndRef of
              Inl err \<Rightarrow> Inl err
            | Inr ref \<Rightarrow> Inr (ref_fields ref r))
         else Inr r)"

subsection \<open>The reconciler\<close>

text \<open>The rows of a list of reference strings, in order, stopping at the first parse error.\<close>

fun resolve_all :: "ref_parser \<Rightarrow> string list \<Rightarrow> ref_row list go_result" where
  "resolve_all P [] = Inr []"
| "resolve_all P (s # ss) =
     (case resolve_ref P s of
        Inl err \<Rightarrow> Inl err
      | Inr r \<Rightarrow> (case resolve_all P ss of Inl err \<Rightarrow> Inl err | Inr rs \<Rightarrow> Inr (r # rs)))"

definition reconcile :: "ref_parser \<Rightarrow> image \<Rightarrow> ref_row list go_result" where
  "reconcile P img = resolve_all P (tagsAndDigests img)"

text \<open>
  The same loops, keeping the rows produced before a parse error: the reconciler of
  lines 87--106 and of the image loop of lines 71--118, with printing left out.
\<close>

fun scan_refs :: "ref_parser \<Rightarrow> string list \<Rightarrow> go_error option \<times> ref_row list" where
  "scan_refs P [] = (None, [])"
| "scan_refs P (s # ss) =
     (case resolve_ref P s of
        Inl err \<Rightarrow> (Some err, [])
      | Inr r \<Rightarrow> (case scan_refs P ss of (e, rs) \<Rightarrow> (e, r # rs)))"

fun scan_images :: "ref_parser \<Rightarrow> image list \<Rightarrow> go_error option \<times> (image \<times> ref_row) list" where
  "scan_images P [] = (None, [])"
| "scan_images P (img # imgs) =
     (case scan_refs P (tagsAndDigests img) of
        (Some err, rs) \<Rightarrow> (Some err, map (Pair img) rs)
      | (None, rs) \<Rightarrow> (case scan_images P imgs of (e, xs) \<Rightarrow> (e, map (Pair img) rs @ xs)))"

text \<open>The reconciler over all images, as the specification composes it.\<close>

fun reconcile_images :: "ref_parser \<Rightarrow> image list \<Rightarrow> (image \<times> ref_row) list go_result" where
  "reconcile_images P [] = Inr []"
| "reconcile_images P (img # imgs) =
     (case reconcile P img of
        Inl err \<Rightarrow> Inl err
      | Inr rs \<Rightarrow> (case reconcile_images P imgs of Inl err \<Rightarrow> Inl err | Inr xs \<Rightarrow> Inr (map (Pair img) rs @ xs)))"

declare none_row_def [model_simps] dangling_def [model_simps]
  tagsAndDigests_def [model_simps] resolve_ref_def [model_simps] reconcile_def [model_simps]

subsection \<open>Characteristic equations\<close>

lemma dangling_iff:
  "dangling ts ds \<longleftrightarrow> ts = [''<none>:<none>''] \<and> ds = [''<none>@<none>'']"
  unfolding dangling_def by (cases ts; cases ds) auto

lemma resolve_ref_none_prefix:
  "HasPrefix s ''<none>'' \<Longrightarrow> resolve_ref P s = Inr none_row"
  by (simp add: resolve_ref_def none_row_def)

lemma resolve_ref_parse_error:
  "\<not> HasPrefix s ''<none>'' \<Longrightarrow> P s = Inl err \<Longrightarrow> resolve_ref P s = Inl err"
  by (simp add: resolve_ref_def)

lemma resolve_ref_parsed:
  "\<not> HasPrefix s ''<none>'' \<Longrightarrow> P s = Inr ref \<Longrightarrow>
   resolve_ref P s = Inr (case as_Digested ref of
        Some d \<Rightarrow> none_row\<lparr>repo := Name ref, digest := d\<rparr>
      | None \<Rightarrow> (case as_Tagged ref of
                  Some t \<Rightarrow> none_row\<lparr>repo := Name ref, tag := t\<rparr>
                | None \<Rightarrow> none_row\<lparr>repo := Name ref\<rparr>))"
  by (simp add: resolve_ref_def none_row_def split: option.split)

lemma resolve_ref_Inl:
  "resolve_ref P s = Inl err \<longleftrightarrow> \<not> HasPrefix s ''<none>'' \<and> P s = Inl err"
proof (cases "HasPrefix s ''<none>''")
  case True
  then show ?thesis by (simp add: resolve_ref_none_prefix)
next
  case False
  then show ?thesis
    by (cases "P s") (simp_all add: resolve_ref_parse_error resolve_ref_parsed)
qed

lemma resolve_all_Inr_imp:
  "resolve_all P ss = Inr rs \<Longrightarrow> list_all2 (\<lambda>s r. resolve_ref P s = Inr r) ss rs"
  by (induction ss arbitrary: rs) (auto split: sum.splits)

lemma list_all2_imp_resolve_all:
  "list_all2 (\<lambda>s r. resolve_ref P s = Inr r) ss rs \<Longrightarrow> resolve_all P ss = Inr rs"
  by (induction rule: list_all2_induct) auto

lemma resolve_all_Inr_iff:
  "resolve_all P ss = Inr rs \<longleftrightarrow> list_all2 (\<lambda>s r. resolve_ref P s = Inr r) ss rs"
  using resolve_all_Inr_imp list_all2_imp_resolve_all by blast

lemma resolve_all_Inl_imp:
  "resolve_all P ss = Inl err \<Longrightarrow>
   \<exists>pre s post. ss = pre @ s # post \<and> (\<forall>x \<in> set pre. \<exists>r. resolve_ref P x = Inr r) \<and>
                resolve_ref P s = Inl err"
proof (induction ss)
  case Nil
  then show ?case by simp
next
  case (Cons x xs)
  show ?case
  proof (cases "resolve_ref P x")
    case (Inl e)
    with Cons.prems have "resolve_ref P x = Inl err" by simp
    then show ?thesis
      by (intro exI[where x = "[]"] exI[where x = x] exI[where x = xs]) simp
  next
    case (Inr r)
    with Cons.prems have "resolve_all P xs = Inl err" by (simp split: sum.splits)
    then obtain pre s post where "xs = pre @ s # post"
      "\<forall>y \<in> set pre. \<exists>r. resolve_ref P y = Inr r" "resolve_ref P s = Inl err"
      using Cons.IH by blast
    with Inr show ?thesis
      by (intro exI[where x = "x # pre"] exI[where x = s] exI[where x = post]) auto
  qed
qed

lemma resolve_all_append_ok:
  "\<forall>x \<in> set pre. \<exists>r. resolve_ref P x = Inr r \<Longrightarrow> resolve_ref P s = Inl err \<Longrightarrow>
   resolve_all P (pre @ s # post) = Inl err"
  by (induction pre) auto

lemma resolve_all_Inl_iff:
  "resolve_all P ss = Inl err \<longleftrightarrow>
   (\<exists>pre s post. ss = pre @ s # post \<and> (\<forall>x \<in> set pre. \<exists>r. resolve_ref P x = Inr r) \<and>
                 resolve_ref P s = Inl err)"
  using resolve_all_Inl_imp resolve_all_append_ok by blast

lemma resolve_all_total:
  "(\<forall>s \<in> set ss. \<exists>r. resolve_ref P s = Inr r) \<Longrightarrow> \<exists>rs. resolve_all P ss = Inr rs"
  by (induction ss) auto

lemma resolve_all_rows:
  "resolve_all P ss = Inr rs \<Longrightarrow> r \<in> set rs \<Longrightarrow> \<exists>s \<in> set ss. resolve_ref P s = Inr r"
  by (induction ss arbitrary: rs) (auto split: sum.splits)

lemma resolve_ref_one_field_set:
  "resolve_ref P s = Inr r \<Longrightarrow> tag r = ''<none>'' \<or> digest r = ''<none>''"
proof (cases "HasPrefix s ''<none>''")
  case True
  moreover assume "resolve_ref P s = Inr r"
  ultimately have "r = none_row" by (simp add: resolve_ref_none_prefix)
  then show ?thesis by (simp add: none_row_def)
next
  case False
  assume r: "resolve_ref P s = Inr r"
  with False obtain ref where "P s = Inr ref"
    by (cases "P s") (simp_all add: resolve_ref_parse_error)
  with False r show ?thesis
    by (auto simp: resolve_ref_parsed none_row_def split: option.splits)
qed

lemma resolve_ref_ok_iff:
  "(\<exists>r. resolve_ref P s = Inr r) \<longleftrightarrow> HasPrefix s ''<none>'' \<or> (\<exists>ref. P s = Inr ref)"
proof (cases "HasPrefix s ''<none>''")
  case True
  then show ?thesis by (simp add: resolve_ref_none_prefix)
next
  case False
  then show ?thesis
    by (cases "P s") (simp_all add: resolve_ref_parse_error resolve_ref_parsed)
qed

lemmas reconcile_loop_simps = reconcile_def resolve_all_Inr_iff resolve_all_Inl_iff resolve_ref_Inl

subsection \<open>Properties of the reconciler\<close>

text \<open>C2: A dangling image gives exactly one row, all of whose fields are \<open><none>\<close>.\<close>

theorem reconcile_dangling_single_row:
  assumes "RepoTags img = [''<none>:<none>'']" and "RepoDigests img = [''<none>@<none>'']"
  shows "reconcile P img = Inr [none_row]"
proof -
  from assms have "tagsAndDigests img = [''<none>:<none>'']"
    by (simp add: tagsAndDigests_def dangling_iff)
  moreover have "HasPrefix ''<none>:<none>'' ''<none>''"
    by (simp add: HasPrefix_def)
  ultimately show ?thesis
    by (simp add: reconcile_def resolve_ref_none_prefix)
qed

theorem reconcile_dangling_single_row_witness:
  "RepoTags \<lparr>ID = ''0a1b'', RepoTags = [''<none>:<none>''], RepoDigests = [''<none>@<none>''],
             Created = 0, Size = 0\<rparr> = [''<none>:<none>''] \<and>
   RepoDigests \<lparr>ID = ''0a1b'', RepoTags = [''<none>:<none>''], RepoDigests = [''<none>@<none>''],
             Created = 0, Size = 0\<rparr> = [''<none>@<none>''] \<and>
   reconcile ParseNamed_simple
     \<lparr>ID = ''0a1b'', RepoTags = [''<none>:<none>''], RepoDigests = [''<none>@<none>''],
      Created = 0, Size = 0\<rparr> = Inr [none_row]"
  using reconcile_dangling_single_row [of "\<lparr>ID = ''0a1b'', RepoTags = [''<none>:<none>''],
      RepoDigests = [''<none>@<none>''], Created = 0, Size = 0\<rparr>" ParseNamed_simple]
  by simp

text \<open>C3: Otherwise there is one row per tag and per digest, tags first, each in its original order.\<close>

theorem reconcile_rows_in_order:
  assumes "\<not> dangling (RepoTags img) (RepoDigests img)" and "reconcile P img = Inr rs"
  shows "length rs = length (RepoTags img) + length (RepoDigests img) \<and>
         (\<forall>i < length rs. resolve_ref P ((RepoTags img @ RepoDigests img) ! i) = Inr (rs ! i))"
proof -
  from assms have "list_all2 (\<lambda>s r. resolve_ref P s = Inr r) (RepoTags img @ RepoDigests img) rs"
    by (simp add: reconcile_def tagsAndDigests_def resolve_all_Inr_iff)
  then show ?thesis by (simp add: list_all2_conv_all_nth)
qed


theorem reconcile_rows_in_order_witness:
  "\<not> dangling [''library/foo:latest''] [''library/foo@sha256:ab''] \<and>
   reconcile ParseNamed_simple
     \<lparr>ID = ''0a1b'', RepoTags = [''library/foo:latest''],
      RepoDigests = [''library/foo@sha256:ab''], Created = 0, Size = 0\<rparr> =
   Inr [\<lparr>repo = ''library/foo'', tag = ''latest'', digest = ''<none>''\<rparr>,
        \<lparr>repo = ''library/foo'', tag = ''<none>'', digest = ''sha256:ab''\<rparr>] \<and>
   length [\<lparr>repo = ''library/foo'', tag = ''latest'', digest = ''<none>''\<rparr>,
        \<lparr>repo = ''library/foo'', tag = ''<none>'', digest = ''sha256:ab''\<rparr>] = 2"
proof -
  let ?img = "\<lparr>ID = ''0a1b'', RepoTags = [''library/foo:latest''],
      RepoDigests = [''library/foo@sha256:ab''], Created = 0, Size = 0\<rparr> :: image"
  let ?rs = "[\<lparr>repo = ''library/foo'', tag = ''latest'', digest = ''<none>''\<rparr>,
        \<lparr>repo = ''library/foo'', tag = ''<none>'', digest = ''sha256:ab''\<rparr>]"
  have nd: "\<not> dangling (RepoTags ?img) (RepoDigests ?img)"
    by (simp add: dangling_def)
  have ev: "reconcile ParseNamed_simple ?img = Inr ?rs"
    by (simp add: model_simps)
  from reconcile_rows_in_order [OF nd ev] nd ev show ?thesis by simp
qed

text \<open>C4: No row ever carries both a tag and a digest: at least one of the two stays \<open><none>\<close>.\<close>

theorem reconcile_never_tag_and_digest:
  assumes "reconcile P img = Inr rs" and "r \<in> set rs"
  shows "tag r = ''<none>'' \<or> digest r = ''<none>''"
proof -
  from assms obtain s where "resolve_ref P s = Inr r"
    unfolding reconcile_def by (blast dest: resolve_all_rows)
  then show ?thesis by (rule resolve_ref_one_field_set)
qed

theorem reconcile_never_tag_and_digest_witness:
  "reconcile (\<lambda>s. Inr (FullReference ''foo'' ''latest'' ''sha256:ab''))
     \<lparr>ID = ''0a1b'', RepoTags = [''foo:latest@sha256:ab''], RepoDigests = [],
      Created = 0, Size = 0\<rparr> =
     Inr [\<lparr>repo = ''foo'', tag = ''<none>'', digest = ''sha256:ab''\<rparr>] \<and>
   \<lparr>repo = ''foo'', tag = ''<none>'', digest = ''sha256:ab''\<rparr>
     \<in> set [\<lparr>repo = ''foo'', tag = ''<none>'', digest = ''sha256:ab''\<rparr>] \<and>
   (tag \<lparr>repo = ''foo'', tag = ''<none>'', digest = ''sha256:ab''\<rparr> = ''<none>'' \<or>
    digest \<lparr>repo = ''foo'', tag = ''<none>'', digest = ''sha256:ab''\<rparr> = ''<none>'')"
proof -
  let ?P = "\<lambda>s::string. Inr (FullReference ''foo'' ''latest'' ''sha256:ab'') :: reference go_result"
  let ?img = "\<lparr>ID = ''0a1b'', RepoTags = [''foo:latest@sha256:ab''], RepoDigests = [],
      Created = 0, Size = 0\<rparr> :: image"
  let ?r = "\<lparr>repo = ''foo'', tag = ''<none>'', digest = ''sha256:ab''\<rparr>"
  have ev: "reconcile ?P ?img = Inr [?r]"
    by (simp add: model_simps)
  have "?r \<in> set [?r]" by simp
  from reconcile_never_tag_and_digest [OF ev this] ev show ?thesis by simp
qed

text \<open>C8: A parse error of any reference string aborts the record with exactly the first such error.\<close>

theorem reconcile_first_error:
  "reconcile P img = Inl err \<longleftrightarrow>
   (\<exists>pre s post. tagsAndDigests img = pre @ s # post \<and>
      (\<forall>x \<in> set pre. HasPrefix x ''<none>'' \<or> (\<exists>ref. P x = Inr ref)) \<and>
      \<not> HasPrefix s ''<none>'' \<and> P s = Inl err)"
  by (simp add: reconcile_loop_simps resolve_ref_ok_iff)

theorem reconcile_first_error_witness:
  "\<exists>pre s post.
     tagsAndDigests \<lparr>ID = ''0a1b'', RepoTags = [''foo:1'', '':latest'', ''bar:2''], RepoDigests = [],
                     Created = 0, Size = 0\<rparr> = pre @ s # post \<and>
     (\<forall>x \<in> set pre. HasPrefix x ''<none>'' \<or> (\<exists>ref. ParseNamed_simple x = Inr ref)) \<and>
     \<not> HasPrefix s ''<none>'' \<and> ParseNamed_simple s = Inl (GoError ''invalid reference format'')"
proof -
  let ?img = "\<lparr>ID = ''0a1b'', RepoTags = [''foo:1'', '':latest'', ''bar:2''], RepoDigests = [],
                Created = 0, Size = 0\<rparr> :: image"
  have "reconcile ParseNamed_simple ?img = Inl (GoError ''invalid reference format'')"
    by (simp add: model_simps)
  then show ?thesis by (simp only: reconcile_first_error)
qed

text \<open>C14: When every reference string that does not start with \<open><none>\<close> parses, the reconciler succeeds.\<close>

theorem reconcile_total:
  assumes "\<forall>s \<in> set (tagsAndDigests img). \<not> HasPrefix s ''<none>'' \<longrightarrow> (\<exists>ref. P s = Inr ref)"
  shows "\<exists>rs. reconcile P img = Inr rs"
  using assms unfolding reconcile_def
  by (intro resolve_all_total) (auto simp: resolve_ref_ok_iff)

theorem reconcile_total_witness:
  "\<exists>rs. reconcile ParseNamed_simple
     \<lparr>ID = ''0a1b'', RepoTags = [''foo:1''], RepoDigests = [], Created = 0, Size = 0\<rparr> = Inr rs"
proof -
  let ?img = "\<lparr>ID = ''0a1b'', RepoTags = [''foo:1''], RepoDigests = [],
      Created = 0, Size = 0\<rparr> :: image"
  have h: "\<forall>s \<in> set (tagsAndDigests ?img). \<not> HasPrefix s ''<none>'' \<longrightarrow>
             (\<exists>ref. ParseNamed_simple s = Inr ref)"
    by (simp add: model_simps)
  from reconcile_total [OF h] show ?thesis .
qed

text \<open>
  C11: A reference that is both \<^verbatim>\<open>Tagged\<close> and \<^verbatim>\<open>Digested\<close> is shown with its digest
  only: the type switch tests \<^verbatim>\<open>Digested\<close> first and drops the tag.
\<close>

theorem resolve_ref_digest_before_tag:
  assumes "\<not> HasPrefix s ''<none>''" and "P s = Inr (FullReference n t d)"
  shows "resolve_ref P s = Inr \<lparr>repo = n, tag = ''<none>'', digest = d\<rparr>"
  using assms by (simp add: resolve_ref_parsed none_row_def)

theorem resolve_ref_digest_before_tag_witness:
  "\<not> HasPrefix ''foo:latest@sha256:ab'' ''<none>'' \<and>
   (\<lambda>s::string. Inr (FullReference ''foo'' ''latest'' ''sha256:ab'') :: reference go_result)
      ''foo:latest@sha256:ab'' = Inr (FullReference ''foo'' ''latest'' ''sha256:ab'') \<and>
   resolve_ref (\<lambda>s. Inr (FullReference ''foo'' ''latest'' ''sha256:ab'')) ''foo:latest@sha256:ab'' =
     Inr \<lparr>repo = ''foo'', tag = ''<none>'', digest = ''sha256:ab''\<rparr>"
proof -
  have h: "\<not> HasPrefix ''foo:latest@sha256:ab'' ''<none>''" by (simp add: HasPrefix_def)
  show ?thesis
    using h resolve_ref_digest_before_tag [OF h, of "\<lambda>s. Inr (FullReference ''foo'' ''latest'' ''sha256:ab'')"]
    by simp
qed

text \<open>Strings starting with \<open><none>\<close> are never handed to the parser: the rows do not depend on it.\<close>

theorem reconcile_sentinels_not_parsed:
  assumes "\<forall>s \<in> set (tagsAndDigests img). HasPrefix s ''<none>''"
  shows "reconcile P img = Inr (map (\<lambda>_. none_row) (tagsAndDigests img))"
proof -
  have "list_all2 (\<lambda>s r. resolve_ref P s = Inr r) (tagsAndDigests img)
          (map (\<lambda>_. none_row) (tagsAndDigests img))"
    using assms by (simp add: list_all2_conv_all_nth resolve_ref_none_prefix)
  then show ?thesis by (simp add: reconcile_def resolve_all_Inr_iff)
qed

theorem reconcile_sentinels_not_parsed_witness:
  "reconcile (\<lambda>s. Inl (GoError ''unreachable''))
     \<lparr>ID = ''0a1b'', RepoTags = [''<none>:<none>''],
      RepoDigests = [''<none>@<none>'', ''<none>@<none>''], Created = 0, Size = 0\<rparr> =
     Inr [none_row, none_row, none_row]"
proof -
  let ?img = "\<lparr>ID = ''0a1b'', RepoTags = [''<none>:<none>''],
       RepoDigests = [''<none>@<none>'', ''<none>@<none>''], Created = 0, Size = 0\<rparr> :: image"
  have td: "tagsAndDigests ?img = [''<none>:<none>'', ''<none>@<none>'', ''<none>@<none>'']"
    by (simp add: tagsAndDigests_def dangling_def)
  have h: "\<forall>s \<in> set (tagsAndDigests ?img). HasPrefix s ''<none>''"
    by (simp add: td HasPrefix_def)
  from reconcile_sentinels_not_parsed [OF h, of "\<lambda>s. Inl (GoError ''unreachable'')"]
  show ?thesis by (simp add: td)
qed

text \<open>
  The collapse fires only for the single dangling pair: a \<open><none>:<none>\<close> tag beside a
  real digest is not collapsed and gives two rows.
\<close>

theorem reconcile_mixed_sentinel_two_rows:
  "reconcile ParseNamed_simple
     \<lparr>ID = ''0a1b'', RepoTags = [''<none>:<none>''], RepoDigests = [''foo@sha256:ab''],
      Created = 0, Size = 0\<rparr> =
   Inr [none_row, \<lparr>repo = ''foo'', tag = ''<none>'', digest = ''sha256:ab''\<rparr>]"
  by (simp add: model_simps)



subsection \<open>Scanning with the rows before an error\<close>

lemma scan_refs_resolve_all:
  "resolve_all P ss = (case scan_refs P ss of (None, rs) \<Rightarrow> Inr rs | (Some err, _) \<Rightarrow> Inl err)"
  by (induction ss) (auto split: sum.splits prod.splits option.splits)


lemma scan_images_rows_from:
  "x \<in> set (snd (scan_images P imgs)) \<Longrightarrow> fst x \<in> set imgs"
proof (induction imgs)
  case Nil
  then show ?case by simp
next
  case (Cons img imgs)
  then show ?case
    by (cases "scan_refs P (tagsAndDigests img)") (auto split: option.splits prod.splits)
qed

lemma scan_refs_length:
  "fst (scan_refs P ss) = None \<Longrightarrow> length (snd (scan_refs P ss)) = length ss"
  by (induction ss) (auto split: sum.splits prod.splits)

lemma scan_images_length:
  "fst (scan_images P imgs) = None \<Longrightarrow>
   length (snd (scan_images P imgs)) = sum_list (map (length \<circ> tagsAndDigests) imgs)"
proof (induction imgs)
  case Nil
  then show ?case by simp
next
  case (Cons img imgs)
  then show ?case
    using scan_refs_length [of P "tagsAndDigests img"]
    by (cases "scan_refs P (tagsAndDigests img)") (auto split: option.splits prod.splits)
qed

lemma reconcile_images_scan:
  "reconcile_images P imgs =
     (case scan_images P imgs of (None, rows) \<Rightarrow> Inr rows | (Some err, _) \<Rightarrow> Inl err)"
proof (induction imgs)
  case Nil
  then show ?case by simp
next
  case (Cons img imgs)
  then show ?case
    by (cases "scan_refs P (tagsAndDigests img)")
       (auto simp: reconcile_def scan_refs_resolve_all split: option.splits prod.splits sum.splits)
qed


text \<open>Rows keep the order of the records: the rows of a list of records are those of its first part followed by those of the rest.\<close>

theorem reconcile_images_append:
  "reconcile_images P (xs @ ys) =
     (case reconcile_images P xs of
        Inl err \<Rightarrow> Inl err
      | Inr rx \<Rightarrow> (case reconcile_images P ys of Inl err \<Rightarrow> Inl err | Inr ry \<Rightarrow> Inr (rx @ ry)))"
  by (induction xs) (auto split: sum.splits)

end
