(* ===== verification/Tabwriter.thy ===== *)
theory Tabwriter
  imports Prelude
begin

text \<open>
  The output writer of \<^verbatim>\<open>CmdImages\<close>: \<^verbatim>\<open>tabwriter.NewWriter(cli.out, 20, 1, 3, ' ', 0)\<close>
  from Go's \<^verbatim>\<open>text/tabwriter\<close> (a library the repository only calls; modelled from its
  source and documentation). The writer buffers the lines written to it; a line of a
  single cell (no tab) ends every column block, and the writer then flushes at once;
  otherwise text reaches \<^verbatim>\<open>cli.out\<close> only at \<^verbatim>\<open>Flush()\<close>.

  A flush formats the buffered lines (\<open>format\<close>, after the library's function of
  that name): the tab-terminated cells of consecutive lines form column blocks, each
  column of a block is as wide as its widest cell plus the padding, and at least the
  minimal width, and every cell is filled up to that width with the padding
  character. The trailing text of a line (after its last tab) is not a cell and is
  written as it is. The model covers the settings of the call: padding with a
  character other than a tab and no flags (so no right alignment, no discarding of
  empty columns, no tab indentation); widths count characters.

  The state records both views of what was delivered: \<open>tw_out\<close> the lines as they were
  written, \<open>tw_display\<close> the formatted text on the terminal. \<^verbatim>\<open>CmdImages\<close> does two
  things to the writer, a line write (\<^verbatim>\<open>Fprintln\<close> / \<^verbatim>\<open>Fprintf\<close> ending in a
  newline) and \<^verbatim>\<open>Flush\<close>; they are the operations of \<open>tw_op\<close>, which the caller and
  this theory agree on.
\<close>

record tw_conf =
  minwidth :: nat
  tabwidth :: nat
  padding :: nat
  padchar :: char
  tw_flags :: nat

record tw_state =
  tw_cfg :: tw_conf
  tw_pending :: "string list"
  tw_out :: "string list"
  tw_display :: "string list"

datatype tw_op = Println string | Flush

definition NewWriter :: "nat \<Rightarrow> nat \<Rightarrow> nat \<Rightarrow> char \<Rightarrow> nat \<Rightarrow> tw_state" where
  "NewWriter minw tabw pad padc flags =
     \<lparr>tw_cfg = \<lparr>minwidth = minw, tabwidth = tabw, padding = pad, padchar = padc, tw_flags = flags\<rparr>,
      tw_pending = [], tw_out = [], tw_display = []\<rparr>"

subsection \<open>Formatting\<close>

text \<open>\<^verbatim>\<open>writeLines\<close> for one line: cell \<open>j\<close> is padded to \<open>ws ! j\<close> when a width is known.\<close>

definition pad_cell :: "tw_conf \<Rightarrow> nat list \<Rightarrow> nat \<Rightarrow> string \<Rightarrow> string" where
  "pad_cell cf ws j c =
     (if j < length ws then c @ replicate (ws ! j - length c) (padchar cf) else c)"

definition writeLine :: "tw_conf \<Rightarrow> nat list \<Rightarrow> string list \<Rightarrow> string" where
  "writeLine cf ws cs = concat (map (\<lambda>(j, c). pad_cell cf ws j c) (zip [0..<length cs] cs))"

text \<open>
  \<^verbatim>\<open>format\<close>: \<open>ws\<close> are the widths of the columns to the left. A line with a cell in
  the next column (\<open>length ws\<close>) starts a block that extends over the following
  lines with such a cell; the block's width is computed, and the block is formatted
  with it; lines without a cell there are written with the widths known.
\<close>

function format :: "tw_conf \<Rightarrow> nat list \<Rightarrow> string list list \<Rightarrow> string list" where
  "format cf ws [] = []"
| "format cf ws (l # ls) =
     (if length ws + 1 < length l then
        (let blk = takeWhile (\<lambda>l. length ws + 1 < length l) (l # ls);
             rest = dropWhile (\<lambda>l. length ws + 1 < length l) (l # ls);
             width = fold max (map (\<lambda>l. length (l ! length ws) + padding cf) blk) (minwidth cf)
         in format cf (ws @ [width]) blk @ format cf ws rest)
      else writeLine cf ws l # format cf ws ls)"
  by pat_completeness auto
termination
proof (relation "measures [\<lambda>(cf, ws, ls). sum_list (map (\<lambda>l. length l - length ws) ls),
                           \<lambda>(cf, ws, ls). length ls]", goal_cases)
  case 1
  show ?case by simp
next
  case (2 cf ws l ls blk)
  let ?P = "\<lambda>l. length ws + 1 < length l"
  have "sum_list (map (\<lambda>l. length l - length (ws @ [x])) (takeWhile ?P (l # ls)))
        < sum_list (map (\<lambda>l. length l - length ws) (takeWhile ?P (l # ls)))" for x
    using 2 by (intro sum_list_map_less) (auto dest: set_takeWhileD)
  also have "\<dots> \<le> sum_list (map (\<lambda>l. length l - length ws) (l # ls))"
    by (rule sum_list_takeWhile_le)
  finally show ?case using 2 by simp
next
  case (3 cf ws l ls blk rest)
  let ?P = "\<lambda>l. length ws + 1 < length l"
  from 3 have "sum_list (map (\<lambda>l. length l - length ws) (dropWhile ?P (l # ls)))
        \<le> sum_list (map (\<lambda>l. length l - length ws) ls)"
    using sum_list_dropWhile_le by simp
  moreover from 3 have "length ws + 1 < length l" by simp
  ultimately have "sum_list (map (\<lambda>l. length l - length ws) (dropWhile ?P ls))
        < length l + sum_list (map (\<lambda>l. length l - length ws) ls) - length ws"
    using 3 by simp
  with 3 show ?case by simp
next
  case (4 cf ws l ls)
  then show ?case by auto
qed



subsection \<open>Operations\<close>

definition tw_flush :: "tw_state \<Rightarrow> tw_state" where
  "tw_flush w =
     w\<lparr>tw_pending := [], tw_out := tw_out w @ tw_pending w,
       tw_display := tw_display w @ format (tw_cfg w) [] (map cells (tw_pending w))\<rparr>"

definition tw_println :: "string \<Rightarrow> tw_state \<Rightarrow> tw_state" where
  "tw_println line w =
     (let w' = w\<lparr>tw_pending := tw_pending w @ [line]\<rparr>
      in if length (cells line) = 1 then tw_flush w' else w')"

primrec tw_step :: "tw_state \<Rightarrow> tw_op \<Rightarrow> tw_state" where
  "tw_step w (Println line) = tw_println line w"
| "tw_step w Flush = tw_flush w"

text \<open>Everything written so far, delivered or still buffered, in order.\<close>

definition tw_written :: "tw_state \<Rightarrow> string list" where
  "tw_written w = tw_out w @ tw_pending w"

text \<open>The writer's invariant: no buffered line is a single cell (such a line flushes).\<close>

definition tw_inv :: "tw_state \<Rightarrow> bool" where
  "tw_inv w \<longleftrightarrow> (\<forall>l \<in> set (tw_pending w). 2 \<le> length (cells l))"

text \<open>The writer states a run of \<^verbatim>\<open>CmdImages\<close> can reach: from a new writer, any sequence of operations.\<close>

inductive tw_reach :: "tw_state \<Rightarrow> bool" where
  start: "tw_reach (NewWriter minw tabw pad padc flags)"
| step: "tw_reach w \<Longrightarrow> tw_reach (tw_step w op)"

text \<open>The width \<^verbatim>\<open>format\<close> gives column \<open>j\<close> of a block made of the lines \<open>ls\<close>.\<close>

definition col_width :: "tw_conf \<Rightarrow> string list list \<Rightarrow> nat \<Rightarrow> nat" where
  "col_width cf ls j = fold max (map (\<lambda>l. length (l ! j) + padding cf) ls) (minwidth cf)"

declare NewWriter_def [model_simps] tw_flush_def [model_simps] tw_println_def [model_simps]

subsection \<open>Single operations\<close>

lemma tw_println_multi [simp]:
  "\<not> tab_free line \<Longrightarrow> tw_println line w = w\<lparr>tw_pending := tw_pending w @ [line]\<rparr>"
  by (simp add: tw_println_def length_cells_one_iff)

lemma tw_println_single [simp]:
  "tab_free line \<Longrightarrow> tw_println line w =
     w\<lparr>tw_pending := [], tw_out := tw_out w @ tw_pending w @ [line],
       tw_display := tw_display w @ format (tw_cfg w) [] (map cells (tw_pending w @ [line]))\<rparr>"
  by (simp add: tw_println_def tw_flush_def length_cells_one_iff)

lemma tw_written_println [simp]: "tw_written (tw_println line w) = tw_written w @ [line]"
  by (cases "tab_free line") (simp_all add: tw_written_def)

lemma tw_written_flush [simp]: "tw_written (tw_flush w) = tw_written w"
  by (simp add: tw_written_def tw_flush_def)

lemma tw_out_flush [simp]: "tw_out (tw_flush w) = tw_written w"
  by (simp add: tw_written_def tw_flush_def)

lemma tw_inv_NewWriter [simp]: "tw_inv (NewWriter minw tabw pad padc flags)"
  by (simp add: tw_inv_def NewWriter_def)

lemma tw_inv_step: "tw_inv w \<Longrightarrow> tw_inv (tw_step w op)"
proof (cases op)
  case (Println line)
  assume inv: "tw_inv w"
  show ?thesis
  proof (cases "tab_free line")
    case True
    with Println show ?thesis by (simp add: tw_inv_def)
  next
    case False
    then have "2 \<le> length (cells line)"
      by (rule two_le_length_cells)
    with inv Println False show ?thesis by (simp add: tw_inv_def)
  qed
next
  case Flush
  then show ?thesis by (simp add: tw_inv_def tw_flush_def)
qed


subsection \<open>Reachable writers\<close>

lemma tw_reach_inv: "tw_reach w \<Longrightarrow> tw_inv w"
proof (induction rule: tw_reach.induct)
  case start
  then show ?case by simp
next
  case (step w op)
  from step.IH show ?case by (rule tw_inv_step)
qed

lemma tw_reach_println [intro]: "tw_reach w \<Longrightarrow> tw_reach (tw_println line w)"
  using tw_reach.step [of w "Println line"] by simp

lemma tw_reach_flush [intro]: "tw_reach w \<Longrightarrow> tw_reach (tw_flush w)"
  using tw_reach.step [of w Flush] by simp


subsection \<open>Layout of a flushed table\<close>

lemma format_no_block:
  "\<forall>l\<in>set ls. length l \<le> Suc (length ws) \<Longrightarrow> format cf ws ls = map (writeLine cf ws) ls"
  by (induction ls) auto

lemma format_single_cell [simp]: "tab_free l \<Longrightarrow> format cf [] [cells l] = [l]"
  by (simp add: writeLine_def pad_cell_def)

lemma format_uniform_from:
  assumes "\<forall>l\<in>set ls. length l = Suc k" and "length ws \<le> k"
  shows "format cf ws ls = map (writeLine cf (ws @ map (col_width cf ls) [length ws..<k])) ls"
  using assms
proof (induction "k - length ws" arbitrary: ws)
  case 0
  then have "length ws = k" by simp
  with 0 show ?case by (simp add: format_no_block)
next
  case (Suc d)
  show ?case
  proof (cases ls)
    case Nil
    then show ?thesis by simp
  next
    case (Cons l ls')
    from Suc.prems Suc.hyps(2) have all: "\<forall>l\<in>set ls. length ws + 1 < length l" by auto
    then have tw: "takeWhile (\<lambda>l. length ws + 1 < length l) ls = ls"
      and dw: "dropWhile (\<lambda>l. length ws + 1 < length l) ls = []" by auto
    have "format cf ws ls = format cf (ws @ [col_width cf ls (length ws)]) ls @ format cf ws []"
      unfolding Cons
      by (subst format.simps(2))
         (use all tw dw Cons in \<open>simp add: col_width_def Let_def
            del: format.simps takeWhile_eq_all_conv dropWhile_eq_Nil_conv\<close>)
    then have "format cf ws ls = format cf (ws @ [col_width cf ls (length ws)]) ls" by simp
    also have "\<dots> = map (writeLine cf ((ws @ [col_width cf ls (length ws)]) @
                          map (col_width cf ls) [Suc (length ws)..<k])) ls"
      using Suc.hyps(1) [of "ws @ [col_width cf ls (length ws)]"] Suc.hyps(2) Suc.prems by simp
    also have "[length ws..<k] = length ws # [Suc (length ws)..<k]"
      using Suc.hyps(2) by (simp add: upt_conv_Cons)
    ultimately show ?thesis by simp
  qed
qed

lemma writeLine_Nil_widths: "writeLine cf [] cs = concat cs"
proof -
  have "map (\<lambda>(j, c). pad_cell cf [] j c) (zip [0..<length cs] cs) = map snd (zip [0..<length cs] cs)"
    by (simp add: pad_cell_def split_def)
  then show ?thesis by (simp add: writeLine_def)
qed

lemma pad_cell_shift:
  "map (\<lambda>(j, c). pad_cell cf (w # W) j c) (zip (map Suc xs) cs)
     = map (\<lambda>(j, c). pad_cell cf W j c) (zip xs cs)"
proof (induction xs arbitrary: cs)
  case (Cons a xs)
  then show ?case by (cases cs) (simp_all add: pad_cell_def)
qed simp

lemma writeLine_Cons:
  "writeLine cf (w # W) (c # cs) = (c @ replicate (w - length c) (padchar cf)) @ writeLine cf W cs"
proof -
  have "[0..<length (c # cs)] = 0 # map Suc [0..<length cs]"
    by (simp add: upt_conv_Cons map_Suc_upt del: upt_Suc)
  then have "zip [0..<length (c # cs)] (c # cs) = (0, c) # zip (map Suc [0..<length cs]) cs"
    by simp
  then show ?thesis
    by (simp only: writeLine_def list.map concat.simps pad_cell_shift)
       (simp add: pad_cell_def [of _ "w # W" 0])
qed

lemma widths_fit_Cons:
  assumes "\<forall>i<length (w # W). length ((c # cs) ! i) \<le> (w # W) ! i"
  shows "length c \<le> w \<and> (\<forall>i<length W. length (cs ! i) \<le> W ! i)"
proof (intro conjI allI impI)
  show "length c \<le> w" using assms [rule_format, of 0] by simp
next
  fix i assume "i < length W"
  with assms [rule_format, of "Suc i"] show "length (cs ! i) \<le> W ! i" by simp
qed

lemma writeLine_column:
  assumes "length W = length cs - 1" "\<forall>i<length W. length (cs ! i) \<le> W ! i" "j < length W"
  shows "take (W ! j) (drop (sum_list (take j W)) (writeLine cf W cs))
           = cs ! j @ replicate (W ! j - length (cs ! j)) (padchar cf)"
  using assms
proof (induction cs arbitrary: W j)
  case Nil
  then show ?case by simp
next
  case (Cons c cs)
  then obtain w W' where W: "W = w # W'" by (cases W) auto
  from Cons.prems(2) W have cw: "length c \<le> w" and fit: "\<forall>i<length W'. length (cs ! i) \<le> W' ! i"
    using widths_fit_Cons by blast+
  show ?case
  proof (cases j)
    case 0
    with W cw show ?thesis by (simp add: writeLine_Cons)
  next
    case (Suc j')
    from Cons.prems W Suc fit have "take (W' ! j') (drop (sum_list (take j' W')) (writeLine cf W' cs))
           = cs ! j' @ replicate (W' ! j' - length (cs ! j')) (padchar cf)"
      by (intro Cons.IH) auto
    with W Suc cw show ?thesis by (simp add: writeLine_Cons)
  qed
qed

lemma writeLine_last:
  assumes "length W = length cs - 1" "\<forall>i<length W. length (cs ! i) \<le> W ! i" "cs \<noteq> []"
  shows "drop (sum_list W) (writeLine cf W cs) = last cs"
  using assms
proof (induction cs arbitrary: W)
  case Nil
  then show ?case by simp
next
  case (Cons c cs)
  show ?case
  proof (cases cs)
    case Nil
    with Cons.prems show ?thesis by (simp add: writeLine_Nil_widths)
  next
    case (Cons c' cs')
    with Cons.prems obtain w W' where W: "W = w # W'" by (cases W) auto
    from Cons.prems(2) W have cw: "length c \<le> w" and fit: "\<forall>i<length W'. length (cs ! i) \<le> W' ! i"
      using widths_fit_Cons by blast+
    from Cons.prems W fit \<open>cs = c' # cs'\<close> have "drop (sum_list W') (writeLine cf W' cs) = last cs"
      by (intro Cons.IH) auto
    with W cw \<open>cs = c' # cs'\<close> show ?thesis by (simp add: writeLine_Cons)
  qed
qed

lemma col_width_Max: "col_width cf ls j = Max (set (minwidth cf # map (\<lambda>l. length (l ! j) + padding cf) ls))"
  by (simp only: col_width_def Max.set_eq_fold)

lemma col_width_ge_cell: "l \<in> set ls \<Longrightarrow> length (l ! j) + padding cf \<le> col_width cf ls j"
  by (simp add: col_width_Max)

lemma col_width_ge_min: "minwidth cf \<le> col_width cf ls j"
  by (simp add: col_width_Max)

lemma format_table_line:
  assumes "\<forall>l\<in>set ls. length l = Suc k" "i < length ls"
  shows "format cf [] ls ! i = writeLine cf (map (col_width cf ls) [0..<k]) (ls ! i)"
    and "\<forall>j<k. length (ls ! i ! j) + padding cf \<le> map (col_width cf ls) [0..<k] ! j"
proof -
  show "format cf [] ls ! i = writeLine cf (map (col_width cf ls) [0..<k]) (ls ! i)"
    using format_uniform_from [of ls k "[]" cf] assms by simp
  show "\<forall>j<k. length (ls ! i ! j) + padding cf \<le> map (col_width cf ls) [0..<k] ! j"
    using assms(2) by (auto intro: col_width_ge_cell)
qed

text \<open>A flushed table whose lines all have the same number of cells is printed with
  one set of column widths: in every line, cell \<open>j\<close> starts at the same position, the
  sum of the widths of the columns to its left.\<close>

lemma format_table_aligned:
  assumes "\<forall>l\<in>set ls. length l = Suc k" and "i < length ls" and "j \<le> k"
  shows "take (length (ls ! i ! j))
           (drop (sum_list (take j (map (col_width cf ls) [0..<k]))) (format cf [] ls ! i))
         = ls ! i ! j"
proof -
  let ?W = "map (col_width cf ls) [0..<k]" and ?cs = "ls ! i"
  note line = format_table_line [OF assms(1,2), of cf]
  have len: "length ?cs = Suc k" using assms(1,2) by simp
  have fit: "\<forall>j<length ?W. length (?cs ! j) \<le> ?W ! j" using line(2) by fastforce
  show ?thesis
  proof (cases "j < k")
    case True
    with len fit have "take (?W ! j) (drop (sum_list (take j ?W)) (writeLine cf ?W ?cs))
                         = ?cs ! j @ replicate (?W ! j - length (?cs ! j)) (padchar cf)"
      by (intro writeLine_column) auto
    moreover from True fit have "length (?cs ! j) \<le> ?W ! j" by simp
    ultimately show ?thesis using line(1)
      by (metis append_eq_conv_conj min.absorb1 take_take)
  next
    case False
    with assms(3) have "j = k" by simp
    moreover from len fit have "drop (sum_list ?W) (writeLine cf ?W ?cs) = last ?cs"
      by (intro writeLine_last) auto
    moreover have "last ?cs = ?cs ! k"
      using len last_conv_nth [of ?cs] by fastforce
    ultimately show ?thesis using line(1) by simp
  qed
qed

text \<open>Every column of such a table is at least the minimal width wide, and in every
  line the text of a cell is followed by padding characters up to the column's width,
  at least \<open>padding\<close> of them, so adjacent cells never touch.\<close>

lemma format_table_padding:
  assumes "\<forall>l\<in>set ls. length l = Suc k" and "i < length ls" and "j < k"
  shows "drop (length (ls ! i ! j))
           (take (col_width cf ls j)
             (drop (sum_list (take j (map (col_width cf ls) [0..<k]))) (format cf [] ls ! i)))
           = replicate (col_width cf ls j - length (ls ! i ! j)) (padchar cf)
         \<and> padding cf \<le> col_width cf ls j - length (ls ! i ! j)
         \<and> minwidth cf \<le> col_width cf ls j"
proof -
  let ?W = "map (col_width cf ls) [0..<k]" and ?cs = "ls ! i"
  note line = format_table_line [OF assms(1,2), of cf]
  have len: "length ?cs = Suc k" using assms(1,2) by simp
  have fit: "\<forall>j<length ?W. length (?cs ! j) \<le> ?W ! j" using line(2) by fastforce
  from len fit assms(3) have "take (?W ! j) (drop (sum_list (take j ?W)) (writeLine cf ?W ?cs))
                       = ?cs ! j @ replicate (?W ! j - length (?cs ! j)) (padchar cf)"
    by (intro writeLine_column) auto
  moreover have "?W ! j = col_width cf ls j" using assms(3) by simp
  moreover have "length (?cs ! j) + padding cf \<le> col_width cf ls j"
    using assms(2) by (intro col_width_ge_cell) simp
  ultimately show ?thesis using line(1) col_width_ge_min [of cf ls j] by simp
qed

end
