(* ===== verification/Render.thy ===== *)
theory Render
  imports Prelude Reconcile
begin

text \<open>
  The Row Renderer: what \<^verbatim>\<open>CmdImages\<close> (\<^verbatim>\<open>src/api/client/images.go\<close>) writes for the
  header (lines 62--69) and for one row (lines 72--75 and 108--116), given the
  command's flags, the image record, one reconciled row, and the clock reading
  taken for that row. The human-readable duration and size formatters
  (\<^verbatim>\<open>units.HumanDuration\<close>, \<^verbatim>\<open>units.HumanSize\<close>) are parameters: the renderer is
  verified for every formatter.
\<close>

subsection \<open>Flags\<close>

text \<open>The four boolean flags of lines 24--27 and the repeated \<^verbatim>\<open>--filter\<close> values of lines 29--30.\<close>

record images_flags =
  quiet :: bool
  all :: bool
  noTrunc :: bool
  showDigests :: bool
  flFilter :: "string list"

subsection \<open>Image IDs\<close>

text \<open>
  \<^verbatim>\<open>stringid.TruncateID\<close> (package \<^verbatim>\<open>pkg/stringid\<close>, outside \<^verbatim>\<open>src/\<close>):
  if the ID has a \<^verbatim>\<open>:\<close>, everything up to and including the first one (the
  algorithm, \<^verbatim>\<open>sha256:\<close>) is dropped; the rest is cut to \<^verbatim>\<open>shortLen\<close>
  characters, or kept whole when it is shorter.
\<close>

definition shortLen :: nat where
  "shortLen = 12"

definition TruncateID :: "string \<Rightarrow> string" where
  "TruncateID sid =
     (let sid' = (if CHR '':'' \<in> set sid then tl (dropWhile (\<lambda>c. c \<noteq> CHR '':'') sid) else sid)
      in take shortLen sid')"

text \<open>Lines 72--75.\<close>

definition display_id :: "images_flags \<Rightarrow> string \<Rightarrow> string" where
  "display_id fl imgID = (if \<not> noTrunc fl then TruncateID imgID else imgID)"

subsection \<open>Header\<close>

text \<open>The header lines of line 65 (with \<^verbatim>\<open>--digests\<close>) and line 67 (without).\<close>

definition header_digests :: string where
  "header_digests = tab_join [''REPOSITORY'', ''TAG'', ''DIGEST'', ''IMAGE ID'', ''CREATED'', ''SIZE'']"

definition header_plain :: string where
  "header_plain = tab_join [''REPOSITORY'', ''TAG'', ''IMAGE ID'', ''CREATED'', ''SIZE'']"

text \<open>Lines 64--68; written only when \<^verbatim>\<open>quiet\<close> is false (line 63).\<close>

definition header_line :: "images_flags \<Rightarrow> string" where
  "header_line fl = (if showDigests fl then header_digests else header_plain)"

subsection \<open>Time\<close>

text \<open>
  A Go \<^verbatim>\<open>time.Time\<close> (package \<^verbatim>\<open>time\<close>, outside \<^verbatim>\<open>src/\<close>): \<^verbatim>\<open>sec\<close>,
  an \<^verbatim>\<open>int64\<close> count of seconds since January 1 of year 1, and \<^verbatim>\<open>nsec\<close>,
  the nanoseconds within that second. \<^verbatim>\<open>.UTC()\<close> changes only the location,
  not the instant.
  \<^verbatim>\<open>time.Unix(sec, nsec)\<close> moves whole seconds of \<open>nsec\<close> into \<open>sec\<close> (floor
  division, so that \<open>nsec\<close> ends in [0, 1e9)) and adds \<^verbatim>\<open>unixToInternal\<close>
  (62135596800, the seconds from year 1 to 1970) in \<^verbatim>\<open>int64\<close> arithmetic: the sum
  wraps, which the 64-bit word \<open>t_sec\<close> makes explicit.
  \<^verbatim>\<open>t.Sub(u)\<close> returns a \<^verbatim>\<open>time.Duration\<close> (an \<^verbatim>\<open>int64\<close> count of
  nanoseconds): Go computes the difference with wrapping and, when adding it back
  to \<open>u\<close> does not give \<open>t\<close>, returns \<^verbatim>\<open>minDuration\<close> if \<open>t\<close> is
  before \<open>u\<close> and \<^verbatim>\<open>maxDuration\<close> otherwise; this is the exact difference of
  the two instants clamped to the \<^verbatim>\<open>int64\<close> range, which is how it is written here.
\<close>

record go_time =
  t_sec :: "64 word"
  t_nsec :: int

definition time_Unix :: "int \<Rightarrow> int \<Rightarrow> go_time" where
  "time_Unix sec nsec =
     (let sec' = sec + nsec div 1000000000;
          nsec' = nsec mod 1000000000
      in \<lparr>t_sec = word_of_int sec' + word_of_int 62135596800, t_nsec = nsec'\<rparr>)"

text \<open>The Unix seconds and the nanoseconds of an instant, as the lemmas state them.\<close>

abbreviation unix_sec :: "go_time \<Rightarrow> int" where
  "unix_sec t \<equiv> sint (t_sec t) - 62135596800"

abbreviation unix_nsec :: "go_time \<Rightarrow> int" where
  "unix_nsec t \<equiv> t_nsec t"

definition minDuration :: int where
  "minDuration = - (2 ^ 63)"

definition maxDuration :: int where
  "maxDuration = 2 ^ 63 - 1"

definition time_Sub :: "go_time \<Rightarrow> go_time \<Rightarrow> int" where
  "time_Sub t u =
     (let d = (sint (t_sec t) - sint (t_sec u)) * 1000000000 + (t_nsec t - t_nsec u)
      in if d < minDuration then minDuration else if maxDuration < d then maxDuration else d)"

subsection \<open>Rows\<close>

text \<open>
  The \<^verbatim>\<open>CREATED\<close> cell of lines 110 and 112: the age of the image at clock reading
  \<open>now\<close>, formatted, followed by \<^verbatim>\<open>" ago"\<close>. \<^verbatim>\<open>image.Created\<close> is an \<^verbatim>\<open>int64\<close>
  (read with \<open>sint\<close>) of Unix seconds.
\<close>

definition image_age :: "go_time \<Rightarrow> image \<Rightarrow> int" where
  "image_age now img = time_Sub now (time_Unix (sint (Created img)) 0)"

definition age_cell :: "(int \<Rightarrow> string) \<Rightarrow> go_time \<Rightarrow> image \<Rightarrow> string" where
  "age_cell HumanDuration now img = HumanDuration (image_age now img) @ '' ago''"

text \<open>The \<^verbatim>\<open>SIZE\<close> cell: \<^verbatim>\<open>units.HumanSize(float64(image.Size))\<close>; the conversion to \<^verbatim>\<open>float64\<close> belongs to the formatter.\<close>

definition size_cell :: "(int \<Rightarrow> string) \<Rightarrow> image \<Rightarrow> string" where
  "size_cell HumanSize img = HumanSize (sint (Size img))"

text \<open>
  The format strings of line 110 (with \<^verbatim>\<open>--digests\<close>) and line 112
  (without), applied to the row's fields, the ID, the age cell and the size cell.
\<close>

definition row_digests :: "ref_row \<Rightarrow> string \<Rightarrow> string \<Rightarrow> string \<Rightarrow> string" where
  "row_digests r imgID created sz = tab_join [repo r, tag r, digest r, imgID, created, sz]"

definition row_plain :: "ref_row \<Rightarrow> string \<Rightarrow> string \<Rightarrow> string \<Rightarrow> string" where
  "row_plain r imgID created sz = tab_join [repo r, tag r, imgID, created, sz]"

text \<open>Lines 108--116: the line written for one row.\<close>

definition row_line ::
  "(int \<Rightarrow> string) \<Rightarrow> (int \<Rightarrow> string) \<Rightarrow> images_flags \<Rightarrow> go_time \<Rightarrow> image \<Rightarrow> string \<Rightarrow>
   ref_row \<Rightarrow> string" where
  "row_line HumanDuration HumanSize fl now img imgID r =
     (if \<not> quiet fl then
        (if showDigests fl
         then row_digests r imgID (age_cell HumanDuration now img) (size_cell HumanSize img)
         else row_plain r imgID (age_cell HumanDuration now img) (size_cell HumanSize img))
      else imgID)"

lemmas header_line_defs = header_line_def header_digests_def header_plain_def
lemmas row_line_defs = row_line_def row_digests_def row_plain_def

declare shortLen_def [model_simps] TruncateID_def [model_simps] display_id_def [model_simps]
  header_line_defs [model_simps] time_Unix_def [model_simps] minDuration_def [model_simps]
  maxDuration_def [model_simps] time_Sub_def [model_simps] image_age_def [model_simps]
  age_cell_def [model_simps]
  size_cell_def [model_simps] row_line_defs [model_simps]


lemma display_id_showDigests [simp]: "display_id (fl\<lparr>showDigests := b\<rparr>) = display_id fl"
  by (intro ext) (simp add: display_id_def)

subsection \<open>Cells of the header and of rows\<close>

lemma header_line_cells:
  "cells (header_line fl) =
     (if showDigests fl then [''REPOSITORY'', ''TAG'', ''DIGEST'', ''IMAGE ID'', ''CREATED'', ''SIZE'']
      else [''REPOSITORY'', ''TAG'', ''IMAGE ID'', ''CREATED'', ''SIZE''])"
  by (simp add: header_line_defs cells_tab_join tab_free_def)

lemma header_line_not_tab_free [simp]: "\<not> tab_free (header_line fl)"
  by (simp add: header_line_defs)

lemma row_line_quiet [simp]: "quiet fl \<Longrightarrow> row_line HD HS fl now img imgID r = imgID"
  by (simp add: row_line_defs)

lemma row_line_not_tab_free:
  "\<not> quiet fl \<Longrightarrow> \<not> tab_free (row_line HD HS fl now img imgID r)"
  by (simp add: row_line_defs)

text \<open>C10: A non-quiet row splits into six cells with --digests and five without, in the order of the header.\<close>

theorem row_line_cells:
  assumes "\<not> quiet fl"
    and "list_all tab_free [repo r, tag r, digest r, imgID, age_cell HD now img, size_cell HS img]"
  shows "cells (row_line HD HS fl now img imgID r) =
           (if showDigests fl
            then [repo r, tag r, digest r, imgID, age_cell HD now img, size_cell HS img]
            else [repo r, tag r, imgID, age_cell HD now img, size_cell HS img])"
  using assms by (simp add: row_line_defs cells_tab_free_append)


theorem row_line_cells_witness:
  "cells (row_line (\<lambda>d. ''1 hour'') (\<lambda>s. ''1MB'')
            \<lparr>quiet = False, all = False, noTrunc = False, showDigests = True, flFilter = []\<rparr>
            (time_Unix 3600 0)
            \<lparr>ID = ''0123456789abcdef'', RepoTags = [], RepoDigests = [], Created = 0, Size = 1048576\<rparr>
            ''0123456789ab'' \<lparr>repo = ''foo'', tag = ''<none>'', digest = ''sha256:ab''\<rparr>) =
   [''foo'', ''<none>'', ''sha256:ab'', ''0123456789ab'', ''1 hour ago'', ''1MB'']"
proof -
  let ?fl = "\<lparr>quiet = False, all = False, noTrunc = False, showDigests = True, flFilter = []\<rparr>"
  let ?img = "\<lparr>ID = ''0123456789abcdef'', RepoTags = [], RepoDigests = [], Created = 0,
               Size = 1048576\<rparr> :: image"
  let ?r = "\<lparr>repo = ''foo'', tag = ''<none>'', digest = ''sha256:ab''\<rparr>"
  have h1: "\<not> quiet ?fl" by simp
  have ag: "age_cell (\<lambda>d. ''1 hour'') (time_Unix 3600 0) ?img = ''1 hour ago''"
    by (simp add: age_cell_def)
  have sz: "size_cell (\<lambda>s. ''1MB'') ?img = ''1MB''"
    by (simp add: size_cell_def)
  have h2: "list_all tab_free [repo ?r, tag ?r, digest ?r, ''0123456789ab'',
              age_cell (\<lambda>d. ''1 hour'') (time_Unix 3600 0) ?img, size_cell (\<lambda>s. ''1MB'') ?img]"
    by (simp add: ag sz tab_free_def)
  from row_line_cells [OF h1 h2] show ?thesis by (simp add: ag sz)
qed

text \<open>
  C20: With truncation, the displayed ID is the first 12 characters after the algorithm
  prefix: for an ID \<open>alg:hex\<close> with no \<^verbatim>\<open>:\<close> in \<open>alg\<close>, the algorithm
  and the colon are dropped and \<open>hex\<close> is cut to 12 characters; an ID without a colon is
  cut to 12 characters. With --no-trunc the ID is shown whole.
\<close>

theorem display_id_drops_algorithm:
  assumes "CHR '':'' \<notin> set alg"
  shows "display_id fl (alg @ CHR '':'' # hex) =
           (if noTrunc fl then alg @ CHR '':'' # hex else take 12 hex) \<and>
         display_id fl alg = (if noTrunc fl then alg else take 12 alg)"
proof -
  have "dropWhile (\<lambda>c. c \<noteq> CHR '':'') (alg @ CHR '':'' # hex) = CHR '':'' # hex"
    using assms by (induction alg) auto
  then show ?thesis
    using assms by (simp add: display_id_def TruncateID_def shortLen_def)
qed

theorem display_id_drops_algorithm_witness:
  "display_id \<lparr>quiet = False, all = False, noTrunc = False, showDigests = False, flFilter = []\<rparr>
     ''sha256:0123456789abcdef'' = ''0123456789ab''"
  using display_id_drops_algorithm [of "''sha256''" "\<lparr>quiet = False, all = False, noTrunc = False,
      showDigests = False, flFilter = []\<rparr>" "''0123456789abcdef''"]
  by simp

lemma time_Sub_range: "minDuration \<le> time_Sub t u \<and> time_Sub t u \<le> maxDuration"
  by (simp add: time_Sub_def Let_def minDuration_def maxDuration_def)

lemma time_Sub_exact:
  assumes "\<bar>unix_sec t - unix_sec u\<bar> \<le> 9000000000"
    and "0 \<le> unix_nsec t" "unix_nsec t < 1000000000" "0 \<le> unix_nsec u" "unix_nsec u < 1000000000"
  shows "time_Sub t u = (unix_sec t - unix_sec u) * 1000000000 + (unix_nsec t - unix_nsec u)"
proof -
  let ?s = "unix_sec t - unix_sec u"
  from assms(1) have "- 9000000000 * 1000000000 \<le> ?s * 1000000000 \<and>
                      ?s * 1000000000 \<le> 9000000000 * 1000000000"
    by (simp add: abs_le_iff)
  with assms(2-5) show ?thesis
    by (simp add: time_Sub_def Let_def minDuration_def maxDuration_def)
qed

lemma t_sec_time_Unix_0: "t_sec (time_Unix sec 0) = word_of_int (sec + 62135596800)"
  by (simp add: time_Unix_def)

lemma t_nsec_time_Unix_0 [simp]: "t_nsec (time_Unix sec 0) = 0"
  by (simp add: time_Unix_def)

text \<open>A creation time whose internal seconds fit an \<^verbatim>\<open>int64\<close> reads back unchanged.\<close>

lemma unix_sec_time_Unix_0:
  assumes "sint (Created img) + 62135596800 < 2 ^ 63"
  shows "unix_sec (time_Unix (sint (Created img)) 0) = sint (Created img)"
proof -
  have "- (2 ^ 63) \<le> sint (Created img) + 62135596800"
    using sint_ge [of "Created img"] by (simp )
  from this assms have "sint (word_of_int (sint (Created img) + 62135596800) :: 64 word) =
                     sint (Created img) + 62135596800"
    by (rule sint64_word_of_int_in_range)
  then show ?thesis by (simp only: t_sec_time_Unix_0)
qed

lemma unix_sec_le: "unix_sec t \<le> 2 ^ 63 - 1 - 62135596800"
  using sint_lt [of "t_sec t"] by simp

text \<open>
  C22: For an image created less than 9e9 seconds (about 285 years) from the clock reading,
  whose creation time is representable as a Go time (its seconds since year 1 fit an
  \<^verbatim>\<open>int64\<close>), the age is the exact elapsed time in nanoseconds.
\<close>

theorem image_age_exact:
  assumes "\<bar>unix_sec now - sint (Created img)\<bar> \<le> 9000000000"
    and "0 \<le> unix_nsec now" and "unix_nsec now < 1000000000"
    and "sint (Created img) + 62135596800 < 2 ^ 63"
  shows "image_age now img = (unix_sec now - sint (Created img)) * 1000000000 + unix_nsec now"
  using assms time_Sub_exact [of now "time_Unix (sint (Created img)) 0"]
  by (simp add: image_age_def unix_sec_time_Unix_0)

theorem image_age_exact_witness:
  "image_age (time_Unix 1500000000 5)
     \<lparr>ID = ''0a1b'', RepoTags = [], RepoDigests = [], Created = 1499996400, Size = 0\<rparr> = 3600000000005"
proof -
  let ?img = "\<lparr>ID = ''0a1b'', RepoTags = [], RepoDigests = [], Created = 1499996400, Size = 0\<rparr> :: image"
  have "image_age (time_Unix 1500000000 5) ?img =
          (unix_sec (time_Unix 1500000000 5) - sint (Created ?img)) * 1000000000 +
          unix_nsec (time_Unix 1500000000 5)"
    by (rule image_age_exact) (simp_all add: time_Unix_def)
  then show ?thesis by (simp add: time_Unix_def)
qed

text \<open>
  C23: An image created more than 9223372037 seconds (about 292 years) before the clock
  reading gets the greatest Duration, not a wrapped negative one: the subtraction
  saturates for every such image, e.g. one whose creation time is the least int64.
\<close>

theorem image_age_saturates:
  assumes "sint (Created img) + 9223372037 \<le> unix_sec now" and "0 \<le> unix_nsec now"
  shows "image_age now img = maxDuration"
proof -
  have "sint (Created img) + 62135596800 < 2 ^ 63"
    using assms(1) unix_sec_le [of now] by (simp )
  then have "unix_sec (time_Unix (sint (Created img)) 0) = sint (Created img)"
    by (rule unix_sec_time_Unix_0)
  moreover have "maxDuration < (unix_sec now - sint (Created img)) * 1000000000 + unix_nsec now"
    using assms by (simp add: maxDuration_def)
  ultimately show ?thesis
    by (simp add: image_age_def time_Sub_def minDuration_def maxDuration_def)
qed

theorem image_age_saturates_witness:
  "image_age (time_Unix 1500000000 0)
     \<lparr>ID = ''0a1b'', RepoTags = [], RepoDigests = [], Created = 0x8000000000000000, Size = 0\<rparr> =
   maxDuration"
  by (rule image_age_saturates) (simp_all add: time_Unix_def)

text \<open>
  C21: An image whose creation time lies in the last 62135596800 seconds of the
  \<^verbatim>\<open>int64\<close> range (so far in the future that \<^verbatim>\<open>time.Unix\<close> wraps when it adds
  the seconds from year 1 to 1970) is shown with the greatest Duration, as if created
  about 292 years ago, at every clock reading after 1970.
\<close>

theorem image_age_unix_wrap:
  assumes "0 \<le> unix_sec now" and "0 \<le> unix_nsec now"
    and "2 ^ 63 \<le> sint (Created img) + 62135596800"
  shows "image_age now img = maxDuration"
proof -
  have "sint (Created img) + 62135596800 < 2 ^ 64"
    using sint_lt [of "Created img"] by (simp )
  with assms(3) have "sint (word_of_int (sint (Created img) + 62135596800) :: 64 word) =
                        sint (Created img) + 62135596800 - 2 ^ 64"
    by (rule sint64_word_of_int_wrap)
  then have w: "sint (t_sec (time_Unix (sint (Created img)) 0)) =
                  sint (Created img) + 62135596800 - 2 ^ 64"
    by (simp only: t_sec_time_Unix_0)
  have "2 ^ 63 < sint (t_sec now) - sint (t_sec (time_Unix (sint (Created img)) 0))"
    using assms(1) sint_lt [of "Created img"] by (simp add: w)
  then have "maxDuration < (sint (t_sec now) - sint (t_sec (time_Unix (sint (Created img)) 0))) *
                             1000000000 + t_nsec now"
    using assms(2) by (simp add: maxDuration_def)
  then show ?thesis
    by (simp add: image_age_def time_Sub_def minDuration_def maxDuration_def)
qed

theorem image_age_unix_wrap_witness:
  "image_age (time_Unix 1500000000 0)
     \<lparr>ID = ''0a1b'', RepoTags = [], RepoDigests = [], Created = 0x7FFFFFFFFFFFFFFF, Size = 0\<rparr> =
   maxDuration"
  by (rule image_age_unix_wrap) (simp_all add: time_Unix_def)

text \<open>The header and a non-quiet row have the same number of cells, with and without --digests.\<close>

theorem header_matches_row_columns:
  assumes "\<not> quiet fl"
    and "list_all tab_free [repo r, tag r, digest r, imgID, age_cell HD now img, size_cell HS img]"
  shows "length (cells (row_line HD HS fl now img imgID r)) = length (cells (header_line fl))"
proof -
  have "length (cells (row_line HD HS fl now img imgID r)) = (if showDigests fl then 6 else 5)"
    using assms by (simp add: row_line_defs cells_tab_free_append)
  then show ?thesis by (simp add: header_line_cells)
qed

end
