(* ===== verification/Images.thy ===== *)
theory Images
  imports Prelude Reference Reconcile Render Tabwriter
begin

text \<open>
  \<^verbatim>\<open>CmdImages\<close> of \<^verbatim>\<open>src/api/client/images.go\<close> as one function of its
  collaborators, its parsed flags and its positional arguments. The state it
  changes is the output writer and the number of readings of the wall clock
  (\<^verbatim>\<open>time.Now()\<close> is called once per non-quiet row); the result is \<open>None\<close>
  for \<^verbatim>\<open>return nil\<close> and \<open>Some err\<close> for each \<^verbatim>\<open>return err\<close>, returned
  together with the state reached, since text already delivered to
  \<^verbatim>\<open>cli.out\<close> stays there when the command fails.
\<close>

subsection \<open>Collaborators\<close>

text \<open>
  \<^verbatim>\<open>types.ImageListOptions\<close> (lines 51--55). The filter arguments
  (\<^verbatim>\<open>filters.Args\<close>) are opaque to \<^verbatim>\<open>CmdImages\<close>: their type is the parameter
  \<open>'a\<close>. The field \<^verbatim>\<open>All\<close> is \<open>All_images\<close> (\<open>All\<close> is HOL's quantifier).
\<close>

record 'a image_list_options =
  MatchName :: string
  All_images :: bool
  Filters :: 'a

text \<open>
  What \<^verbatim>\<open>CmdImages\<close> calls and does not define: \<^verbatim>\<open>filters.ParseFlag\<close> and
  \<^verbatim>\<open>filters.NewArgs\<close>, the daemon's \<^verbatim>\<open>cli.client.ImageList\<close>,
  \<^verbatim>\<open>reference.ParseNamed\<close>, the wall clock (its \<open>k\<close>-th reading), and the
  two formatters of \<^verbatim>\<open>pkg/units\<close>.
\<close>

record 'a cli_env =
  ParseFlag :: "string \<Rightarrow> 'a \<Rightarrow> 'a go_result"
  NewArgs :: 'a
  ImageList :: "'a image_list_options \<Rightarrow> image list go_result"
  ParseNamed :: ref_parser
  Now :: "nat \<Rightarrow> go_time"
  HumanDuration :: "int \<Rightarrow> string"
  HumanSize :: "int \<Rightarrow> string"

record cli_state =
  writer :: tw_state
  clock :: nat

definition init_state :: cli_state where
  "init_state = \<lparr>writer = NewWriter 20 1 3 CHR '' '' 0, clock = 0\<rparr>"

subsection \<open>Filters and options\<close>

text \<open>Lines 37--44: fold \<^verbatim>\<open>filters.ParseFlag\<close> over the \<^verbatim>\<open>--filter\<close> values, returning its first error.\<close>

fun parse_filters :: "(string \<Rightarrow> 'a \<Rightarrow> 'a go_result) \<Rightarrow> string list \<Rightarrow> 'a \<Rightarrow> 'a go_result" where
  "parse_filters parse [] imageFilterArgs = Inr imageFilterArgs"
| "parse_filters parse (f # fs) imageFilterArgs =
     (case parse f imageFilterArgs of
        Inl err \<Rightarrow> Inl err
      | Inr imageFilterArgs \<Rightarrow> parse_filters parse fs imageFilterArgs)"

text \<open>Lines 46--49.\<close>

definition match_name :: "string list \<Rightarrow> string" where
  "match_name args = (if length args = 1 then args ! 0 else [])"

text \<open>Lines 51--55: the options value sent to the daemon.\<close>

definition list_options :: "images_flags \<Rightarrow> string list \<Rightarrow> 'a \<Rightarrow> 'a image_list_options" where
  "list_options fl args imageFilterArgs =
     \<lparr>MatchName = match_name args, All_images = all fl, Filters = imageFilterArgs\<rparr>"

declare list_options_def [simp]

text \<open>Lines 57--60: the daemon is asked for the images; its error is returned.\<close>

definition list_images :: "'a cli_env \<Rightarrow> 'a image_list_options \<Rightarrow> image list go_result" where
  "list_images env options =
     (case ImageList env options of Inl err \<Rightarrow> Inl err | Inr images \<Rightarrow> Inr images)"

subsection \<open>Writing\<close>

text \<open>Lines 63--69.\<close>

definition write_header :: "images_flags \<Rightarrow> cli_state \<Rightarrow> cli_state" where
  "write_header fl st =
     (if \<not> quiet fl then st\<lparr>writer := tw_step (writer st) (Println (header_line fl))\<rparr> else st)"

text \<open>
  Lines 108--116: a non-quiet row (lines 109--113) reads the clock
  (\<^verbatim>\<open>time.Now()\<close>) and writes the formatted row; a quiet row (line 115)
  writes the ID.
\<close>

definition emit_table_row ::
  "'a cli_env \<Rightarrow> images_flags \<Rightarrow> image \<Rightarrow> string \<Rightarrow> ref_row \<Rightarrow> cli_state \<Rightarrow> cli_state" where
  "emit_table_row env fl img imgID r st =
     st\<lparr>writer := tw_step (writer st)
           (Println (row_line (HumanDuration env) (HumanSize env) fl (Now env (clock st)) img imgID r)),
       clock := Suc (clock st)\<rparr>"

definition emit_quiet_row :: "string \<Rightarrow> cli_state \<Rightarrow> cli_state" where
  "emit_quiet_row imgID st = st\<lparr>writer := tw_step (writer st) (Println imgID)\<rparr>"

declare emit_table_row_def [simp] emit_quiet_row_def [simp]

definition emit_row ::
  "'a cli_env \<Rightarrow> images_flags \<Rightarrow> image \<Rightarrow> string \<Rightarrow> ref_row \<Rightarrow> cli_state \<Rightarrow> cli_state" where
  "emit_row env fl img imgID r st =
     (if \<not> quiet fl then emit_table_row env fl img imgID r st else emit_quiet_row imgID st)"

text \<open>Lines 87--117: the loop over the combined tag and digest strings of one image.\<close>

fun refs_loop ::
  "'a cli_env \<Rightarrow> images_flags \<Rightarrow> image \<Rightarrow> string \<Rightarrow> string list \<Rightarrow> cli_state \<Rightarrow>
   go_error option \<times> cli_state" where
  "refs_loop env fl img imgID [] st = (None, st)"
| "refs_loop env fl img imgID (repoAndRef # rest) st =
     (case resolve_ref (ParseNamed env) repoAndRef of
        Inl err \<Rightarrow> (Some err, st)
      | Inr r \<Rightarrow> refs_loop env fl img imgID rest (emit_row env fl img imgID r st))"

text \<open>Lines 71--118: the loop over the images.\<close>

fun images_loop ::
  "'a cli_env \<Rightarrow> images_flags \<Rightarrow> image list \<Rightarrow> cli_state \<Rightarrow> go_error option \<times> cli_state" where
  "images_loop env fl [] st = (None, st)"
| "images_loop env fl (img # imgs) st =
     (case refs_loop env fl img (display_id fl (ID img)) (tagsAndDigests img) st of
        (Some err, st') \<Rightarrow> (Some err, st')
      | (None, st') \<Rightarrow> images_loop env fl imgs st')"

subsection \<open>The command\<close>

text \<open>Lines 120--122: the final flush, skipped with \<^verbatim>\<open>-q\<close>.\<close>

definition flush_unless_quiet :: "images_flags \<Rightarrow> cli_state \<Rightarrow> cli_state" where
  "flush_unless_quiet fl st = (if \<not> quiet fl then st\<lparr>writer := tw_step (writer st) Flush\<rparr> else st)"

declare flush_unless_quiet_def [simp]

text \<open>
  Lines 35--123, after flag parsing: \<open>fl\<close> and \<open>args\<close> are the parsed flags and the
  positional arguments (lines 23--33 are \<open>Flags.images_cmd_flags\<close>, and theory
  \<open>Command\<close> composes the two).
\<close>

definition CmdImages ::
  "'a cli_env \<Rightarrow> images_flags \<Rightarrow> string list \<Rightarrow> go_error option \<times> cli_state" where
  "CmdImages env fl args =
     (case parse_filters (ParseFlag env) (flFilter fl) (NewArgs env) of
        Inl err \<Rightarrow> (Some err, init_state)
      | Inr imageFilterArgs \<Rightarrow>
          (let options = list_options fl args imageFilterArgs
           in case list_images env options of
                Inl err \<Rightarrow> (Some err, init_state)
              | Inr images \<Rightarrow>
                  (case images_loop env fl images (write_header fl init_state) of
                     (Some err, st) \<Rightarrow> (Some err, st)
                   | (None, st) \<Rightarrow> (None, flush_unless_quiet fl st))))"

text \<open>What the user sees: the lines delivered to \<^verbatim>\<open>cli.out\<close>.\<close>

definition stdout :: "go_error option \<times> cli_state \<Rightarrow> string list" where
  "stdout res = tw_out (writer (snd res))"

subsection \<open>Emitting rows\<close>

text \<open>The rows of a scan, emitted one after the other as the two loops emit them.\<close>

definition emit_all :: "'a cli_env \<Rightarrow> images_flags \<Rightarrow> (image \<times> ref_row) list \<Rightarrow> cli_state \<Rightarrow> cli_state" where
  "emit_all env fl xs st = fold (\<lambda>(img, r). emit_row env fl img (display_id fl (ID img)) r) xs st"

text \<open>The lines an emission writes, the clock reading of each non-quiet row being the next one.\<close>

fun row_lines :: "'a cli_env \<Rightarrow> images_flags \<Rightarrow> nat \<Rightarrow> (image \<times> ref_row) list \<Rightarrow> string list" where
  "row_lines env fl k [] = []"
| "row_lines env fl k ((img, r) # xs) =
     row_line (HumanDuration env) (HumanSize env) fl (Now env k) img (display_id fl (ID img)) r #
     row_lines env fl (if quiet fl then k else Suc k) xs"

declare init_state_def [model_simps] match_name_def [model_simps]
  write_header_def [model_simps]
  emit_row_def [model_simps] CmdImages_def [model_simps] stdout_def [model_simps]


subsection \<open>The loops are a scan followed by emission\<close>

lemma list_images_eq [simp]: "list_images env options = ImageList env options"
  by (simp add: list_images_def split: sum.split)

lemma emit_all_Nil [simp]: "emit_all env fl [] st = st"
  by (simp add: emit_all_def)

lemma emit_all_Cons [simp]:
  "emit_all env fl ((img, r) # xs) st = emit_all env fl xs (emit_row env fl img (display_id fl (ID img)) r st)"
  by (simp add: emit_all_def)

lemma emit_all_append [simp]:
  "emit_all env fl (xs @ ys) st = emit_all env fl ys (emit_all env fl xs st)"
  by (simp add: emit_all_def)

lemma refs_loop_scan:
  "refs_loop env fl img (display_id fl (ID img)) ss st =
     (fst (scan_refs (ParseNamed env) ss), emit_all env fl (map (Pair img) (snd (scan_refs (ParseNamed env) ss))) st)"
  by (induction ss arbitrary: st) (auto split: sum.splits prod.splits)

lemma images_loop_scan:
  "images_loop env fl imgs st =
     (fst (scan_images (ParseNamed env) imgs), emit_all env fl (snd (scan_images (ParseNamed env) imgs)) st)"
proof (induction imgs arbitrary: st)
  case Nil
  then show ?case by simp
next
  case (Cons img imgs)
  then show ?case
    by (cases "scan_refs (ParseNamed env) (tagsAndDigests img)")
       (auto simp: refs_loop_scan split: option.splits prod.splits)
qed

lemma emit_all_written:
  "tw_written (writer (emit_all env fl xs st)) = tw_written (writer st) @ row_lines env fl (clock st) xs"
  by (induction xs arbitrary: st) (auto simp: emit_row_def)

lemma emit_all_out_not_quiet:
  "\<not> quiet fl \<Longrightarrow> tw_out (writer (emit_all env fl xs st)) = tw_out (writer st)"
  by (induction xs arbitrary: st) (auto simp: emit_row_def row_line_not_tab_free)

lemma emit_all_display_not_quiet:
  "\<not> quiet fl \<Longrightarrow> tw_display (writer (emit_all env fl xs st)) = tw_display (writer st) \<and>
                   tw_cfg (writer (emit_all env fl xs st)) = tw_cfg (writer st)"
  by (induction xs arbitrary: st) (auto simp: emit_row_def row_line_not_tab_free)

lemma emit_all_display_quiet:
  assumes "quiet fl" and "\<forall>(img, r) \<in> set xs. tab_free (display_id fl (ID img))"
    and "tw_pending (writer st) = []"
  shows "tw_display (writer (emit_all env fl xs st)) = tw_display (writer st) @ row_lines env fl (clock st) xs"
  using assms(2,3)
proof (induction xs arbitrary: st)
  case (Cons x xs)
  obtain img r where x: "x = (img, r)" by fastforce
  with Cons.prems assms(1) show ?case
    by (simp add: emit_row_def Cons.IH writeLine_Nil_widths)
qed simp

lemma emit_all_out_quiet:
  "quiet fl \<Longrightarrow> \<forall>(img, r) \<in> set xs. tab_free (display_id fl (ID img)) \<Longrightarrow> xs \<noteq> [] \<Longrightarrow>
   tw_out (writer (emit_all env fl xs st)) = tw_written (writer st) @ row_lines env fl (clock st) xs"
proof (induction xs arbitrary: st)
  case Nil
  then show ?case by simp
next
  case (Cons x xs)
  obtain img r where x: "x = (img, r)" by fastforce
  show ?case
  proof (cases "xs = []")
    case True
    with Cons.prems x show ?thesis by (simp add: emit_row_def tw_written_def)
  next
    case False
    with Cons.IH Cons.prems x show ?thesis by (simp add: emit_row_def tw_written_def)
  qed
qed

lemma emit_all_clock:
  "clock (emit_all env fl xs st) = clock st + (if quiet fl then 0 else length xs)"
  by (induction xs arbitrary: st) (auto simp: emit_row_def)

lemma row_lines_quiet:
  "quiet fl \<Longrightarrow> row_lines env fl k xs = map (\<lambda>(img, r). display_id fl (ID img)) xs"
  by (induction xs arbitrary: k) auto


lemma length_row_lines [simp]: "length (row_lines env fl k xs) = length xs"
  by (induction env fl k xs rule: row_lines.induct) auto

subsection \<open>What a run delivers\<close>

lemma CmdImages_listed:
  assumes "parse_filters (ParseFlag env) (flFilter fl) (NewArgs env) = Inr fa"
    and "ImageList env \<lparr>MatchName = match_name args, All_images = all fl, Filters = fa\<rparr> = Inr images"
  shows "CmdImages env fl args =
           (case images_loop env fl images (write_header fl init_state) of
              (Some err, st) \<Rightarrow> (Some err, st)
            | (None, st) \<Rightarrow> (None, if \<not> quiet fl then st\<lparr>writer := tw_step (writer st) Flush\<rparr> else st))"
  using assms by (simp add: CmdImages_def cong: prod.case_cong option.case_cong)

lemma header_state:
  "tw_written (writer (write_header fl init_state)) = (if quiet fl then [] else [header_line fl]) \<and>
   tw_out (writer (write_header fl init_state)) = [] \<and> clock (write_header fl init_state) = 0"
  by (simp add: write_header_def init_state_def NewWriter_def tw_written_def)

lemma header_display:
  "tw_display (writer (write_header fl init_state)) = [] \<and>
   tw_cfg (writer (write_header fl init_state)) = tw_cfg (writer init_state)"
  by (simp add: write_header_def init_state_def NewWriter_def)

lemma quiet_out:
  assumes "quiet fl" and "\<forall>(img, r) \<in> set xs. tab_free (display_id fl (ID img))"
  shows "tw_out (writer (emit_all env fl xs (write_header fl init_state))) = row_lines env fl 0 xs"
proof (cases "xs = []")
  case True
  then show ?thesis using header_state by simp
next
  case False
  with assms show ?thesis using header_state [of fl] by (simp add: emit_all_out_quiet)
qed

text \<open>What a listing run delivers, by mode, in terms of the scan of the returned images.\<close>

lemma CmdImages_stdout_not_quiet:
  assumes "\<not> quiet fl"
    and "parse_filters (ParseFlag env) (flFilter fl) (NewArgs env) = Inr fa"
    and "ImageList env \<lparr>MatchName = match_name args, All_images = all fl, Filters = fa\<rparr> = Inr images"
  shows "fst (CmdImages env fl args) = fst (scan_images (ParseNamed env) images) \<and>
         stdout (CmdImages env fl args) =
           (case fst (scan_images (ParseNamed env) images) of
              None \<Rightarrow> header_line fl # row_lines env fl 0 (snd (scan_images (ParseNamed env) images))
            | Some err \<Rightarrow> [])"
  using assms header_state [of fl]
  by (cases "scan_images (ParseNamed env) images")
     (auto simp: CmdImages_listed images_loop_scan stdout_def emit_all_written emit_all_out_not_quiet
           split: option.splits)

lemma CmdImages_stdout_quiet:
  assumes "quiet fl"
    and "parse_filters (ParseFlag env) (flFilter fl) (NewArgs env) = Inr fa"
    and "ImageList env \<lparr>MatchName = match_name args, All_images = all fl, Filters = fa\<rparr> = Inr images"
    and "\<forall>img \<in> set images. tab_free (display_id fl (ID img))"
  shows "fst (CmdImages env fl args) = fst (scan_images (ParseNamed env) images) \<and>
         stdout (CmdImages env fl args) =
           map (\<lambda>(img, r). display_id fl (ID img)) (snd (scan_images (ParseNamed env) images))"
proof -
  let ?sc = "scan_images (ParseNamed env) images"
  have "\<forall>(img, r) \<in> set (snd ?sc). tab_free (display_id fl (ID img))"
    using scan_images_rows_from [of _ "ParseNamed env" images] assms(4) by fastforce
  then have "tw_out (writer (emit_all env fl (snd ?sc) (write_header fl init_state))) =
               map (\<lambda>(img, r). display_id fl (ID img)) (snd ?sc)"
    using assms(1) by (simp add: quiet_out row_lines_quiet)
  with assms show ?thesis
    by (cases ?sc) (auto simp: CmdImages_listed images_loop_scan stdout_def split: option.splits)
qed


subsection \<open>Frame: the daemon's listing is consulted only by the command\<close>

lemma emit_row_ImageList_update [simp]: "emit_row (env\<lparr>ImageList := f\<rparr>) = emit_row env"
  by (intro ext) (simp add: emit_row_def)

lemma images_loop_ImageList_update [simp]:
  "images_loop (env\<lparr>ImageList := f\<rparr>) fl imgs st = images_loop env fl imgs st"
  by (simp add: images_loop_scan emit_all_def)

subsection \<open>Filters\<close>

lemma parse_filters_append_error:
  "parse_filters parse pre a = Inr b \<Longrightarrow> parse f b = Inl err \<Longrightarrow>
   parse_filters parse (pre @ f # post) a = Inl err"
  by (induction pre arbitrary: a) (auto split: sum.splits)

lemma parse_filters_error_split:
  "parse_filters parse fs a = Inl err \<Longrightarrow>
   \<exists>pre f post b. fs = pre @ f # post \<and> parse_filters parse pre a = Inr b \<and> parse f b = Inl err"
proof (induction fs arbitrary: a)
  case Nil
  then show ?case by simp
next
  case (Cons g gs)
  show ?case
  proof (cases "parse g a")
    case (Inl e)
    with Cons.prems show ?thesis
      by (intro exI [where x = "[]"] exI [where x = g] exI [where x = gs] exI [where x = a]) simp
  next
    case (Inr a')
    with Cons.prems have "parse_filters parse gs a' = Inl err" by simp
    then obtain pre f post b where "gs = pre @ f # post" "parse_filters parse pre a' = Inr b"
        "parse f b = Inl err"
      using Cons.IH by blast
    with Inr show ?thesis
      by (intro exI [where x = "g # pre"] exI [where x = f] exI [where x = post] exI [where x = b]) simp
  qed
qed

text \<open>C18: The --filter values are parsed in order and the first one that fails is the error.\<close>

theorem parse_filters_first_error:
  "parse_filters parse fs a = Inl err \<longleftrightarrow>
   (\<exists>pre f post b. fs = pre @ f # post \<and> parse_filters parse pre a = Inr b \<and> parse f b = Inl err)"
proof
  assume "parse_filters parse fs a = Inl err"
  then show "\<exists>pre f post b. fs = pre @ f # post \<and> parse_filters parse pre a = Inr b \<and>
               parse f b = Inl err"
    by (rule parse_filters_error_split)
next
  assume "\<exists>pre f post b. fs = pre @ f # post \<and> parse_filters parse pre a = Inr b \<and>
            parse f b = Inl err"
  then show "parse_filters parse fs a = Inl err"
    by (auto intro: parse_filters_append_error)
qed

subsection \<open>Buffering\<close>

text \<open>C15: Without -q nothing reaches the terminal before the final Flush: the header and every row stay buffered in the writer, whatever the loops do.\<close>

theorem images_loop_buffers_until_flush:
  assumes "\<not> quiet fl"
  shows "tw_out (writer (snd (images_loop env fl images (write_header fl init_state)))) = []"
  using assms header_state [of fl] by (simp add: images_loop_scan emit_all_out_not_quiet)


subsection \<open>The writer along a run\<close>

lemma emit_all_reach: "tw_reach (writer st) \<Longrightarrow> tw_reach (writer (emit_all env fl xs st))"
proof (induction xs arbitrary: st)
  case Nil
  then show ?case by simp
next
  case (Cons x xs)
  obtain img r where x: "x = (img, r)" by fastforce
  have "tw_reach (writer (emit_row env fl img (display_id fl (ID img)) r st))"
    using Cons.prems by (auto simp: emit_row_def)
  then show ?case using Cons.IH x by simp
qed

lemma write_header_reach: "tw_reach (writer (write_header fl init_state))"
proof -
  have "tw_reach (tw_println (header_line fl) (NewWriter 20 1 3 CHR '' '' 0))"
    by (intro tw_reach_println tw_reach.start)
  then show ?thesis by (simp add: write_header_def init_state_def tw_reach.start)
qed

lemma CmdImages_reach: "tw_reach (writer (snd (CmdImages env fl args)))"
proof (cases "parse_filters (ParseFlag env) (flFilter fl) (NewArgs env)")
  case (Inl err)
  then show ?thesis by (simp add: CmdImages_def init_state_def tw_reach.start)
next
  case (Inr fa)
  let ?o = "\<lparr>MatchName = match_name args, All_images = all fl, Filters = fa\<rparr>"
  show ?thesis
  proof (cases "ImageList env ?o")
    case (Inl err)
    with Inr show ?thesis by (simp add: CmdImages_def init_state_def tw_reach.start)
  next
    case (Inr images)
    obtain e st where L: "images_loop env fl images (write_header fl init_state) = (e, st)"
      by fastforce
    have "tw_reach (writer (snd (images_loop env fl images (write_header fl init_state))))"
      by (simp add: images_loop_scan emit_all_reach write_header_reach)
    with L have "tw_reach (writer st)" by simp
    with \<open>parse_filters _ _ _ = Inr fa\<close> Inr L show ?thesis
      by (cases e) (auto simp: CmdImages_def)
  qed
qed

lemma quiet_pending:
  assumes "quiet fl" and "\<forall>(img, r) \<in> set xs. tab_free (display_id fl (ID img))"
  shows "tw_pending (writer (emit_all env fl xs (write_header fl init_state))) = []"
proof -
  let ?w = "writer (emit_all env fl xs (write_header fl init_state))"
  have "tw_out ?w = row_lines env fl 0 xs" using assms by (rule quiet_out)
  moreover have "tw_written ?w = row_lines env fl 0 xs"
    using assms(1) header_state [of fl] by (simp add: emit_all_written)
  ultimately show ?thesis by (simp add: tw_written_def)
qed

subsection \<open>Flags that do not matter\<close>

lemma emit_row_quiet_showDigests:
  "quiet fl \<Longrightarrow> emit_row env (fl\<lparr>showDigests := b\<rparr>) = emit_row env fl"
  by (intro ext) (simp add: emit_row_def)

lemma images_loop_quiet_showDigests:
  "quiet fl \<Longrightarrow> images_loop env (fl\<lparr>showDigests := b\<rparr>) imgs st = images_loop env fl imgs st"
  by (simp add: images_loop_scan emit_all_def emit_row_quiet_showDigests)

text \<open>The \<^verbatim>\<open>--filter\<close> values are read only by the filter loop.\<close>

lemma emit_row_flFilter [simp]: "emit_row env (fl\<lparr>flFilter := fs\<rparr>) = emit_row env fl"
  by (intro ext) (simp add: emit_row_def row_line_def)

lemma images_loop_flFilter [simp]:
  "images_loop env (fl\<lparr>flFilter := fs\<rparr>) imgs st = images_loop env fl imgs st"
  by (simp add: images_loop_scan emit_all_def display_id_def)

lemma write_header_flFilter [simp]: "write_header (fl\<lparr>flFilter := fs\<rparr>) = write_header fl"
  by (intro ext) (simp add: write_header_def header_line_def)

end
