(* ===== verification/Flags.thy ===== *)
theory Flags
  imports Prelude Render
begin

text \<open>
  The flag layer of \<^verbatim>\<open>CmdImages\<close> (lines 23--33 of \<^verbatim>\<open>images.go\<close>) and the part of
  \<^verbatim>\<open>pkg/mflag\<close> it runs. \<^verbatim>\<open>pkg/mflag\<close> is the repository's fork of Go's
  \<^verbatim>\<open>flag\<close> package; it lives outside \<^verbatim>\<open>src/\<close> and is modelled after its
  \<^verbatim>\<open>FlagSet\<close>, \<^verbatim>\<open>parseOne\<close>, \<^verbatim>\<open>Parse\<close>, \<^verbatim>\<open>CheckArgs\<close> and \<^verbatim>\<open>ParseFlags\<close>.

  A \<^verbatim>\<open>FlagSet\<close> holds its declared flags (\<open>fs_formal\<close>, each with its names and the
  kind and default of its \<^verbatim>\<open>Value\<close>), the current value of each (\<open>fs_vals\<close>, in the
  order of declaration: the \<^verbatim>\<open>Value\<close> objects the returned pointers read), the
  arguments not yet consumed (\<open>fs_args\<close>; after parsing, \<^verbatim>\<open>cmd.Args()\<close>) and the
  argument-count requirements (\<open>fs_nargs\<close>). \<^verbatim>\<open>images.go\<close> declares four boolean
  flags and one list flag (\<^verbatim>\<open>opts.ListOpts\<close>, whose \<^verbatim>\<open>Set\<close> appends).

  \<^verbatim>\<open>Parse\<close> repeats \<^verbatim>\<open>parseOne\<close> until it reports that no flag was seen; an
  undefined single-dash name of several letters (\<^verbatim>\<open>-qa\<close>) is retried letter by
  letter. The loop is \<open>Parse_loop\<close>, a \<^theory_text>\<open>partial_function (option)\<close>:
  \<open>None\<close> would be a parse that never ends, and that it always ends is a theorem.
  \<^verbatim>\<open>Cli.Subcmd(..., true)\<close> creates the set with \<^verbatim>\<open>ExitOnError\<close>, so every error,
  a help request, and a failed argument count end the process inside line 33:
  they are the values \<open>Inl\<close> of \<open>flag_error\<close>. Messages, usage text and exit
  statuses are not modelled.
\<close>

datatype flag_value = BoolValue bool | ListValue "string list"

record flag_decl =
  flag_names :: "string list"
  flag_default :: flag_value

datatype nargs_req = NArgExact nat | NArgMin nat | NArgMax nat

record flag_set =
  fs_formal :: "flag_decl list"
  fs_vals :: "flag_value list"
  fs_args :: "string list"
  fs_nargs :: "nargs_req list"

datatype flag_error =
    BadSyntax string
  | NotDefined string
  | NeedsArgument string
  | InvalidBool string string
  | HelpRequested
  | WrongArgCount nargs_req nat

text \<open>The results \<^verbatim>\<open>(seen, name, err)\<close> of \<^verbatim>\<open>parseOne\<close>: a flag consumed, the end of
  the flags (\<^verbatim>\<open>err == nil\<close>), \<^verbatim>\<open>ErrRetry\<close> with the name, or another error.\<close>

datatype parse_step = Seen flag_set | Stop flag_set | Retry string flag_set | Failed flag_error

text \<open>\<^verbatim>\<open>f.formal[name]\<close>: the index of the declaration that has the name.\<close>

fun lookup_flag :: "flag_decl list \<Rightarrow> string \<Rightarrow> nat option" where
  "lookup_flag [] name = None"
| "lookup_flag (d # ds) name =
     (if name \<in> set (flag_names d) then Some 0 else map_option Suc (lookup_flag ds name))"

text \<open>\<^verbatim>\<open>strconv.ParseBool\<close>, which the boolean \<^verbatim>\<open>Value.Set\<close> calls.\<close>

definition ParseBool :: "string \<Rightarrow> bool option" where
  "ParseBool s =
     (if s \<in> set [''1'', ''t'', ''T'', ''TRUE'', ''true'', ''True''] then Some True
      else if s \<in> set [''0'', ''f'', ''F'', ''FALSE'', ''false'', ''False''] then Some False
      else None)"

text \<open>
  \<^verbatim>\<open>parseOne\<close>: an argument that is empty, \<^verbatim>\<open>-\<close> or does not start with a dash ends
  the flags and stays an argument; \<^verbatim>\<open>--\<close> ends them and is consumed; otherwise the
  name (up to an \<^verbatim>\<open>=\<close>) is looked up. A boolean flag is set to \<open>True\<close> or to its
  \<^verbatim>\<open>=value\<close>; a list flag appends its \<^verbatim>\<open>=value\<close> or the next argument.
\<close>

definition parseOne :: "flag_set \<Rightarrow> parse_step" where
  "parseOne fs =
     (case fs_args fs of
        [] \<Rightarrow> Stop fs
      | s # rest \<Rightarrow>
          if length s < 2 \<or> hd s \<noteq> CHR ''-'' then Stop fs
          else if s = ''--'' then Stop (fs\<lparr>fs_args := rest\<rparr>)
          else if s ! 1 = CHR ''='' then Failed (BadSyntax s)
          else
            (let name0 = tl s;
                 name = takeWhile (\<lambda>c. c \<noteq> CHR ''='') name0;
                 value = (if CHR ''='' \<in> set name0
                          then Some (tl (dropWhile (\<lambda>c. c \<noteq> CHR ''='') name0)) else None);
                 vals = fs_vals fs
             in case lookup_flag (fs_formal fs) name of
                  None \<Rightarrow>
                    if name \<in> set [''-help'', ''help'', ''h'', ''?''] then Failed HelpRequested
                    else if hd name = CHR ''-'' then Failed (NotDefined name)
                    else Retry name (fs\<lparr>fs_args := rest\<rparr>)
                | Some i \<Rightarrow>
                    (case vals ! i of
                       BoolValue b \<Rightarrow>
                         (case value of
                            None \<Rightarrow> Seen (fs\<lparr>fs_args := rest, fs_vals := vals[i := BoolValue True]\<rparr>)
                          | Some v \<Rightarrow>
                              (case ParseBool v of
                                 None \<Rightarrow> Failed (InvalidBool v name)
                               | Some b' \<Rightarrow> Seen (fs\<lparr>fs_args := rest, fs_vals := vals[i := BoolValue b']\<rparr>)))
                     | ListValue l \<Rightarrow>
                         (case value of
                            Some v \<Rightarrow> Seen (fs\<lparr>fs_args := rest, fs_vals := vals[i := ListValue (l @ [v])]\<rparr>)
                          | None \<Rightarrow>
                              (case rest of
                                 [] \<Rightarrow> Failed (NeedsArgument name)
                               | v # rest' \<Rightarrow>
                                   Seen (fs\<lparr>fs_args := rest', fs_vals := vals[i := ListValue (l @ [v])]\<rparr>))))))"

text \<open>
  The \<^verbatim>\<open>ErrRetry\<close> branch of \<^verbatim>\<open>Parse\<close>: each letter \<open>c\<close> of the name is pushed
  back as \<^verbatim>\<open>-c\<close> and parsed; a letter that fails makes the whole name undefined.
\<close>

fun retry_letters :: "string \<Rightarrow> string \<Rightarrow> flag_set \<Rightarrow> flag_error + flag_set" where
  "retry_letters name [] fs = Inr fs"
| "retry_letters name (c # cs) fs =
     (case parseOne (fs\<lparr>fs_args := [CHR ''-'', c] # fs_args fs\<rparr>) of
        Seen fs' \<Rightarrow> retry_letters name cs fs'
      | Stop fs' \<Rightarrow> retry_letters name cs fs'
      | Retry n fs' \<Rightarrow> Inl (NotDefined name)
      | Failed e \<Rightarrow> Inl (NotDefined name))"

text \<open>The \<^verbatim>\<open>for\<close> loop of \<^verbatim>\<open>Parse\<close>.\<close>

partial_function (option) Parse_loop :: "flag_set \<Rightarrow> (flag_error + flag_set) option" where
  "Parse_loop fs =
     (case parseOne fs of
        Seen fs' \<Rightarrow> Parse_loop fs'
      | Stop fs' \<Rightarrow> Some (Inr fs')
      | Retry name fs' \<Rightarrow>
          (if 1 < length name then
             (case retry_letters name name fs' of
                Inr fs'' \<Rightarrow> Parse_loop fs''
              | Inl e \<Rightarrow> Some (Inl e))
           else Some (Inl (NotDefined name)))
      | Failed e \<Rightarrow> Some (Inl e))"

declare Parse_loop.simps [code]

text \<open>\<^verbatim>\<open>CheckArgs\<close>: the first requirement on \<^verbatim>\<open>NArg()\<close> that fails.\<close>

fun CheckArgs :: "nat \<Rightarrow> nargs_req list \<Rightarrow> flag_error option" where
  "CheckArgs n [] = None"
| "CheckArgs n (r # rs) =
     (if (case r of NArgExact k \<Rightarrow> n = k | NArgMin k \<Rightarrow> k \<le> n | NArgMax k \<Rightarrow> n \<le> k)
      then CheckArgs n rs else Some (WrongArgCount r n))"

text \<open>
  \<^verbatim>\<open>ParseFlags(args, withHelp)\<close>: declare the help flag (\<^verbatim>\<open>#help\<close>, \<^verbatim>\<open>--help\<close>),
  parse, exit on help, then check the argument count.
\<close>

definition ParseFlags :: "flag_set \<Rightarrow> string list \<Rightarrow> bool \<Rightarrow> (flag_error + flag_set) option" where
  "ParseFlags fs args withHelp =
     (let n = length (fs_vals fs);
          fs0 = (if withHelp
                 then fs\<lparr>fs_formal := fs_formal fs @ [\<lparr>flag_names = [''help'', ''-help''],
                                                       flag_default = BoolValue False\<rparr>],
                         fs_vals := fs_vals fs @ [BoolValue False]\<rparr>
                 else fs)
      in case Parse_loop (fs0\<lparr>fs_args := args\<rparr>) of
           None \<Rightarrow> None
         | Some (Inl e) \<Rightarrow> Some (Inl e)
         | Some (Inr fs') \<Rightarrow>
             if withHelp \<and> fs_vals fs' ! n = BoolValue True then Some (Inl HelpRequested)
             else (case CheckArgs (length (fs_args fs')) (fs_nargs fs') of
                     Some e \<Rightarrow> Some (Inl e)
                   | None \<Rightarrow> Some (Inr fs')))"

subsection \<open>The flags of \<^verbatim>\<open>docker images\<close>\<close>

text \<open>Lines 24--30: the declarations, each a \<^verbatim>\<open>cmd.Bool\<close> or \<^verbatim>\<open>cmd.Var\<close> call.\<close>

definition quiet_decl :: flag_decl where
  "quiet_decl = \<lparr>flag_names = [''q'', ''-quiet''], flag_default = BoolValue False\<rparr>"

definition all_decl :: flag_decl where
  "all_decl = \<lparr>flag_names = [''a'', ''-all''], flag_default = BoolValue False\<rparr>"

definition noTrunc_decl :: flag_decl where
  "noTrunc_decl = \<lparr>flag_names = [''-no-trunc''], flag_default = BoolValue False\<rparr>"

definition showDigests_decl :: flag_decl where
  "showDigests_decl = \<lparr>flag_names = [''-digests''], flag_default = BoolValue False\<rparr>"

definition flFilter_decl :: flag_decl where
  "flFilter_decl = \<lparr>flag_names = [''f'', ''-filter''], flag_default = ListValue []\<rparr>"

text \<open>Lines 23--31: the flag set of \<^verbatim>\<open>Cli.Subcmd\<close> with the five flags, each holding its
  default, and \<^verbatim>\<open>cmd.Require(flag.Max, 1)\<close>.\<close>

definition images_flagset :: flag_set where
  "images_flagset =
     (let decls = [quiet_decl, all_decl, noTrunc_decl, showDigests_decl, flFilter_decl]
      in \<lparr>fs_formal = decls, fs_vals = map flag_default decls, fs_args = [], fs_nargs = [NArgMax 1]\<rparr>)"

text \<open>\<^verbatim>\<open>*quiet\<close>, \<^verbatim>\<open>*all\<close>, \<^verbatim>\<open>*noTrunc\<close>, \<^verbatim>\<open>*showDigests\<close> and \<^verbatim>\<open>flFilter.GetAll()\<close>.\<close>

definition flags_of :: "flag_set \<Rightarrow> images_flags" where
  "flags_of fs =
     \<lparr>quiet = (fs_vals fs ! 0 = BoolValue True), all = (fs_vals fs ! 1 = BoolValue True),
      noTrunc = (fs_vals fs ! 2 = BoolValue True), showDigests = (fs_vals fs ! 3 = BoolValue True),
      flFilter = (case fs_vals fs ! 4 of ListValue l \<Rightarrow> l | BoolValue b \<Rightarrow> [])\<rparr>"

text \<open>Lines 23--33: the flags and the positional arguments (\<^verbatim>\<open>cmd.NArg()\<close>, \<^verbatim>\<open>cmd.Arg(0)\<close>).\<close>

definition images_cmd_flags :: "string list \<Rightarrow> (flag_error + images_flags \<times> string list) option" where
  "images_cmd_flags args =
     (case ParseFlags images_flagset args True of
        None \<Rightarrow> None
      | Some (Inl e) \<Rightarrow> Some (Inl e)
      | Some (Inr fs) \<Rightarrow> Some (Inr (flags_of fs, fs_args fs)))"

lemmas images_flag_defs = images_flagset_def quiet_decl_def all_decl_def noTrunc_decl_def
  showDigests_decl_def flFilter_decl_def

declare ParseBool_def [model_simps] ParseFlags_def [model_simps] images_flag_defs [model_simps]
  flags_of_def [model_simps] images_cmd_flags_def [model_simps]

subsection \<open>Typing of the flag values\<close>

text \<open>A value has the kind of its declaration: the \<^verbatim>\<open>Value\<close> behind a pointer never changes type.\<close>

fun same_kind :: "flag_value \<Rightarrow> flag_value \<Rightarrow> bool" where
  "same_kind (BoolValue a) (BoolValue b) = True"
| "same_kind (ListValue a) (ListValue b) = True"
| "same_kind v w = False"

definition fs_wt :: "flag_set \<Rightarrow> bool" where
  "fs_wt fs \<longleftrightarrow> list_all2 (\<lambda>d v. same_kind (flag_default d) v) (fs_formal fs) (fs_vals fs)"

text \<open>Parsing changes only the values and the remaining arguments.\<close>

definition fs_same :: "flag_set \<Rightarrow> flag_set \<Rightarrow> bool" where
  "fs_same fs fs' \<longleftrightarrow> fs_formal fs' = fs_formal fs \<and> fs_nargs fs' = fs_nargs fs"

text \<open>A command line that sets the given flags of \<^verbatim>\<open>docker images\<close>, each filter in order.\<close>

definition images_argv :: "images_flags \<Rightarrow> string list \<Rightarrow> string list" where
  "images_argv fl pos =
     (if quiet fl then [''-q''] else []) @ (if all fl then [''-a''] else []) @
     (if noTrunc fl then [''--no-trunc''] else []) @ (if showDigests fl then [''--digests''] else []) @
     concat (map (\<lambda>v. [''-f'', v]) (flFilter fl)) @ ''--'' # pos"

subsection \<open>Steps of the parser\<close>

lemma fs_same_trans: "fs_same a b \<Longrightarrow> fs_same b c \<Longrightarrow> fs_same a c"
  by (simp add: fs_same_def)

lemma parseOne_Seen_shorter:
  "parseOne fs = Seen fs' \<Longrightarrow> length (fs_args fs') < length (fs_args fs)"
  by (auto simp: parseOne_def Let_def split: list.splits if_splits option.splits flag_value.splits)

lemma parseOne_Retry_shorter:
  "parseOne fs = Retry n fs' \<Longrightarrow> length (fs_args fs') < length (fs_args fs)"
  by (auto simp: parseOne_def Let_def split: list.splits if_splits option.splits flag_value.splits)

lemma parseOne_Stop_dash:
  "\<lbrakk>fs_args fs = s # rest; 2 \<le> length s; hd s = CHR ''-''; parseOne fs = Stop fs'\<rbrakk>
   \<Longrightarrow> fs_args fs' = rest"
  by (auto simp: parseOne_def Let_def split: if_splits option.splits flag_value.splits list.splits)

lemma parseOne_keeps:
  "parseOne fs \<in> {Seen fs', Stop fs', Retry n fs'} \<Longrightarrow>
     fs_formal fs' = fs_formal fs \<and> fs_nargs fs' = fs_nargs fs"
  by (auto simp: parseOne_def Let_def split: list.splits if_splits option.splits flag_value.splits)

lemma retry_letters_le:
  "retry_letters name cs fs = Inr fs' \<Longrightarrow> length (fs_args fs') \<le> length (fs_args fs)"
proof (induction cs arbitrary: fs)
  case Nil
  then show ?case by simp
next
  case (Cons c cs)
  let ?fs = "fs\<lparr>fs_args := [CHR ''-'', c] # fs_args fs\<rparr>"
  show ?case
  proof (cases "parseOne ?fs")
    case (Seen fs1)
    with Cons.prems have "retry_letters name cs fs1 = Inr fs'" by simp
    with Cons.IH parseOne_Seen_shorter [OF Seen] show ?thesis by fastforce
  next
    case (Stop fs1)
    with Cons.prems have "retry_letters name cs fs1 = Inr fs'" by simp
    moreover have "fs_args fs1 = fs_args fs"
      using parseOne_Stop_dash [OF _ _ _ Stop] by simp
    ultimately show ?thesis using Cons.IH [of fs1] by simp
  qed (use Cons.prems in simp_all)
qed

lemma Parse_loop_Seen: "parseOne fs = Seen fs' \<Longrightarrow> Parse_loop fs = Parse_loop fs'"
  by (subst Parse_loop.simps) simp

lemma Parse_loop_Stop: "parseOne fs = Stop fs' \<Longrightarrow> Parse_loop fs = Some (Inr fs')"
  by (subst Parse_loop.simps) simp

lemma Parse_loop_Failed: "parseOne fs = Failed e \<Longrightarrow> Parse_loop fs = Some (Inl e)"
  by (subst Parse_loop.simps) simp

lemma Parse_loop_Retry:
  "parseOne fs = Retry n fs' \<Longrightarrow>
   Parse_loop fs = (if 1 < length n then (case retry_letters n n fs' of
                                            Inr fs'' \<Rightarrow> Parse_loop fs''
                                          | Inl e \<Rightarrow> Some (Inl e))
                    else Some (Inl (NotDefined n)))"
  by (subst Parse_loop.simps) simp

lemmas Parse_loop_steps = Parse_loop_Seen Parse_loop_Stop Parse_loop_Failed Parse_loop_Retry

text \<open>The loop of \<^verbatim>\<open>Parse\<close> ends: every round consumes an argument.\<close>

lemma Parse_loop_Some: "\<exists>r. Parse_loop fs = Some r"
proof (induction "length (fs_args fs)" arbitrary: fs rule: less_induct)
  case less
  show ?case
  proof (cases "parseOne fs")
    case (Seen fs')
    with less parseOne_Seen_shorter show ?thesis by (simp add: Parse_loop_Seen)
  next
    case (Retry n fs')
    show ?thesis
    proof (cases "retry_letters n n fs'")
      case (Inr fs'')
      with retry_letters_le parseOne_Retry_shorter [OF Retry]
      have "length (fs_args fs'') < length (fs_args fs)" by fastforce
      with less Retry Inr show ?thesis by (simp add: Parse_loop_Retry)
    qed (simp add: Parse_loop_Retry Retry)
  qed (simp_all add: Parse_loop_Stop Parse_loop_Failed)
qed

lemma lookup_flag_less: "lookup_flag ds name = Some i \<Longrightarrow> i < length ds"
  by (induction ds arbitrary: i) (auto split: if_splits)

lemma same_kind_trans: "same_kind u v \<Longrightarrow> same_kind v w \<Longrightarrow> same_kind u w"
  by (cases u; cases v; cases w) simp_all

lemma fs_wt_update:
  assumes "fs_wt fs" "i < length (fs_formal fs)" "same_kind (fs_vals fs ! i) v"
  shows "fs_wt (fs\<lparr>fs_args := a, fs_vals := (fs_vals fs)[i := v]\<rparr>)"
proof -
  let ?P = "\<lambda>d v. same_kind (flag_default d) v"
  from assms(1) have all2: "list_all2 ?P (fs_formal fs) (fs_vals fs)" by (simp add: fs_wt_def)
  with assms(2,3) have "?P (fs_formal fs ! i) v"
    by (auto dest: list_all2_nthD intro: same_kind_trans)
  from list_all2_update_cong [OF all2 this, of i] have
    "list_all2 ?P ((fs_formal fs)[i := fs_formal fs ! i]) ((fs_vals fs)[i := v])" .
  then show ?thesis by (simp add: fs_wt_def)
qed

lemma fs_wt_args [simp]: "fs_wt (fs\<lparr>fs_args := a\<rparr>) = fs_wt fs"
  by (simp add: fs_wt_def)

lemma parseOne_wt:
  "\<lbrakk>fs_wt fs; parseOne fs \<in> {Seen fs', Stop fs', Retry n fs'}\<rbrakk> \<Longrightarrow> fs_wt fs'"
  by (auto simp: parseOne_def Let_def fs_wt_def [symmetric]
           split: list.splits if_splits option.splits flag_value.splits
           intro!: fs_wt_update dest: lookup_flag_less)

lemma retry_letters_wt:
  "\<lbrakk>retry_letters name cs fs = Inr fs'; fs_wt fs\<rbrakk> \<Longrightarrow> fs_wt fs' \<and> fs_same fs fs'"
proof (induction cs arbitrary: fs)
  case (Cons c cs)
  let ?fs = "fs\<lparr>fs_args := [CHR ''-'', c] # fs_args fs\<rparr>"
  from Cons.prems have wt: "fs_wt ?fs" by simp
  show ?case
  proof (cases "parseOne ?fs")
    case (Seen fs1)
    with Cons.prems parseOne_wt [OF wt] parseOne_keeps [of ?fs fs1] Cons.IH [of fs1]
    show ?thesis by (auto simp: fs_same_def)
  next
    case (Stop fs1)
    with Cons.prems parseOne_wt [OF wt] parseOne_keeps [of ?fs fs1] Cons.IH [of fs1]
    show ?thesis by (auto simp: fs_same_def)
  qed (use Cons.prems in simp_all)
qed (simp add: fs_same_def)

lemma Parse_loop_wt:
  assumes "Parse_loop fs = Some (Inr fs')" and "fs_wt fs"
  shows "fs_wt fs' \<and> fs_same fs fs'"
proof -
  have "\<forall>fs'. r = Inr fs' \<longrightarrow> fs_wt fs \<longrightarrow> fs_wt fs' \<and> fs_same fs fs'" if "Parse_loop fs = Some r" for r
  proof (rule Parse_loop.raw_induct [where P = "\<lambda>fs r. \<forall>fs'. r = Inr fs' \<longrightarrow> fs_wt fs \<longrightarrow> fs_wt fs' \<and> fs_same fs fs'", OF _ that])
    fix f :: "flag_set \<Rightarrow> (flag_error + flag_set) option" and fs r
    assume IH: "\<And>fs r. f fs = Some r \<Longrightarrow> \<forall>fs'. r = Inr fs' \<longrightarrow> fs_wt fs \<longrightarrow> fs_wt fs' \<and> fs_same fs fs'"
      and eq: "(case parseOne fs of Seen fs' \<Rightarrow> f fs' | Stop fs' \<Rightarrow> Some (Inr fs')
               | Retry name fs' \<Rightarrow> if 1 < length name then (case retry_letters name name fs' of
                    Inr fs'' \<Rightarrow> f fs'' | Inl e \<Rightarrow> Some (Inl e)) else Some (Inl (NotDefined name))
               | Failed e \<Rightarrow> Some (Inl e)) = Some r"
    show "\<forall>fs'. r = Inr fs' \<longrightarrow> fs_wt fs \<longrightarrow> fs_wt fs' \<and> fs_same fs fs'"
    proof (intro allI impI)
      fix fs' assume r: "r = Inr fs'" and wt: "fs_wt fs"
      show "fs_wt fs' \<and> fs_same fs fs'"
      proof (cases "parseOne fs")
        case (Seen fs1)
        with eq IH [of fs1 r] r parseOne_wt [OF wt] parseOne_keeps [of fs fs1] show ?thesis
          by (auto simp: fs_same_def)
      next
        case (Stop fs1)
        with eq r parseOne_wt [OF wt] parseOne_keeps [of fs fs1] show ?thesis
          by (auto simp: fs_same_def)
      next
        case (Retry n fs1)
        with parseOne_wt [OF wt] parseOne_keeps [of fs fs1] have "fs_wt fs1" "fs_same fs fs1"
          by (auto simp: fs_same_def)
        note wt1 = this
        from eq Retry r obtain fs2 where
          rl: "retry_letters n n fs1 = Inr fs2" and f2: "f fs2 = Some (Inr fs')"
          by (auto split: if_splits sum.splits)
        from retry_letters_wt [OF rl wt1(1)] have "fs_wt fs2" "fs_same fs1 fs2" by auto
        with IH [OF f2] wt1(2) show ?thesis by (auto intro: fs_same_trans)
      next
        case (Failed e)
        with eq r show ?thesis by simp
      qed
    qed
  qed
  with assms show ?thesis by blast
qed

lemma same_kind_BoolValue: "same_kind (BoolValue b) v \<longleftrightarrow> (\<exists>c. v = BoolValue c)"
  by (cases v) simp_all

lemma same_kind_ListValue: "same_kind (ListValue l) v \<longleftrightarrow> (\<exists>m. v = ListValue m)"
  by (cases v) simp_all

lemma ParseFlags_Inr:
  assumes "ParseFlags fs args True = Some (Inr fs')"
  shows "Parse_loop (fs\<lparr>fs_formal := fs_formal fs @ [\<lparr>flag_names = [''help'', ''-help''],
                                                      flag_default = BoolValue False\<rparr>],
                        fs_vals := fs_vals fs @ [BoolValue False], fs_args := args\<rparr>) = Some (Inr fs')
         \<and> fs_vals fs' ! length (fs_vals fs) \<noteq> BoolValue True
         \<and> CheckArgs (length (fs_args fs')) (fs_nargs fs') = None"
  using assms by (auto simp: ParseFlags_def Let_def split: option.splits sum.splits if_splits)

lemma Parse_loop_bool_opt:
  assumes "lookup_flag F name = Some i" "i < length V" "V ! i = BoolValue False"
    "name \<noteq> []" "name \<noteq> ''-''" "CHR ''='' \<notin> set name"
  shows "Parse_loop \<lparr>fs_formal = F, fs_vals = V, fs_args = (if b then [CHR ''-'' # name] else []) @ rest,
                     fs_nargs = N\<rparr>
       = Parse_loop \<lparr>fs_formal = F, fs_vals = V[i := BoolValue b], fs_args = rest, fs_nargs = N\<rparr>"
proof (cases b)
  case True
  from assms(4,6) have s1: "(CHR ''-'' # name) ! 1 \<noteq> CHR ''=''" by (cases name) auto
  from assms(6) have tw: "takeWhile (\<lambda>c. c \<noteq> CHR ''='') name = name"
    by (auto simp: takeWhile_eq_all_conv)
  from assms(4,5) have dd: "CHR ''-'' # name \<noteq> ''--''" by auto
  from assms(4) have "\<not> length (CHR ''-'' # name) < 2" by (cases name) auto
  with assms(1,3,6) s1 tw dd
  have "parseOne \<lparr>fs_formal = F, fs_vals = V, fs_args = (CHR ''-'' # name) # rest, fs_nargs = N\<rparr>
          = Seen \<lparr>fs_formal = F, fs_vals = V[i := BoolValue True], fs_args = rest, fs_nargs = N\<rparr>"
    unfolding parseOne_def by (simp add: Let_def tw del: takeWhile_eq_all_conv)
  with True show ?thesis by (simp add: Parse_loop_Seen)
next
  case False
  from assms(3) have "V[i := BoolValue False] = V" using list_update_id [of V i] by simp
  with False show ?thesis by simp
qed

lemma Parse_loop_filters:
  assumes "lookup_flag F ''f'' = Some i" "i < length V" "V ! i = ListValue l"
  shows "Parse_loop \<lparr>fs_formal = F, fs_vals = V, fs_args = concat (map (\<lambda>v. [''-f'', v]) vs) @ rest,
                     fs_nargs = N\<rparr>
       = Parse_loop \<lparr>fs_formal = F, fs_vals = V[i := ListValue (l @ vs)], fs_args = rest, fs_nargs = N\<rparr>"
  using assms
proof (induction vs arbitrary: V l)
  case Nil
  then show ?case using list_update_id [of V i] by simp
next
  case (Cons v vs)
  let ?V = "V[i := ListValue (l @ [v])]"
  have "Parse_loop \<lparr>fs_formal = F, fs_vals = V, fs_args = concat (map (\<lambda>v. [''-f'', v]) (v # vs)) @ rest,
                     fs_nargs = N\<rparr>
      = Parse_loop \<lparr>fs_formal = F, fs_vals = ?V, fs_args = concat (map (\<lambda>v. [''-f'', v]) vs) @ rest,
                     fs_nargs = N\<rparr>"
    using Cons.prems by (intro Parse_loop_Seen) (simp add: parseOne_def)
  also have "\<dots> = Parse_loop \<lparr>fs_formal = F, fs_vals = ?V[i := ListValue ((l @ [v]) @ vs)], fs_args = rest,
                     fs_nargs = N\<rparr>"
    using Cons.prems by (intro Cons.IH) simp_all
  finally show ?case by (simp only: list_update_overwrite append_assoc append_Cons append_Nil)
qed

subsection \<open>Properties of the flag layer of \<^verbatim>\<open>docker images\<close>\<close>

text \<open>Every successful parse of the command line of \<^verbatim>\<open>docker images\<close> leaves a
  value of the declared kind in each flag: four booleans, the filter list, and the
  help flag unset; so the dereferences of lines 53--120 read what was parsed.\<close>

lemma images_flags_typed:
  assumes "ParseFlags images_flagset args True = Some (Inr fs)"
  shows "\<exists>q a n d f. fs_vals fs = [BoolValue q, BoolValue a, BoolValue n, BoolValue d,
                                   ListValue f, BoolValue False]"
proof -
  note pf = ParseFlags_Inr [OF assms]
  let ?fs0 = "images_flagset\<lparr>fs_formal := fs_formal images_flagset @ [\<lparr>flag_names = [''help'', ''-help''],
                                                      flag_default = BoolValue False\<rparr>],
                        fs_vals := fs_vals images_flagset @ [BoolValue False], fs_args := args\<rparr>"
  have "fs_wt ?fs0" by (simp add: fs_wt_def images_flag_defs)
  with pf Parse_loop_wt have "fs_wt fs \<and> fs_same ?fs0 fs" by blast
  then have "list_all2 (\<lambda>d v. same_kind (flag_default d) v) (fs_formal ?fs0) (fs_vals fs)"
    by (auto simp: fs_wt_def fs_same_def)
  then obtain q a n d f h where
    "fs_vals fs = [BoolValue q, BoolValue a, BoolValue n, BoolValue d, ListValue f, BoolValue h]"
    by (auto simp: images_flag_defs list_all2_Cons1 same_kind_BoolValue same_kind_ListValue)
  moreover from pf have "fs_vals fs ! 5 \<noteq> BoolValue True" by (simp add: images_flag_defs eval_nat_numeral)
  ultimately show ?thesis by auto
qed

text \<open>C30: parsing the command line printed for a set of flags and at most one
  repository argument gives back those flags and that argument.\<close>

theorem images_argv_roundtrip:
  assumes "length pos \<le> 1"
  shows "images_cmd_flags (images_argv fl pos) = Some (Inr (fl, pos))"
proof -
  obtain q a n d f where fl: "fl = \<lparr>quiet = q, all = a, noTrunc = n, showDigests = d, flFilter = f\<rparr>"
    by (cases fl)
  let ?F = "fs_formal images_flagset @ [\<lparr>flag_names = [''help'', ''-help''], flag_default = BoolValue False\<rparr>]"
  let ?Vinit = "[BoolValue False, BoolValue False, BoolValue False, BoolValue False, ListValue [], BoolValue False]"
  let ?V = "[BoolValue q, BoolValue a, BoolValue n, BoolValue d, ListValue f, BoolValue False]"
  let ?N = "[NArgMax 1]"
  have "Parse_loop \<lparr>fs_formal = ?F, fs_vals = ?Vinit, fs_args = images_argv fl pos, fs_nargs = ?N\<rparr>
      = Parse_loop \<lparr>fs_formal = ?F, fs_vals = ?V, fs_args = ''--'' # pos, fs_nargs = ?N\<rparr>"
    by (simp add: images_argv_def fl images_flag_defs Parse_loop_bool_opt Parse_loop_filters
             split del: if_split)
  also have "\<dots> = Some (Inr \<lparr>fs_formal = ?F, fs_vals = ?V, fs_args = pos, fs_nargs = ?N\<rparr>)"
    by (simp add: Parse_loop_Stop parseOne_def)
  finally show ?thesis
    using assms by (simp add: images_cmd_flags_def ParseFlags_def images_flag_defs flags_of_def fl)
qed

theorem images_argv_roundtrip_witness:
  "images_cmd_flags [''-q'', ''--digests'', ''-f'', ''dangling=true'', ''-f'', ''label=a'', ''--'', ''ubuntu''] =
     Some (Inr (\<lparr>quiet = True, all = False, noTrunc = False, showDigests = True,
                  flFilter = [''dangling=true'', ''label=a'']\<rparr>, [''ubuntu'']))"
proof -
  let ?fl = "\<lparr>quiet = True, all = False, noTrunc = False, showDigests = True,
              flFilter = [''dangling=true'', ''label=a'']\<rparr>"
  have "images_argv ?fl [''ubuntu''] =
          [''-q'', ''--digests'', ''-f'', ''dangling=true'', ''-f'', ''label=a'', ''--'', ''ubuntu'']"
    by (simp add: images_argv_def)
  with images_argv_roundtrip [of "[''ubuntu'']" ?fl] show ?thesis by simp
qed

text \<open>C31: the first argument that is not a flag ends flag parsing: flags written after the
  repository are positional arguments, and with one of them the count check of
  \<^verbatim>\<open>cmd.Require(flag.Max, 1)\<close> ends the command.\<close>

theorem images_cmd_flags_positional_stops:
  assumes "\<not> HasPrefix arg ''-''" and "rest \<noteq> []"
  shows "images_cmd_flags (arg # rest) = Some (Inl (WrongArgCount (NArgMax 1) (Suc (length rest))))"
proof -
  from assms(1) have "length arg < 2 \<or> hd arg \<noteq> CHR ''-''"
    by (cases arg) (auto simp: HasPrefix_def)
  then have "parseOne \<lparr>fs_formal = fs_formal images_flagset @ [\<lparr>flag_names = [''help'', ''-help''],
                          flag_default = BoolValue False\<rparr>],
               fs_vals = fs_vals images_flagset @ [BoolValue False], fs_args = arg # rest,
               fs_nargs = [NArgMax 1]\<rparr> = Stop \<lparr>fs_formal = fs_formal images_flagset @ [\<lparr>flag_names = [''help'', ''-help''],
                          flag_default = BoolValue False\<rparr>],
               fs_vals = fs_vals images_flagset @ [BoolValue False], fs_args = arg # rest,
               fs_nargs = [NArgMax 1]\<rparr>"
    by (auto simp: parseOne_def)
  with assms(2) show ?thesis
    by (simp add: images_cmd_flags_def ParseFlags_def Parse_loop_Stop images_flag_defs)
qed


theorem images_cmd_flags_positional_stops_witness:
  "images_cmd_flags [''ubuntu'', ''-q''] = Some (Inl (WrongArgCount (NArgMax 1) 2))"
  using images_cmd_flags_positional_stops [of "''ubuntu''" "[''-q'']"] by (simp add: HasPrefix_def)

end
