(* ===== verification/Command.thy ===== *)
theory Command
  imports Flags Images
begin

text \<open>
  The whole of \<^verbatim>\<open>CmdImages(args ...string)\<close>: the flag layer of lines 23--33
  (\<open>Flags.images_cmd_flags\<close>) followed by the listing of lines 35--123
  (\<open>Images.CmdImages\<close>). A flag error, a help request or a wrong argument count
  ends the process inside \<^verbatim>\<open>cmd.ParseFlags\<close> (\<open>Exited\<close>); otherwise the command
  returns its error value together with the state it reached (\<open>Returned\<close>).
\<close>

datatype cmd_outcome = Exited flag_error | Returned "go_error option \<times> cli_state"

definition CmdImages_main :: "'a cli_env \<Rightarrow> string list \<Rightarrow> cmd_outcome option" where
  "CmdImages_main env args =
     (case images_cmd_flags args of
        None \<Rightarrow> None
      | Some (Inl e) \<Rightarrow> Some (Exited e)
      | Some (Inr (fl, pos)) \<Rightarrow> Some (Returned (CmdImages env fl pos)))"

lemma images_cmd_flags_Some: "\<exists>r. images_cmd_flags args = Some r"
proof -
  let ?fs = "images_flagset\<lparr>fs_formal := fs_formal images_flagset @ [\<lparr>flag_names = [''help'', ''-help''],
                                                      flag_default = BoolValue False\<rparr>],
               fs_vals := fs_vals images_flagset @ [BoolValue False], fs_args := args\<rparr>"
  from Parse_loop_Some obtain r where "Parse_loop ?fs = Some r" by blast
  then show ?thesis
    by (auto simp: images_cmd_flags_def ParseFlags_def Let_def split: sum.splits option.splits)
qed

lemma images_cmd_flags_nargs:
  assumes "images_cmd_flags args = Some (Inr (fl, pos))"
  shows "length pos \<le> 1"
proof -
  from assms obtain fs where pf: "ParseFlags images_flagset args True = Some (Inr fs)"
    and pos: "pos = fs_args fs"
    by (auto simp: images_cmd_flags_def split: option.splits sum.splits)
  let ?fs0 = "images_flagset\<lparr>fs_formal := fs_formal images_flagset @ [\<lparr>flag_names = [''help'', ''-help''],
                                                      flag_default = BoolValue False\<rparr>],
                        fs_vals := fs_vals images_flagset @ [BoolValue False], fs_args := args\<rparr>"
  note p = ParseFlags_Inr [OF pf]
  have "fs_wt ?fs0" by (simp add: fs_wt_def images_flag_defs)
  with p Parse_loop_wt have "fs_same ?fs0 fs" by blast
  then have "fs_nargs fs = [NArgMax 1]" by (simp add: fs_same_def images_flag_defs)
  with p pos show ?thesis by (simp split: if_splits)
qed

subsection \<open>Properties of the whole command\<close>

text \<open>\<^verbatim>\<open>CmdImages\<close> always ends: the flag loop of \<^verbatim>\<open>mflag\<close> terminates on every
  command line, and either the process exits there or the listing runs and returns.\<close>

lemma CmdImages_main_terminates: "\<exists>r. CmdImages_main env args = Some r"
  using images_cmd_flags_Some [of args]
  by (auto simp: CmdImages_main_def split: option.splits sum.splits)

text \<open>C32: when the command gets past its flags, it has at most one positional argument
  (\<^verbatim>\<open>cmd.Require(flag.Max, 1)\<close>), so the name pattern sent to the daemon is that
  argument, or empty when there is none; the listing then runs on the parsed flags.\<close>

theorem CmdImages_main_match_name:
  assumes "images_cmd_flags args = Some (Inr (fl, pos))"
  shows "length pos \<le> 1 \<and> match_name pos = concat pos \<and>
         CmdImages_main env args = Some (Returned (CmdImages env fl pos))"
proof -
  from images_cmd_flags_nargs [OF assms] have "length pos \<le> 1" .
  moreover from this have "match_name pos = concat pos"
    by (cases pos) (auto simp: match_name_def)
  ultimately show ?thesis using assms by (simp add: CmdImages_main_def)
qed

end
