(* ===== verification/Filters.thy ===== *)
theory Filters
  imports Prelude Images
begin

text \<open>
  The filters package that \<^verbatim>\<open>CmdImages\<close> calls on lines 37--44 of
  \<^verbatim>\<open>src/api/client/images.go\<close> (\<^verbatim>\<open>filters.NewArgs\<close>, \<^verbatim>\<open>filters.ParseFlag\<close>,
  \<^verbatim>\<open>Args.Add\<close> of \<^verbatim>\<open>api/types/filters\<close>), with the two string functions
  it uses (\<^verbatim>\<open>strings.TrimSpace\<close>, \<^verbatim>\<open>strings.ToLower\<close>). An abstract
  specification \<open>filters_of\<close> describes the consolidated filters as a function
  of the set of \<^verbatim>\<open>--filter\<close> values; the lemmas show that the consolidation
  loop implements it.
\<close>

subsection \<open>Strings\<close>

text \<open>
  \<^verbatim>\<open>strings.TrimSpace\<close>: drop leading and trailing white space. The bytes
  trimmed are the ASCII white space of \<^verbatim>\<open>unicode.IsSpace\<close> (tab, newline,
  vertical tab, form feed, carriage return, space); the two multi-byte spaces
  U+0085 and U+00A0 are not modelled.
\<close>

definition TrimSpace :: "string \<Rightarrow> string" where
  "TrimSpace s =
     (let isSpace = (\<lambda>c. c \<in> set [CHR 0x09, CHR 0x0A, CHR 0x0B, CHR 0x0C, CHR 0x0D, CHR 0x20])
      in rev (dropWhile isSpace (rev (dropWhile isSpace s))))"

text \<open>
  \<^verbatim>\<open>strings.ToLower\<close> on its ASCII path: \<^verbatim>\<open>A\<close>..\<^verbatim>\<open>Z\<close> become
  \<^verbatim>\<open>a\<close>..\<^verbatim>\<open>z\<close>, every other byte is kept (upper-case letters outside
  ASCII are not modelled).
\<close>

definition ToLower :: "string \<Rightarrow> string" where
  "ToLower s = map (\<lambda>c. let n = (of_char c :: nat) in if 65 \<le> n \<and> n \<le> 90 then char_of (n + 32) else c) s"

subsection \<open>Filter arguments\<close>

text \<open>
  \<^verbatim>\<open>filters.Args\<close> holds \<^verbatim>\<open>fields map[string]map[string]bool\<close>, a map from a
  filter name to the set of its values (every inner entry is \<^verbatim>\<open>true\<close>).
\<close>

type_synonym filter_args = "string \<rightharpoonup> string set"

definition filters_NewArgs :: filter_args where
  "filters_NewArgs = Map.empty"

text \<open>\<^verbatim>\<open>Args.Add(name, value)\<close>: add the value to the name's set, creating it if the name is new.\<close>

definition Args_Add :: "string \<Rightarrow> string \<Rightarrow> filter_args \<Rightarrow> filter_args" where
  "Args_Add name value filters =
     (case filters name of
        Some vs \<Rightarrow> filters(name \<mapsto> insert value vs)
      | None \<Rightarrow> filters(name \<mapsto> {value}))"

definition ErrBadFormat :: go_error where
  "ErrBadFormat = GoError ''bad format of filter (expected name=value)''"

text \<open>
  \<^verbatim>\<open>filters.ParseFlag(arg, prev)\<close>: an empty argument leaves the filters
  unchanged; an argument without \<^verbatim>\<open>=\<close> is \<^verbatim>\<open>ErrBadFormat\<close>; otherwise
  \<^verbatim>\<open>strings.SplitN(arg, "=", 2)\<close> splits at the first \<^verbatim>\<open>=\<close>, the name is
  trimmed and lower-cased, the value trimmed, and \<^verbatim>\<open>Add\<close> records the pair.
  \<^verbatim>\<open>Add\<close> mutates the map that \<open>prev\<close> shares; the caller on line 40
  overwrites \<open>prev\<close> with the result, so the value semantics here agree.
\<close>

definition filters_ParseFlag :: "string \<Rightarrow> filter_args \<Rightarrow> filter_args go_result" where
  "filters_ParseFlag arg prev =
     (if arg = [] then Inr prev
      else if CHR ''='' \<notin> set arg then Inl ErrBadFormat
      else
        let name = ToLower (TrimSpace (takeWhile (\<lambda>c. c \<noteq> CHR ''='') arg));
            value = TrimSpace (tl (dropWhile (\<lambda>c. c \<noteq> CHR ''='') arg))
        in Inr (Args_Add name value prev))"

subsection \<open>Abstract specification\<close>

text \<open>
  A \<^verbatim>\<open>--filter\<close> value is bad when it is non-empty and has no \<^verbatim>\<open>=\<close>.
  For a good non-empty value, its key is the lower-cased trimmed text before
  the first \<^verbatim>\<open>=\<close> and its value the trimmed text after it. The filters a
  set of values denotes map each key to the set of values given for it.
\<close>

definition bad_filter :: "string \<Rightarrow> bool" where
  "bad_filter arg \<longleftrightarrow> arg \<noteq> [] \<and> CHR ''='' \<notin> set arg"

definition filter_key :: "string \<Rightarrow> string" where
  "filter_key arg = ToLower (TrimSpace (takeWhile (\<lambda>c. c \<noteq> CHR ''='') arg))"

definition filter_val :: "string \<Rightarrow> string" where
  "filter_val arg = TrimSpace (tl (dropWhile (\<lambda>c. c \<noteq> CHR ''='') arg))"

definition filters_of :: "string set \<Rightarrow> filter_args" where
  "filters_of S name =
     (let vals = filter_val ` {arg \<in> S. arg \<noteq> [] \<and> filter_key arg = name}
      in if vals = {} then None else Some vals)"

text \<open>Merging two filter arguments name by name.\<close>

definition args_union :: "filter_args \<Rightarrow> filter_args \<Rightarrow> filter_args" where
  "args_union a b name =
     (case a name of
        None \<Rightarrow> b name
      | Some x \<Rightarrow> Some (x \<union> (case b name of None \<Rightarrow> {} | Some y \<Rightarrow> y)))"

subsection \<open>Lemmas\<close>

lemma filters_ParseFlag_Nil [simp]: "filters_ParseFlag [] a = Inr a"
  by (simp add: filters_ParseFlag_def)

lemma filters_ParseFlag_bad: "bad_filter arg \<Longrightarrow> filters_ParseFlag arg a = Inl ErrBadFormat"
  by (simp add: filters_ParseFlag_def bad_filter_def)

lemma filters_ParseFlag_good:
  "arg \<noteq> [] \<Longrightarrow> \<not> bad_filter arg \<Longrightarrow>
   filters_ParseFlag arg a = Inr (Args_Add (filter_key arg) (filter_val arg) a)"
  by (simp add: filters_ParseFlag_def bad_filter_def filter_key_def filter_val_def Let_def)

lemma args_union_Add:
  "args_union (Args_Add n v a) b = args_union a (Args_Add n v b)"
  by (rule ext) (simp add: args_union_def Args_Add_def split: option.split)

lemma args_union_empty [simp]: "args_union a Map.empty = a"
  by (rule ext) (simp add: args_union_def split: option.splits)

lemma args_union_empty_left [simp]: "args_union Map.empty b = b"
  by (rule ext) (simp add: args_union_def)

lemma filters_of_empty [simp]: "filters_of {} = Map.empty"
  by (rule ext) (simp add: filters_of_def)

lemma filters_of_insert_Nil [simp]: "filters_of (insert [] S) = filters_of S"
proof -
  have "\<And>name. {a \<in> insert [] S. a \<noteq> [] \<and> filter_key a = name} = {a \<in> S. a \<noteq> [] \<and> filter_key a = name}"
    by auto
  then show ?thesis by (simp add: filters_of_def fun_eq_iff)
qed

lemma filters_of_insert:
  "arg \<noteq> [] \<Longrightarrow> filters_of (insert arg S) = Args_Add (filter_key arg) (filter_val arg) (filters_of S)"
proof (rule ext)
  fix name
  assume ne: "arg \<noteq> []"
  show "filters_of (insert arg S) name = Args_Add (filter_key arg) (filter_val arg) (filters_of S) name"
  proof (cases "name = filter_key arg")
    case key: True
    let ?A = "{a \<in> S. a \<noteq> [] \<and> filter_key a = name}"
    have ins: "{a \<in> insert arg S. a \<noteq> [] \<and> filter_key a = name} = insert arg ?A"
      using key ne by auto
    show ?thesis
    proof (cases "?A = {}")
      case True
      then have "filters_of S name = None" "filters_of (insert arg S) name = Some {filter_val arg}"
        using ins by (simp_all only: filters_of_def Let_def image_empty image_insert) simp_all
      then show ?thesis using key by (simp add: Args_Add_def)
    next
      case False
      then have "filters_of S name = Some (filter_val ` ?A)"
          "filters_of (insert arg S) name = Some (insert (filter_val arg) (filter_val ` ?A))"
        using ins by (simp_all only: filters_of_def Let_def image_insert) simp_all
      then show ?thesis using key by (simp add: Args_Add_def)
    qed
  next
    case False
    have "{a \<in> insert arg S. a \<noteq> [] \<and> filter_key a = name} = {a \<in> S. a \<noteq> [] \<and> filter_key a = name}"
      using False by auto
    then show ?thesis
      using False by (simp add: filters_of_def Args_Add_def split: option.splits)
  qed
qed

lemma parse_filters_filters_of:
  "parse_filters filters_ParseFlag vs a =
     (if \<exists>arg\<in>set vs. bad_filter arg then Inl ErrBadFormat
      else Inr (args_union a (filters_of (set vs))))"
proof (induction vs arbitrary: a)
  case Nil
  then show ?case by simp
next
  case (Cons arg vs)
  show ?case
  proof (cases "arg = []")
    case True
    then show ?thesis using Cons.IH by (simp add: bad_filter_def)
  next
    case ne: False
    show ?thesis
    proof (cases "bad_filter arg")
      case True
      then show ?thesis by (simp add: filters_ParseFlag_bad)
    next
      case False
      then show ?thesis
        using ne Cons.IH by (simp add: filters_ParseFlag_good filters_of_insert args_union_Add)
    qed
  qed
qed

text \<open>
  C13: The consolidation loop of lines 37--44 with the filters package implements
  the abstract specification: it fails with \<^verbatim>\<open>ErrBadFormat\<close> exactly when a
  value is non-empty without \<^verbatim>\<open>=\<close>, and otherwise yields the filters the set
  of values denotes.
\<close>

theorem parse_filters_refines_filters_of:
  "parse_filters filters_ParseFlag vs filters_NewArgs =
     (if \<exists>arg\<in>set vs. bad_filter arg then Inl ErrBadFormat else Inr (filters_of (set vs)))"
  by (simp add: parse_filters_filters_of filters_NewArgs_def)

theorem parse_filters_refines_filters_of_witness:
  "parse_filters filters_ParseFlag [''dangling=true'', [], '' Label = a=b ''] filters_NewArgs =
     Inr (filters_of {''dangling=true'', [], '' Label = a=b ''}) \<and>
   parse_filters filters_ParseFlag [''dangling=true'', ''label''] filters_NewArgs = Inl ErrBadFormat"
  using parse_filters_refines_filters_of [of "[''dangling=true'', [], '' Label = a=b '']"]
    parse_filters_refines_filters_of [of "[''dangling=true'', ''label'']"]
  by (simp add: bad_filter_def)

end
