(* ===== verification/ReferenceParse.thy ===== *)
theory ReferenceParse
  imports Prelude Reference
begin

text \<open>
  The parser of \<^verbatim>\<open>github.com/docker/distribution/reference\<close> that
  \<^verbatim>\<open>images.go\<close> calls on line 94 (\<^verbatim>\<open>reference.ParseNamed\<close>), with the
  validation of \<^verbatim>\<open>digest.ParseDigest\<close>. The package is not under \<^verbatim>\<open>src/\<close>;
  it is modelled after its \<^verbatim>\<open>regexp.go\<close> and \<^verbatim>\<open>reference.go\<close>. Each regular
  expression becomes a bool-valued predicate on strings; the anchored
  \<^verbatim>\<open>ReferenceRegexp\<close>'s \<^verbatim>\<open>FindStringSubmatch\<close> becomes a function returning
  the three captures. The lemmas show that the captures are the unique
  decomposition the regular expression admits, and that parsing and printing
  a reference are inverse.
\<close>

subsection \<open>Splitting at a separator\<close>

text \<open>The pieces of a string between occurrences of a separator (at least one piece).\<close>

fun split_on :: "char \<Rightarrow> string \<Rightarrow> string list" where
  "split_on c [] = [[]]"
| "split_on c (x # xs) =
     (let r = split_on c xs in if x = c then [] # r else (x # hd r) # tl r)"

subsection \<open>The regular expressions of \<^verbatim>\<open>regexp.go\<close>\<close>

text \<open>
  \<^verbatim>\<open>NameRegexp\<close> = \<^verbatim>\<open>(hostname/)?component(/component)*\<close>, where a component is
  \<^verbatim>\<open>[a-z0-9]+(?:(?:[._]|__|[-]*)[a-z0-9]+)*\<close> and a hostname is
  \<^verbatim>\<open>hc(\.hc)*(:[0-9]+)?\<close> with \<^verbatim>\<open>hc\<close> =
  \<^verbatim>\<open>[a-zA-Z0-9]|[a-zA-Z0-9][a-zA-Z0-9-]*[a-zA-Z0-9]\<close> (the abbreviations
  \<open>name_component\<close>, \<open>hostname_component\<close> and \<open>hostname\<close>). A component is
  read through its language: it starts and ends with a lower-case letter or
  digit, and between them each run of separators is \<^verbatim>\<open>.\<close>, \<^verbatim>\<open>_\<close>,
  \<^verbatim>\<open>__\<close> or dashes, i.e. two adjacent separators are \<^verbatim>\<open>__\<close> or
  \<^verbatim>\<open>--\<close> and no three are \<^verbatim>\<open>___\<close>.
\<close>

abbreviation name_component :: "string \<Rightarrow> bool" where
  "name_component x \<equiv>
     x \<noteq> [] \<and> hd x \<in> set ''abcdefghijklmnopqrstuvwxyz0123456789'' \<and> last x \<in> set ''abcdefghijklmnopqrstuvwxyz0123456789'' \<and>
     list_all (\<lambda>c. c \<in> set ''abcdefghijklmnopqrstuvwxyz0123456789'' \<or> c \<in> set ''._-'') x \<and>
     list_all (\<lambda>(a, b). a \<in> set ''._-'' \<and> b \<in> set ''._-'' \<longrightarrow> a = b \<and> a \<noteq> CHR ''.'')
       (zip x (tl x)) \<and>
     list_all (\<lambda>(a, b, c). \<not> (a = CHR ''_'' \<and> b = CHR ''_'' \<and> c = CHR ''_''))
       (zip x (zip (tl x) (tl (tl x))))"

abbreviation hostname_component :: "string \<Rightarrow> bool" where
  "hostname_component x \<equiv>
     x \<noteq> [] \<and> hd x \<in> set ''abcdefghijklmnopqrstuvwxyzABCDEFGHIJKLMNOPQRSTUVWXYZ0123456789'' \<and> last x \<in> set ''abcdefghijklmnopqrstuvwxyzABCDEFGHIJKLMNOPQRSTUVWXYZ0123456789'' \<and> list_all (\<lambda>c. c \<in> set ''abcdefghijklmnopqrstuvwxyzABCDEFGHIJKLMNOPQRSTUVWXYZ0123456789'' \<or> c = CHR ''-'') x"

abbreviation hostname :: "string \<Rightarrow> bool" where
  "hostname x \<equiv>
     list_all hostname_component (split_on CHR ''.'' (takeWhile (\<lambda>c. c \<noteq> CHR '':'') x)) \<and>
     (dropWhile (\<lambda>c. c \<noteq> CHR '':'') x = [] \<or>
      (tl (dropWhile (\<lambda>c. c \<noteq> CHR '':'') x) \<noteq> [] \<and>
       list_all (\<lambda>c. c \<in> set ''0123456789'') (tl (dropWhile (\<lambda>c. c \<noteq> CHR '':'') x))))"

definition NameRegexp_ok :: "string \<Rightarrow> bool" where
  "NameRegexp_ok s =
     (let segs = split_on CHR ''/'' s
      in list_all name_component segs \<or>
         (2 \<le> length segs \<and> hostname (hd segs) \<and> list_all name_component (tl segs)))"

text \<open>\<^verbatim>\<open>TagRegexp\<close> = \<^verbatim>\<open>[\w][\w.-]{0,127}\<close>.\<close>

definition TagRegexp_ok :: "string \<Rightarrow> bool" where
  "TagRegexp_ok t =
     (let word = (\<lambda>c. c \<in> set ''abcdefghijklmnopqrstuvwxyzABCDEFGHIJKLMNOPQRSTUVWXYZ0123456789_'')
      in t \<noteq> [] \<and> length t \<le> 128 \<and> word (hd t) \<and>
         list_all (\<lambda>c. word c \<or> c = CHR ''.'' \<or> c = CHR ''-'') t)"

text \<open>
  \<^verbatim>\<open>DigestRegexp\<close> =
  \<^verbatim>\<open>[A-Za-z][A-Za-z0-9]*(?:[-_+.][A-Za-z][A-Za-z0-9]*)*[:][[:xdigit:]]{32,}\<close>:
  an algorithm that starts with a letter, in which every separator is followed by
  a letter, then a colon and at least 32 hexadecimal digits.
\<close>

definition DigestRegexp_ok :: "string \<Rightarrow> bool" where
  "DigestRegexp_ok d =
     (let letter = (\<lambda>c. c \<in> set ''abcdefghijklmnopqrstuvwxyzABCDEFGHIJKLMNOPQRSTUVWXYZ'');
          digit = (\<lambda>c. c \<in> set ''0123456789'');
          sep = (\<lambda>c. c \<in> set ''-_+.'');
          xdigit = (\<lambda>c. c \<in> set ''0123456789abcdefABCDEF'');
          alg = takeWhile (\<lambda>c. c \<noteq> CHR '':'') d;
          hex = drop (Suc (length alg)) d
      in alg \<noteq> [] \<and> letter (hd alg) \<and> \<not> sep (last alg) \<and>
         list_all (\<lambda>c. letter c \<or> digit c \<or> sep c) alg \<and>
         list_all (\<lambda>(a, b). sep a \<longrightarrow> letter b) (zip alg (tl alg)) \<and>
         length alg < length d \<and> 32 \<le> length hex \<and> list_all xdigit hex)"

text \<open>
  \<^verbatim>\<open>ReferenceRegexp.FindStringSubmatch(s)\<close> for the anchored
  \<^verbatim>\<open>^(NameRegexp)(?::(TagRegexp))?(?:@(DigestRegexp))?$\<close>: \<open>None\<close> when the
  string does not match, else the three captures, \<open>[]\<close> for a group that did not
  take part. No name, tag or digest contains \<^verbatim>\<open>@\<close>, and no tag contains
  \<^verbatim>\<open>:\<close> or \<^verbatim>\<open>/\<close>, so the digest follows the first \<^verbatim>\<open>@\<close> and the tag
  follows a last colon with no slash after it (\<open>split_at_last_colon\<close>).
\<close>

definition ReferenceRegexp_submatch :: "string \<Rightarrow> (string \<times> string \<times> string) option" where
  "ReferenceRegexp_submatch s =
     (let nt = takeWhile (\<lambda>c. c \<noteq> CHR ''@'') s;
          rest = dropWhile (\<lambda>c. c \<noteq> CHR ''@'') s
      in case split_at_last_colon nt of
           (name, tag) \<Rightarrow>
             if NameRegexp_ok name \<and> (case tag of None \<Rightarrow> True | Some t \<Rightarrow> TagRegexp_ok t) \<and>
                (rest = [] \<or> DigestRegexp_ok (tl rest))
             then Some (name, case tag of None \<Rightarrow> [] | Some t \<Rightarrow> t, if rest = [] then [] else tl rest)
             else None)"

subsection \<open>Digests\<close>

text \<open>
  \<^verbatim>\<open>digest.ParseDigest\<close>, i.e. \<^verbatim>\<open>Digest.Validate\<close>: the anchored
  \<^verbatim>\<open>[a-zA-Z0-9-_+.]+:[a-fA-F0-9]+\<close>, the position of the first colon, and the
  algorithm: \<^verbatim>\<open>sha256\<close>, \<^verbatim>\<open>sha384\<close> and \<^verbatim>\<open>sha512\<close> need twice their size
  (32, 48, 64 bytes) in hexadecimal digits, other algorithms are unsupported.
  \<open>None\<close> is a valid digest.
\<close>

definition ParseDigest :: "string \<Rightarrow> go_error option" where
  "ParseDigest s =
     (let i = length (takeWhile (\<lambda>c. c \<noteq> CHR '':'') s);
          alg = take i s;
          hex = drop (Suc i) s;
          ErrDigestInvalidFormat = GoError ''invalid checksum digest format'';
          ErrDigestInvalidLength = GoError ''invalid checksum digest length'';
          ErrDigestUnsupported = GoError ''unsupported digest algorithm''
      in if \<not> (alg \<noteq> [] \<and> list_all (\<lambda>c. c \<in> set ''abcdefghijklmnopqrstuvwxyzABCDEFGHIJKLMNOPQRSTUVWXYZ0123456789-_+.'') alg \<and>
                i < length s \<and> hex \<noteq> [] \<and> list_all (\<lambda>c. c \<in> set ''0123456789abcdefABCDEF'') hex)
         then Some ErrDigestInvalidFormat
         else if i = length s then Some ErrDigestInvalidFormat
         else if Suc i = length s then Some ErrDigestInvalidFormat
         else if alg = ''sha256'' then (if length hex = 64 then None else Some ErrDigestInvalidLength)
         else if alg = ''sha384'' then (if length hex = 96 then None else Some ErrDigestInvalidLength)
         else if alg = ''sha512'' then (if length hex = 128 then None else Some ErrDigestInvalidLength)
         else Some ErrDigestUnsupported)"

subsection \<open>Parsing\<close>

text \<open>
  \<^verbatim>\<open>reference.ParseNamed\<close>: \<^verbatim>\<open>Parse\<close>, then the check that the result is
  \<^verbatim>\<open>Named\<close>. \<^verbatim>\<open>Parse\<close>: no match is \<^verbatim>\<open>ErrNameEmpty\<close> for the empty string and
  \<^verbatim>\<open>ErrReferenceInvalidFormat\<close> otherwise; a name longer than
  \<^verbatim>\<open>NameTotalLengthMax\<close> (255) is \<^verbatim>\<open>ErrNameTooLong\<close>; a digest is validated by
  \<^verbatim>\<open>ParseDigest\<close>; \<^verbatim>\<open>getBestReferenceType\<close> then picks the type from the
  captures that are present. The captured name is never empty, so the
  nil result of \<^verbatim>\<open>getBestReferenceType\<close> and the unnamed result that
  \<^verbatim>\<open>ParseNamed\<close> rejects do not arise; they are not modelled.
\<close>

definition reference_ParseNamed :: ref_parser where
  "reference_ParseNamed s =
     (case ReferenceRegexp_submatch s of
        None \<Rightarrow>
          if s = [] then Inl (GoError ''repository name must have at least one component'')
          else Inl (GoError ''invalid reference format'')
      | Some (name, tag, digest) \<Rightarrow>
          if 255 < length name
          then Inl (GoError ''repository name must not be more than 255 characters'')
          else case (if digest = [] then None else ParseDigest digest) of
            Some err \<Rightarrow> Inl err
          | None \<Rightarrow>
              Inr (if tag = [] then (if digest = [] then Repository name else CanonicalReference name digest)
                   else if digest = [] then TaggedReference name tag
                   else FullReference name tag digest))"

text \<open>The string form of a reference, its \<^verbatim>\<open>String()\<close> method for each of the four types.\<close>

primrec ref_String :: "reference \<Rightarrow> string" where
  "ref_String (Repository n) = n"
| "ref_String (TaggedReference n t) = n @ CHR '':'' # t"
| "ref_String (CanonicalReference n d) = n @ CHR ''@'' # d"
| "ref_String (FullReference n t d) = n @ CHR '':'' # t @ CHR ''@'' # d"

subsection \<open>The language of the anchored regular expression and valid references\<close>

text \<open>
  The strings \<^verbatim>\<open>ReferenceRegexp\<close> matches with given captures: the name, then
  \<^verbatim>\<open>:\<close> and the tag if there is one, then \<^verbatim>\<open>@\<close> and the digest if there is one.
\<close>

definition ReferenceRegexp_matches :: "string \<Rightarrow> string \<Rightarrow> string \<Rightarrow> string \<Rightarrow> bool" where
  "ReferenceRegexp_matches s name tag digest \<longleftrightarrow>
     s = name @ (if tag = [] then [] else CHR '':'' # tag) @ (if digest = [] then [] else CHR ''@'' # digest) \<and>
     NameRegexp_ok name \<and> (tag = [] \<or> TagRegexp_ok tag) \<and> (digest = [] \<or> DigestRegexp_ok digest)"

text \<open>A reference that \<^verbatim>\<open>ParseNamed\<close> can return: its parts match their expressions, the name is within the length limit and the digest is valid.\<close>

definition ref_valid :: "reference \<Rightarrow> bool" where
  "ref_valid r \<longleftrightarrow>
     NameRegexp_ok (Name r) \<and> length (Name r) \<le> 255 \<and>
     (case as_Tagged r of None \<Rightarrow> True | Some t \<Rightarrow> TagRegexp_ok t) \<and>
     (case as_Digested r of None \<Rightarrow> True | Some d \<Rightarrow> DigestRegexp_ok d \<and> ParseDigest d = None)"

subsection \<open>Splitting\<close>

lemma split_on_not_Nil [simp]: "split_on c s \<noteq> []"
  by (induction s) (simp_all add: Let_def)

lemma split_on_pieces: "x \<in> set (split_on c s) \<Longrightarrow> c \<notin> set x"
proof (induction s arbitrary: x)
  case Nil
  then show ?case by simp
next
  case (Cons a s)
  then show ?case
    by (cases "split_on c s") (auto simp: Let_def split: if_splits)
qed

lemma split_on_chars: "a \<in> set s \<Longrightarrow> a \<noteq> c \<Longrightarrow> \<exists>x \<in> set (split_on c s). a \<in> set x"
proof (induction s)
  case Nil
  then show ?case by simp
next
  case (Cons b s)
  then show ?case
    by (cases "split_on c s") (auto simp: Let_def)
qed

lemma split_on_tl: "c \<in> set s \<Longrightarrow> tl (split_on c s) \<noteq> []"
proof (induction s)
  case Nil
  then show ?case by simp
next
  case (Cons a s)
  then show ?case
    by (cases "split_on c s") (auto simp: Let_def)
qed

lemma hd_split_on: "hd (split_on c s) = takeWhile (\<lambda>x. x \<noteq> c) s"
  by (induction s) (simp_all add: Let_def)

lemma last_split_on: "last (split_on c s) = rev (takeWhile (\<lambda>x. x \<noteq> c) (rev s))"
proof (induction s)
  case Nil
  then show ?case by simp
next
  case (Cons a s)
  show ?case
  proof (cases "c \<in> set s")
    case True
    then have "\<not> (\<forall>x \<in> set (rev s). x \<noteq> c)" by simp
    then have "takeWhile (\<lambda>x. x \<noteq> c) (rev s @ [a]) = takeWhile (\<lambda>x. x \<noteq> c) (rev s)"
      by (simp add: takeWhile_append1 del: set_rev)
    moreover have "last (split_on c (a # s)) = last (split_on c s)"
      using split_on_tl [OF True] by (simp add: Let_def last_tl)
    ultimately show ?thesis using Cons.IH by simp
  next
    case False
    then have "takeWhile (\<lambda>x. x \<noteq> c) (rev s) = rev s" by (auto simp: takeWhile_eq_all_conv)
    moreover have "split_on c s = [s]" using False
      by (induction s) (auto simp: Let_def)
    moreover have "takeWhile (\<lambda>x. x \<noteq> c) (rev s @ [a]) = rev s @ takeWhile (\<lambda>x. x \<noteq> c) [a]"
      using False by (intro takeWhile_append2) auto
    ultimately show ?thesis by (simp add: Let_def)
  qed
qed

subsection \<open>Splitting at the last colon\<close>

lemma split_at_last_colon_tag:
  assumes "CHR '':'' \<notin> set t" and "CHR ''/'' \<notin> set t"
  shows "split_at_last_colon (n @ CHR '':'' # t) = (n, Some t)"
proof -
  have tw: "takeWhile (\<lambda>c. c \<noteq> CHR '':'' \<and> c \<noteq> CHR ''/'') (rev t @ CHR '':'' # rev n) = rev t"
    using assms by (subst takeWhile_append2) auto
  have "(rev t @ CHR '':'' # rev n) ! length t = CHR '':''"
    by (metis length_rev nth_append_length)
  then show ?thesis
    by (simp add: split_at_last_colon_def tw Let_def)
qed

lemma takeWhile_two_stops:
  "\<forall>x \<in> set (takeWhile (\<lambda>c. c \<noteq> b) r). x \<noteq> a \<Longrightarrow>
   takeWhile (\<lambda>c. c \<noteq> a \<and> c \<noteq> b) r = takeWhile (\<lambda>c. c \<noteq> b) r"
  by (induction r) auto

lemma split_at_last_colon_untagged:
  assumes "CHR '':'' \<notin> set (last (split_on CHR ''/'' s))"
  shows "split_at_last_colon s = (s, None)"
proof -
  let ?r = "rev s"
  have "\<forall>x \<in> set (takeWhile (\<lambda>c. c \<noteq> CHR ''/'') ?r). x \<noteq> CHR '':''"
    using assms by (auto simp: last_split_on)
  then have tw: "takeWhile (\<lambda>c. c \<noteq> CHR '':'' \<and> c \<noteq> CHR ''/'') ?r = takeWhile (\<lambda>c. c \<noteq> CHR ''/'') ?r"
    by (rule takeWhile_two_stops)
  have "length (takeWhile (\<lambda>c. c \<noteq> CHR ''/'') ?r) < length ?r \<Longrightarrow>
        ?r ! length (takeWhile (\<lambda>c. c \<noteq> CHR ''/'') ?r) = CHR ''/''"
    using nth_length_takeWhile by fastforce
  then show ?thesis
    by (auto simp: split_at_last_colon_def tw Let_def)
qed

lemma split_at_last_colon_Some:
  assumes "split_at_last_colon s = (n, Some t)"
  shows "s = n @ CHR '':'' # t \<and> CHR '':'' \<notin> set t \<and> CHR ''/'' \<notin> set t"
proof -
  let ?P = "\<lambda>c. c \<noteq> CHR '':'' \<and> c \<noteq> CHR ''/''"
  let ?r = "rev s"
  let ?t = "takeWhile ?P ?r"
  have c: "length ?t < length ?r \<and> ?r ! length ?t = CHR '':''"
    using assms by (simp add: split_at_last_colon_def Let_def split: if_split_asm)
  then have n: "n = rev (drop (Suc (length ?t)) ?r)" and t: "t = rev ?t"
    using assms by (simp_all add: split_at_last_colon_def Let_def)
  have "?r = ?t @ dropWhile ?P ?r" by simp
  moreover have "dropWhile ?P ?r = ?r ! length ?t # drop (Suc (length ?t)) ?r"
    unfolding dropWhile_eq_drop using c by (intro Cons_nth_drop_Suc [symmetric]) simp
  ultimately have "?r = ?t @ CHR '':'' # drop (Suc (length ?t)) ?r" using c by simp
  then have "rev ?r = rev (?t @ CHR '':'' # drop (Suc (length ?t)) ?r)" by (rule arg_cong)
  then have "s = rev (drop (Suc (length ?t)) ?r) @ CHR '':'' # rev ?t" by simp
  moreover have "CHR '':'' \<notin> set ?t" "CHR ''/'' \<notin> set ?t"
    by (auto dest: set_takeWhileD)
  ultimately show ?thesis using n t by simp
qed
lemma split_at_last_colon_None: "split_at_last_colon s = (n, None) \<Longrightarrow> n = s"
  by (auto simp: split_at_last_colon_def Let_def split: if_splits)

subsection \<open>What the expressions allow\<close>

lemma list_allD: "list_all P xs \<Longrightarrow> x \<in> set xs \<Longrightarrow> P x"
  by (simp add: list_all_iff)

lemma hd_takeWhile_nonempty: "takeWhile P xs \<noteq> [] \<Longrightarrow> hd (takeWhile P xs) = hd xs"
  by (cases xs) auto

lemma name_component_chars:
  assumes "name_component x"
  shows "x \<noteq> [] \<and> hd x \<in> set ''abcdefghijklmnopqrstuvwxyzABCDEFGHIJKLMNOPQRSTUVWXYZ0123456789'' \<and> (\<forall>c \<in> set x. c \<in> set ''abcdefghijklmnopqrstuvwxyzABCDEFGHIJKLMNOPQRSTUVWXYZ0123456789-._:'') \<and> CHR '':'' \<notin> set x"
proof -
  have inc: "set ''abcdefghijklmnopqrstuvwxyz0123456789'' \<subseteq> set ''abcdefghijklmnopqrstuvwxyzABCDEFGHIJKLMNOPQRSTUVWXYZ0123456789''" "set ''abcdefghijklmnopqrstuvwxyz0123456789'' \<subseteq> set ''abcdefghijklmnopqrstuvwxyzABCDEFGHIJKLMNOPQRSTUVWXYZ0123456789-._:''" "set ''._-'' \<subseteq> set ''abcdefghijklmnopqrstuvwxyzABCDEFGHIJKLMNOPQRSTUVWXYZ0123456789-._:''" by simp_all
  have nc: "CHR '':'' \<notin> set ''abcdefghijklmnopqrstuvwxyz0123456789''" "CHR '':'' \<notin> set ''._-''" by simp_all
  have "list_all (\<lambda>c. c \<in> set ''abcdefghijklmnopqrstuvwxyz0123456789'' \<or> c \<in> set ''._-'') x"
    using assms by blast
  then have "\<forall>c \<in> set x. c \<in> set ''abcdefghijklmnopqrstuvwxyz0123456789'' \<or> c \<in> set ''._-''"
    unfolding list_all_iff .
  with assms inc nc show ?thesis by blast
qed

lemma hostname_chars:
  assumes "hostname x"
  shows "x \<noteq> [] \<and> hd x \<in> set ''abcdefghijklmnopqrstuvwxyzABCDEFGHIJKLMNOPQRSTUVWXYZ0123456789'' \<and> (\<forall>c \<in> set x. c \<in> set ''abcdefghijklmnopqrstuvwxyzABCDEFGHIJKLMNOPQRSTUVWXYZ0123456789-._:'')"
proof -
  let ?h = "takeWhile (\<lambda>c. c \<noteq> CHR '':'') x"
  let ?p = "dropWhile (\<lambda>c. c \<noteq> CHR '':'') x"
  have inc: "set ''abcdefghijklmnopqrstuvwxyzABCDEFGHIJKLMNOPQRSTUVWXYZ0123456789'' \<subseteq> set ''abcdefghijklmnopqrstuvwxyzABCDEFGHIJKLMNOPQRSTUVWXYZ0123456789-._:''" "set ''0123456789'' \<subseteq> set ''abcdefghijklmnopqrstuvwxyzABCDEFGHIJKLMNOPQRSTUVWXYZ0123456789-._:''" "CHR ''-'' \<in> set ''abcdefghijklmnopqrstuvwxyzABCDEFGHIJKLMNOPQRSTUVWXYZ0123456789-._:''"
    "CHR ''.'' \<in> set ''abcdefghijklmnopqrstuvwxyzABCDEFGHIJKLMNOPQRSTUVWXYZ0123456789-._:''" "CHR '':'' \<in> set ''abcdefghijklmnopqrstuvwxyzABCDEFGHIJKLMNOPQRSTUVWXYZ0123456789-._:''" by simp_all
  have hosts: "list_all hostname_component (split_on CHR ''.'' ?h)"
    using assms by (rule conjunct1)
  have "hd (split_on CHR ''.'' ?h) \<in> set (split_on CHR ''.'' ?h)" by simp
  from list_allD [OF hosts this]
  have "hostname_component (takeWhile (\<lambda>c. c \<noteq> CHR ''.'') ?h)"
    unfolding hd_split_on .
  then have hd0: "takeWhile (\<lambda>c. c \<noteq> CHR ''.'') ?h \<noteq> []"
    and hd1: "hd (takeWhile (\<lambda>c. c \<noteq> CHR ''.'') ?h) \<in> set ''abcdefghijklmnopqrstuvwxyzABCDEFGHIJKLMNOPQRSTUVWXYZ0123456789''" by blast+
  have hne: "?h \<noteq> []" using hd0 by auto
  have hdh: "hd x \<in> set ''abcdefghijklmnopqrstuvwxyzABCDEFGHIJKLMNOPQRSTUVWXYZ0123456789''"
    using hd1 hd_takeWhile_nonempty [OF hd0] hd_takeWhile_nonempty [OF hne] by simp
  have hchars: "c \<in> set ''abcdefghijklmnopqrstuvwxyzABCDEFGHIJKLMNOPQRSTUVWXYZ0123456789-._:''" if c: "c \<in> set ?h" for c
  proof (cases "c = CHR ''.''")
    case False
    with c obtain y where y: "y \<in> set (split_on CHR ''.'' ?h)" and cy: "c \<in> set y"
      using split_on_chars by blast
    from list_allD [OF hosts y] have "hostname_component y" .
    then have "list_all (\<lambda>c. c \<in> set ''abcdefghijklmnopqrstuvwxyzABCDEFGHIJKLMNOPQRSTUVWXYZ0123456789'' \<or> c = CHR ''-'') y" by blast
    with cy have "c \<in> set ''abcdefghijklmnopqrstuvwxyzABCDEFGHIJKLMNOPQRSTUVWXYZ0123456789'' \<or> c = CHR ''-''" unfolding list_all_iff by blast
    with inc show ?thesis by blast
  qed (simp add: inc)
  have pchars: "c \<in> set ''abcdefghijklmnopqrstuvwxyzABCDEFGHIJKLMNOPQRSTUVWXYZ0123456789-._:''" if c: "c \<in> set ?p" for c
  proof -
    have ne: "?p \<noteq> []" using c by (metis empty_iff empty_set)
    have "hd ?p = CHR '':''" using hd_dropWhile [OF ne] by simp
    then have eq: "?p = CHR '':'' # tl ?p" using ne by (metis list.collapse)
    have digits: "list_all (\<lambda>c. c \<in> set ''0123456789'') (tl ?p)" using assms ne by blast
    have "c = CHR '':'' \<or> c \<in> set (tl ?p)" using c eq by (metis set_ConsD)
    then show ?thesis
    proof
      assume "c \<in> set (tl ?p)"
      with digits have "c \<in> set ''0123456789''" unfolding list_all_iff by blast
      with inc show ?thesis by blast
    qed (simp add: inc)
  qed
  have "set ?h \<union> set ?p = set x" using set_append [of ?h ?p] by simp
  then have "\<forall>c \<in> set x. c \<in> set ''abcdefghijklmnopqrstuvwxyzABCDEFGHIJKLMNOPQRSTUVWXYZ0123456789-._:''" using hchars pchars by blast
  moreover have "x \<noteq> []" using hne by auto
  ultimately show ?thesis using hdh by blast
qed

lemma last_in_tl: "2 \<le> length xs \<Longrightarrow> last xs \<in> set (tl xs)"
  by (cases xs) auto

lemma NameRegexp_ok_chars:
  assumes "NameRegexp_ok n"
  shows "n \<noteq> [] \<and> hd n \<in> set ''abcdefghijklmnopqrstuvwxyzABCDEFGHIJKLMNOPQRSTUVWXYZ0123456789'' \<and> (\<forall>c \<in> set n. c \<in> set ''abcdefghijklmnopqrstuvwxyzABCDEFGHIJKLMNOPQRSTUVWXYZ0123456789-._:'' \<or> c = CHR ''/'') \<and>
         CHR '':'' \<notin> set (last (split_on CHR ''/'' n))"
proof -
  let ?segs = "split_on CHR ''/'' n"
  have segs: "list_all name_component ?segs \<or>
              (2 \<le> length ?segs \<and> hostname (hd ?segs) \<and> list_all name_component (tl ?segs))"
    using assms unfolding NameRegexp_ok_def Let_def .
  have hd_in: "hd ?segs \<in> set ?segs" by simp
  have seg: "x \<noteq> [] \<and> hd x \<in> set ''abcdefghijklmnopqrstuvwxyzABCDEFGHIJKLMNOPQRSTUVWXYZ0123456789'' \<and> (\<forall>c \<in> set x. c \<in> set ''abcdefghijklmnopqrstuvwxyzABCDEFGHIJKLMNOPQRSTUVWXYZ0123456789-._:'')" if x: "x \<in> set ?segs" for x
  proof (cases "list_all name_component ?segs")
    case True
    from list_allD [OF True x] show ?thesis by (rule name_component_chars [THEN conjE]) blast
  next
    case False
    with segs have two: "2 \<le> length ?segs" and h: "hostname (hd ?segs)"
      and t: "list_all name_component (tl ?segs)" by blast+
    have "?segs = hd ?segs # tl ?segs" by simp
    then have "x = hd ?segs \<or> x \<in> set (tl ?segs)" using x by (metis set_ConsD)
    then show ?thesis
    proof
      assume "x = hd ?segs"
      with hostname_chars [OF h] show ?thesis by simp
    next
      assume "x \<in> set (tl ?segs)"
      from list_allD [OF t this] show ?thesis by (rule name_component_chars [THEN conjE]) blast
    qed
  qed
  have last_comp: "name_component (last ?segs)"
  proof (cases "list_all name_component ?segs")
    case True
    then show ?thesis by (rule list_allD) simp
  next
    case False
    with segs have two: "2 \<le> length ?segs" and t: "list_all name_component (tl ?segs)" by blast+
    from list_allD [OF t last_in_tl [OF two]] show ?thesis .
  qed
  have h0: "hd ?segs \<noteq> []" using seg hd_in by blast
  then have "takeWhile (\<lambda>x. x \<noteq> CHR ''/'') n \<noteq> []" by (simp add: hd_split_on)
  then have nne: "n \<noteq> []" and hdn: "hd n = hd (hd ?segs)"
    using hd_takeWhile_nonempty [of "\<lambda>x. x \<noteq> CHR ''/''" n] by (auto simp: hd_split_on)
  have "hd (hd ?segs) \<in> set ''abcdefghijklmnopqrstuvwxyzABCDEFGHIJKLMNOPQRSTUVWXYZ0123456789''" using seg hd_in by blast
  moreover have "\<forall>c \<in> set n. c \<in> set ''abcdefghijklmnopqrstuvwxyzABCDEFGHIJKLMNOPQRSTUVWXYZ0123456789-._:'' \<or> c = CHR ''/''"
  proof
    fix c assume "c \<in> set n"
    then show "c \<in> set ''abcdefghijklmnopqrstuvwxyzABCDEFGHIJKLMNOPQRSTUVWXYZ0123456789-._:'' \<or> c = CHR ''/''"
      using split_on_chars [of c n "CHR ''/''"] seg by blast
  qed
  ultimately show ?thesis using nne hdn last_comp name_component_chars by auto
qed

lemma TagRegexp_ok_chars:
  assumes "TagRegexp_ok t"
  shows "t \<noteq> [] \<and> CHR '':'' \<notin> set t \<and> CHR ''/'' \<notin> set t \<and> CHR ''@'' \<notin> set t"
proof -
  let ?W = "''abcdefghijklmnopqrstuvwxyzABCDEFGHIJKLMNOPQRSTUVWXYZ0123456789_''"
  have w: "CHR '':'' \<notin> set ?W" "CHR ''/'' \<notin> set ?W" "CHR ''@'' \<notin> set ?W" by simp_all
  have "t \<noteq> [] \<and> list_all (\<lambda>c. c \<in> set ?W \<or> c = CHR ''.'' \<or> c = CHR ''-'') t"
    using assms unfolding TagRegexp_ok_def Let_def by blast
  then have "t \<noteq> [] \<and> (\<forall>c \<in> set t. c \<in> set ?W \<or> c = CHR ''.'' \<or> c = CHR ''-'')"
    unfolding list_all_iff .
  with w show ?thesis by fastforce
qed

lemma DigestRegexp_ok_chars:
  assumes "DigestRegexp_ok d"
  shows "d \<noteq> [] \<and> CHR ''@'' \<notin> set d"
proof -
  let ?P = "\<lambda>c. c \<noteq> CHR '':''"
  let ?alg = "takeWhile ?P d"
  let ?hex = "drop (Suc (length ?alg)) d"
  let ?A = "''abcdefghijklmnopqrstuvwxyzABCDEFGHIJKLMNOPQRSTUVWXYZ0123456789-_+.''"
  let ?X = "''0123456789abcdefABCDEF''"
  have a: "CHR ''@'' \<notin> set ?A" "CHR ''@'' \<notin> set ?X" by simp_all
  have inc: "set ''abcdefghijklmnopqrstuvwxyzABCDEFGHIJKLMNOPQRSTUVWXYZ'' \<subseteq> set ?A"
    "set ''0123456789'' \<subseteq> set ?A" "set ''-_+.'' \<subseteq> set ?A" by simp_all
  have parts: "list_all (\<lambda>c. c \<in> set ''abcdefghijklmnopqrstuvwxyzABCDEFGHIJKLMNOPQRSTUVWXYZ'' \<or>
                          c \<in> set ''0123456789'' \<or> c \<in> set ''-_+.'') ?alg \<and>
               length ?alg < length d \<and> list_all (\<lambda>c. c \<in> set ?X) ?hex"
    using assms unfolding DigestRegexp_ok_def Let_def by blast
  then have algc: "\<forall>c \<in> set ?alg. c \<in> set ?A" and lt: "length ?alg < length d"
    and hexc: "\<forall>c \<in> set ?hex. c \<in> set ?X"
    using inc unfolding list_all_iff by blast+
  have "d = ?alg @ dropWhile ?P d" by simp
  also have "dropWhile ?P d = d ! length ?alg # ?hex"
    unfolding dropWhile_eq_drop using lt by (intro Cons_nth_drop_Suc [symmetric])
  also have "d ! length ?alg = CHR '':''" using nth_length_takeWhile [OF lt] by simp
  finally have eq: "d = ?alg @ CHR '':'' # ?hex" .
  have "set d = set ?alg \<union> insert CHR '':'' (set ?hex)"
    using arg_cong [where f = set, OF eq] by (simp only: set_append list.set(2))
  then have "CHR ''@'' \<notin> set d" using algc hexc a by blast
  moreover have "d \<noteq> []" using lt by (metis length_greater_0_conv gr_implies_not0 less_nat_zero_code list.size(3))
  ultimately show ?thesis by blast
qed

lemma ReferenceRegexp_submatch_complete:
  assumes "ReferenceRegexp_matches s n t d"
  shows "ReferenceRegexp_submatch s = Some (n, t, d)"
proof -
  let ?T = "if t = [] then [] else CHR '':'' # t"
  let ?D = "if d = [] then [] else CHR ''@'' # d"
  let ?P = "\<lambda>c. c \<noteq> CHR ''@''"
  from assms have s: "s = n @ ?T @ ?D" and nok: "NameRegexp_ok n"
    and tok: "t = [] \<or> TagRegexp_ok t" and dok: "d = [] \<or> DigestRegexp_ok d"
    unfolding ReferenceRegexp_matches_def by blast+
  from NameRegexp_ok_chars [OF nok]
  have "\<forall>c \<in> set n. c \<in> set ''abcdefghijklmnopqrstuvwxyzABCDEFGHIJKLMNOPQRSTUVWXYZ0123456789-._:'' \<or> c = CHR ''/''"
    and last: "CHR '':'' \<notin> set (last (split_on CHR ''/'' n))" by blast+
  moreover have "CHR ''@'' \<notin> set ''abcdefghijklmnopqrstuvwxyzABCDEFGHIJKLMNOPQRSTUVWXYZ0123456789-._:''" by simp
  ultimately have natn: "CHR ''@'' \<notin> set n" by fastforce
  have tc: "t \<noteq> [] \<Longrightarrow> CHR '':'' \<notin> set t \<and> CHR ''/'' \<notin> set t \<and> CHR ''@'' \<notin> set t"
    using tok TagRegexp_ok_chars by blast
  have natT: "\<forall>c \<in> set (n @ ?T). ?P c" using natn tc by auto
  have D: "takeWhile ?P ?D = [] \<and> dropWhile ?P ?D = ?D" by simp
  have tw: "takeWhile ?P s = n @ ?T" and dw: "dropWhile ?P s = ?D"
    using natT D unfolding s by (simp_all add: takeWhile_append2 dropWhile_append2 del: append_assoc)
  have split: "split_at_last_colon (n @ ?T) = (n, if t = [] then None else Some t)"
  proof (cases "t = []")
    case True
    then show ?thesis using split_at_last_colon_untagged [OF last] by simp
  next
    case False
    then show ?thesis using split_at_last_colon_tag tc by simp
  qed
  have dne: "d \<noteq> [] \<Longrightarrow> DigestRegexp_ok d" using dok by blast
  show ?thesis
    unfolding ReferenceRegexp_submatch_def Let_def tw dw split
    using nok tok dne by (cases "t = []"; cases "d = []") simp_all
qed

lemma ReferenceRegexp_submatch_sound:
  assumes "ReferenceRegexp_submatch s = Some (n, t, d)"
  shows "ReferenceRegexp_matches s n t d"
proof -
  define nt where "nt = takeWhile (\<lambda>c. c \<noteq> CHR ''@'') s"
  define rest where "rest = dropWhile (\<lambda>c. c \<noteq> CHR ''@'') s"
  have s: "s = nt @ rest" unfolding nt_def rest_def by simp
  obtain name tag where sp: "split_at_last_colon nt = (name, tag)" by fastforce
  from assms have nok: "NameRegexp_ok name"
    and tok: "case tag of None \<Rightarrow> True | Some t \<Rightarrow> TagRegexp_ok t"
    and dok: "rest = [] \<or> DigestRegexp_ok (tl rest)"
    and n: "n = name" and t: "t = (case tag of None \<Rightarrow> [] | Some t \<Rightarrow> t)"
    and d: "d = (if rest = [] then [] else tl rest)"
    unfolding ReferenceRegexp_submatch_def Let_def nt_def [symmetric] rest_def [symmetric] sp
    by (simp_all split: if_splits)
  have ntc: "nt = n @ (if t = [] then [] else CHR '':'' # t) \<and> (t = [] \<or> TagRegexp_ok t)"
  proof (cases tag)
    case None
    then show ?thesis using sp n t split_at_last_colon_None by auto
  next
    case (Some tg)
    with tok have "tg \<noteq> []" "TagRegexp_ok tg" using TagRegexp_ok_chars by auto
    with Some show ?thesis using sp n t split_at_last_colon_Some by auto
  qed
  have restc: "rest = (if d = [] then [] else CHR ''@'' # d) \<and> (d = [] \<or> DigestRegexp_ok d)"
  proof (cases "rest = []")
    case True
    then show ?thesis using d by simp
  next
    case False
    then have hd: "hd rest = CHR ''@''"
      using hd_dropWhile [of "\<lambda>c. c \<noteq> CHR ''@''" s] unfolding rest_def by simp
    from False dok have dg: "DigestRegexp_ok (tl rest)" by blast
    then have "tl rest \<noteq> []" using DigestRegexp_ok_chars by blast
    with False hd d dg show ?thesis by (metis list.collapse)
  qed
  from s ntc restc nok n show ?thesis unfolding ReferenceRegexp_matches_def by simp
qed

lemma reference_ParseNamed_of_valid:
  assumes "s = ref_String r" and "ref_valid r"
  shows "reference_ParseNamed s = Inr r"
proof (cases r)
  case (Repository n)
  with assms have ok: "NameRegexp_ok n" "length n \<le> 255" "s = n" by (simp_all add: ref_valid_def)
  then have "ReferenceRegexp_submatch s = Some (n, [], [])"
    by (intro ReferenceRegexp_submatch_complete) (simp add: ReferenceRegexp_matches_def)
  with ok Repository show ?thesis by (simp add: reference_ParseNamed_def)
next
  case (TaggedReference n t)
  with assms have ok: "NameRegexp_ok n" "length n \<le> 255" "TagRegexp_ok t" "s = n @ CHR '':'' # t"
    by (simp_all add: ref_valid_def)
  have t: "t \<noteq> []" using TagRegexp_ok_chars ok(3) by blast
  with ok have "ReferenceRegexp_submatch s = Some (n, t, [])"
    by (intro ReferenceRegexp_submatch_complete) (simp add: ReferenceRegexp_matches_def)
  with ok t TaggedReference show ?thesis by (simp add: reference_ParseNamed_def)
next
  case (CanonicalReference n d)
  with assms have ok: "NameRegexp_ok n" "length n \<le> 255" "DigestRegexp_ok d" "ParseDigest d = None"
    "s = n @ CHR ''@'' # d" by (simp_all add: ref_valid_def)
  have d: "d \<noteq> []" using DigestRegexp_ok_chars ok(3) by blast
  with ok have "ReferenceRegexp_submatch s = Some (n, [], d)"
    by (intro ReferenceRegexp_submatch_complete) (simp add: ReferenceRegexp_matches_def)
  with ok d CanonicalReference show ?thesis by (simp add: reference_ParseNamed_def)
next
  case (FullReference n t d)
  with assms have ok: "NameRegexp_ok n" "length n \<le> 255" "TagRegexp_ok t" "DigestRegexp_ok d"
    "ParseDigest d = None" "s = n @ CHR '':'' # t @ CHR ''@'' # d" by (simp_all add: ref_valid_def)
  have t: "t \<noteq> []" using TagRegexp_ok_chars ok(3) by blast
  have d: "d \<noteq> []" using DigestRegexp_ok_chars ok(4) by blast
  with ok t have "ReferenceRegexp_submatch s = Some (n, t, d)"
    by (intro ReferenceRegexp_submatch_complete) (simp add: ReferenceRegexp_matches_def)
  with ok t d FullReference show ?thesis by (simp add: reference_ParseNamed_def)
qed

lemma reference_ParseNamed_valid:
  assumes p: "reference_ParseNamed s = Inr r"
  shows "s = ref_String r \<and> ref_valid r"
proof -
  obtain n t d where sm: "ReferenceRegexp_submatch s = Some (n, t, d)"
    using p by (cases "ReferenceRegexp_submatch s") (auto simp: reference_ParseNamed_def split: if_splits)
  from ReferenceRegexp_submatch_sound [OF sm] have m: "ReferenceRegexp_matches s n t d" .
  from p sm have len: "length n \<le> 255"
    and dig: "d \<noteq> [] \<Longrightarrow> ParseDigest d = None"
    and r: "r = (if t = [] then (if d = [] then Repository n else CanonicalReference n d)
                 else if d = [] then TaggedReference n t else FullReference n t d)"
    by (auto simp: reference_ParseNamed_def split: if_splits option.splits)
  show ?thesis
    using m len dig r by (cases "t = []"; cases "d = []") (simp_all add: ReferenceRegexp_matches_def ref_valid_def)
qed

lemma ref_String_hd:
  assumes "ref_valid r"
  shows "ref_String r \<noteq> [] \<and> hd (ref_String r) \<in> set ''abcdefghijklmnopqrstuvwxyzABCDEFGHIJKLMNOPQRSTUVWXYZ0123456789''"
proof -
  from assms have "NameRegexp_ok (Name r)" by (simp add: ref_valid_def)
  from NameRegexp_ok_chars [OF this] have "Name r \<noteq> []" "hd (Name r) \<in> set ''abcdefghijklmnopqrstuvwxyzABCDEFGHIJKLMNOPQRSTUVWXYZ0123456789''" by blast+
  then show ?thesis by (cases r) simp_all
qed

lemma ref_String_not_sentinel:
  assumes "ref_valid r"
  shows "\<not> HasPrefix (ref_String r) ''<none>''"
proof
  assume "HasPrefix (ref_String r) ''<none>''"
  then obtain rest where "ref_String r = ''<none>'' @ rest" by (auto simp: HasPrefix_iff_prefix)
  then have "hd (ref_String r) = CHR ''<''" by simp
  moreover have "CHR ''<'' \<notin> set ''abcdefghijklmnopqrstuvwxyzABCDEFGHIJKLMNOPQRSTUVWXYZ0123456789''" by simp
  ultimately show False using ref_String_hd [OF assms] by simp
qed

text \<open>
  \<^verbatim>\<open>ReferenceRegexp.FindStringSubmatch\<close> returns exactly the captures of a
  decomposition the anchored expression admits; hence the expression is
  unambiguous, and splitting at the first \<^verbatim>\<open>@\<close> and at the last colon after
  the last slash finds the decomposition.
\<close>

lemma ReferenceRegexp_submatch_iff:
  "ReferenceRegexp_submatch s = Some (n, t, d) \<longleftrightarrow> ReferenceRegexp_matches s n t d"
  using ReferenceRegexp_submatch_sound ReferenceRegexp_submatch_complete by blast

lemma ReferenceRegexp_submatch_example:
  "ReferenceRegexp_matches ''localhost:5000/library/foo:1.0'' ''localhost:5000/library/foo'' ''1.0'' []"
proof -
  have "ReferenceRegexp_submatch ''localhost:5000/library/foo:1.0'' =
          Some (''localhost:5000/library/foo'', ''1.0'', [])"
    by (simp add: ReferenceRegexp_submatch_def NameRegexp_ok_def TagRegexp_ok_def split_at_last_colon_def)
  then show ?thesis using ReferenceRegexp_submatch_iff by blast
qed

text \<open>
  Parsing and printing references are inverse: \<^verbatim>\<open>ParseNamed\<close> returns a
  reference exactly for the string form of a valid reference, and then that
  reference.
\<close>

lemma reference_ParseNamed_roundtrip:
  "reference_ParseNamed s = Inr r \<longleftrightarrow> s = ref_String r \<and> ref_valid r"
  using reference_ParseNamed_valid reference_ParseNamed_of_valid by blast

lemma reference_ParseNamed_example:
  "reference_ParseNamed ''library/foo:latest'' = Inr (TaggedReference ''library/foo'' ''latest'')"
proof -
  have "ref_valid (TaggedReference ''library/foo'' ''latest'')"
    by (simp add: ref_valid_def NameRegexp_ok_def TagRegexp_ok_def)
  then show ?thesis
    using reference_ParseNamed_roundtrip [of "''library/foo:latest''" "TaggedReference ''library/foo'' ''latest''"]
    by simp
qed

end
