(* ===== verification/Spec2Isabelle.thy ===== *)
theory Spec2Isabelle
  imports Prelude Reference Reconcile Tabwriter Render Images Flags Command Filters ReferenceParse
begin

text \<open>
  \<^bold>\<open>Verification of \<^verbatim>\<open>docker images\<close>: the image listing of \<^verbatim>\<open>src/api/client/images.go\<close>.\<close>

  \<^bold>\<open>The program.\<close> \<^verbatim>\<open>CmdImages\<close> (the only function of the file) parses its flags,
  consolidates the \<^verbatim>\<open>--filter\<close> values (\<^verbatim>\<open>filters.ParseFlag\<close>), asks the daemon for
  the image records (\<^verbatim>\<open>cli.client.ImageList\<close>), creates a \<^verbatim>\<open>text/tabwriter\<close> over
  \<^verbatim>\<open>cli.out\<close>, writes a header unless \<^verbatim>\<open>-q\<close>, and then, for every record and every
  string of its combined tag and digest lists, reconciles the string into a
  (repository, tag, digest) row (the Reference Reconciler, lines 77--106) and writes
  one line for it (the Row Renderer, lines 108--116), returning at the first parse
  error; without \<^verbatim>\<open>-q\<close> it finally flushes the writer.

  \<^bold>\<open>Theories.\<close>
  \<^item> \<open>Prelude\<close>: Go errors (\<open>go_error\<close>, results \<open>'a go_result = go_error + 'a\<close>),
    \<^verbatim>\<open>strings.HasPrefix\<close>, the cells of a tab-separated line (\<open>cells\<close>, \<open>tab_join\<close>)
    and their round trip, and the collection \<open>model_simps\<close> used to evaluate scenarios.
  \<^item> \<open>Reference\<close>: the interface of \<^verbatim>\<open>distribution/reference\<close> that the type switch
    uses (\<open>reference\<close>, \<open>Name\<close>, \<open>as_Tagged\<close>, \<open>as_Digested\<close>); the parser is a
    parameter \<open>ref_parser\<close> of the command; \<open>ParseNamed_simple\<close> is not a model of
    the package but a parser for the two forms of the specification that serves the
    scenarios.
  \<^item> \<open>ReferenceParse\<close>: the package's parser (outside \<^verbatim>\<open>src/\<close>, modelled after
    its \<^verbatim>\<open>regexp.go\<close> and \<^verbatim>\<open>reference.go\<close>): \<^verbatim>\<open>NameRegexp\<close>,
    \<^verbatim>\<open>TagRegexp\<close> and \<^verbatim>\<open>DigestRegexp\<close> as predicates (\<open>NameRegexp_ok\<close>,
    \<open>TagRegexp_ok\<close>, \<open>DigestRegexp_ok\<close>), the captures of the anchored
    \<^verbatim>\<open>ReferenceRegexp\<close> (\<open>ReferenceRegexp_submatch\<close>),
    \<^verbatim>\<open>digest.ParseDigest\<close> (\<open>ParseDigest\<close>), \<^verbatim>\<open>ParseNamed\<close> with \<^verbatim>\<open>Parse\<close> and
    \<^verbatim>\<open>getBestReferenceType\<close> (\<open>reference_ParseNamed\<close>, of type \<open>ref_parser\<close>, so it
    instantiates the parameter), and the \<^verbatim>\<open>String()\<close> methods (\<open>ref_String\<close>).
  \<^item> \<open>Reconcile\<close>: \<^verbatim>\<open>types.Image\<close> (\<open>image\<close>), the dangling test (\<open>dangling\<close>,
    line 80), the collapse (\<open>collapse_digests\<close>, 80--83), the combined list
    (\<open>tagsAndDigests\<close>, lines 77--86), one string (\<open>resolve_ref\<close>, lines 88--106,
    with the \<^verbatim>\<open><none>\<close> test \<open>is_none_ref\<close> of line 93 and the name and type
    switch \<open>ref_fields\<close> of lines 98--105), the loop (\<open>resolve_all\<close>), the component's
    contract per record (\<open>reconcile\<close>) and over all records (\<open>reconcile_images\<close>),
    and the same loops keeping the rows before an error (\<open>scan_refs\<close>, \<open>scan_images\<close>).
  \<^item> \<open>Tabwriter\<close>: the writer of Go's \<^verbatim>\<open>text/tabwriter\<close>, after its source: the
    settings of \<^verbatim>\<open>NewWriter\<close> (\<open>tw_conf\<close>), lines buffered, a single-cell line
    flushing at once, \<^verbatim>\<open>Flush\<close> delivering the rest, and the layout of what is
    flushed (\<open>format\<close>: column blocks, their widths, padding, with a
    \<^theory_text>\<open>termination\<close> proof by a lexicographic measure); \<open>tw_op\<close> is the
    interface of the two operations the command performs.
  \<^item> \<open>Render\<close>: the flags (\<open>images_flags\<close>), \<^verbatim>\<open>stringid.TruncateID\<close> (outside
    \<^verbatim>\<open>src/\<close>: the algorithm up to the first \<^verbatim>\<open>:\<close> dropped, then 12 characters kept), the displayed ID (\<open>display_id\<close>, lines 72--75),
    the header (\<open>header_line\<close>, lines 63--69, choosing between the literals of
    lines 65 and 67, \<open>header_digests\<close> and \<open>header_plain\<close>), Go time (\<open>go_time\<close>: \<^verbatim>\<open>int64\<close> seconds since year 1 as a
    \<open>64 word\<close> and nanoseconds; \<open>time_Unix\<close>, whose addition of
    \<^verbatim>\<open>unixToInternal\<close> wraps; \<open>time_Sub\<close> saturating at the
    \<^verbatim>\<open>int64\<close> bounds), the age of an image (\<open>image_age\<close>, the expression of lines
    110/112) and the row line (\<open>row_line\<close>, lines 108--116, choosing between the
    format strings of lines 110 and 112, \<open>row_digests\<close> and \<open>row_plain\<close>).
  \<^item> \<open>Images\<close>: the collaborators as a record of functions (\<open>cli_env\<close>), the state
    (\<open>cli_state\<close>: the writer and the number of clock readings), the filter loop
    (\<open>parse_filters\<close>, lines 37--44), \<open>match_name\<close> (46--49), the options sent
    to the daemon (\<open>list_options\<close>, 51--55), the call of the daemon
    (\<open>list_images\<close>, 57--60), \<open>write_header\<close>, \<open>emit_row\<close> (a table row
    \<open>emit_table_row\<close>, 109--113, or a quiet row \<open>emit_quiet_row\<close>, 115), the loops \<open>refs_loop\<close> (87--117) and \<open>images_loop\<close> (71--118), and
    \<open>CmdImages\<close> (35--123, ending with \<open>flush_unless_quiet\<close>, 120--122) returning \<open>None\<close> for \<^verbatim>\<open>nil\<close> or \<open>Some err\<close> together with
    the state reached; \<open>stdout\<close> is the lines that reached \<^verbatim>\<open>cli.out\<close>, as written,
    and \<open>tw_display\<close> of the writer the text the terminal shows, after padding.
  \<^item> \<open>Flags\<close>: lines 23--33 and the part of \<^verbatim>\<open>pkg/mflag\<close> they run (outside
    \<^verbatim>\<open>src/\<close>, modelled after the package): the \<^verbatim>\<open>FlagSet\<close> (\<open>flag_set\<close>), one
    step of parsing (\<open>parseOne\<close>), the letter-by-letter retry of combined flags
    (\<open>retry_letters\<close>), the \<^verbatim>\<open>for\<close> loop of \<^verbatim>\<open>Parse\<close> as a
    \<^theory_text>\<open>partial_function (option)\<close> (\<open>Parse_loop\<close>), \<^verbatim>\<open>CheckArgs\<close>,
    \<^verbatim>\<open>ParseFlags\<close>, the five declarations with \<^verbatim>\<open>cmd.Require(flag.Max, 1)\<close>
    (\<open>images_flagset\<close>) and the parsed flags and arguments (\<open>images_cmd_flags\<close>).
  \<^item> \<open>Command\<close>: the whole function (\<open>CmdImages_main\<close>): the process exits in
    \<^verbatim>\<open>ParseFlags\<close> (\<open>Exited\<close>) or the listing runs (\<open>Returned\<close>).
  \<^item> \<open>Filters\<close>: the filters package that line 40 calls (outside \<^verbatim>\<open>src/\<close>,
    modelled after the package): \<open>filter_args\<close> (a map from a name to the set
    of its values), \<^verbatim>\<open>NewArgs\<close>, \<^verbatim>\<open>Args.Add\<close> (\<open>Args_Add\<close>), \<^verbatim>\<open>ErrBadFormat\<close>,
    \<^verbatim>\<open>ParseFlag\<close> (\<open>filters_ParseFlag\<close>) with \<^verbatim>\<open>strings.TrimSpace\<close> and
    \<^verbatim>\<open>strings.ToLower\<close> on ASCII text; and the abstract filters a set of
    \<^verbatim>\<open>--filter\<close> values denotes (\<open>filters_of\<close>). Instantiating
    \<open>ParseFlag\<close> and \<open>NewArgs\<close> of \<open>cli_env\<close> with them composes it with the command.
  \<^item> this theory: the specification's listing (\<open>listing\<close>: reconcile every record,
    render every row, header first unless \<^verbatim>\<open>-q\<close>, error if any string fails),
    the theorems that span the components, and scenarios on demo data.

  \<^bold>\<open>What is proved.\<close> The reconciler: the dangling collapse (one row), one row per
  tag and digest in order otherwise, no row with both tag and digest, the error is
  exactly the first parse error, success when every string parses, \<^verbatim>\<open><none>\<close> strings
  never parsed, the mixed case not collapsed, and that a tagged-and-digested reference
  keeps only its digest. The renderer: rows split back into their 5 or 6 fields, the
  header has as many cells as a row, the displayed ID is the first 12 characters after
  the algorithm prefix unless \<^verbatim>\<open>--no-trunc\<close>, the age is exact within 9e9 seconds
  for a creation time that is representable as a Go time, saturated beyond, and the
  greatest Duration for a creation time so far in the future that \<^verbatim>\<open>time.Unix\<close>
  wraps (\<open>image_age_unix_wrap\<close>). The command: it refines the listing (\<open>CmdImages_refines_listing\<close>); one
  line per reference after the header; without \<^verbatim>\<open>-q\<close> nothing is delivered before the
  final flush and a parse error delivers nothing; with \<^verbatim>\<open>-q\<close> every line is one ID,
  and a parse error leaves the IDs of earlier rows on the terminal; filter and daemon
  errors are returned verbatim before anything is written; the daemon is asked with
  exactly the match pattern, the \<^verbatim>\<open>-a\<close> flag and the parsed filters; the clock is read
  once per row written without \<^verbatim>\<open>-q\<close> and never with it; with \<^verbatim>\<open>-q\<close>,
  \<^verbatim>\<open>--digests\<close> has no effect; a successful run without \<^verbatim>\<open>-q\<close> leaves nothing
  buffered. Across the writer: every state a run reaches is reachable by the writer's
  step relation \<open>tw_reach\<close> (rule induction). The reconciler distributes over
  concatenated record lists. With the filters package the filter loop refines the
  abstract filters (\<open>parse_filters_refines_filters_of\<close>: \<^verbatim>\<open>ErrBadFormat\<close>
  exactly when a non-empty value has no \<^verbatim>\<open>=\<close>, else names lower-cased and
  trimmed, values trimmed, collected per name), so the command depends only on the
  set of \<^verbatim>\<open>--filter\<close> values, not on their order or repetitions
  (\<open>CmdImages_filters_order_independent\<close>). The flags: the parse loop ends on every command line, so
  the whole command always returns or exits (\<open>CmdImages_main_terminates\<close>); a
  successful parse leaves a value of the declared kind in every flag (the typing
  invariant \<open>fs_wt\<close>, preserved by \<open>Parse_loop\<close> by fixpoint induction); printing
  flags and a repository as a command line and parsing it back is the identity;
  a flag after the repository is
  a positional argument and fails the count check; past the flags there is at most
  one positional argument, which is the name pattern sent to the daemon. The layout:
  a successful run without \<^verbatim>\<open>-q\<close> is shown as one table, so when its lines have the
  same number of cells every column starts at the same position in every line, is at
  least 20 characters wide and leaves at least 3 spaces after each cell
  (\<open>CmdImages_display_aligned\<close>, \<open>CmdImages_display_padding\<close>); with \<^verbatim>\<open>-q\<close> the
  terminal shows exactly the IDs delivered, unpadded (\<open>CmdImages_quiet_display\<close>);
  \<open>demo_display\<close> is the text shown for a demo image. The reference parser: the
  captures of \<^verbatim>\<open>FindStringSubmatch\<close> are exactly a decomposition the anchored
  expression admits, so the grammar is unambiguous (\<open>ReferenceRegexp_submatch_iff\<close>),
  and \<^verbatim>\<open>ParseNamed\<close> and \<^verbatim>\<open>String()\<close> are inverse on valid references
  (\<open>reference_ParseNamed_roundtrip\<close>). With it, a reference string fails exactly
  when it neither starts with \<^verbatim>\<open><none>\<close> nor is the form of a valid reference
  (\<open>resolve_ref_reference_parser_ok\<close>), a resolved row prints back to its string
  except that a \<^verbatim>\<open>name:tag@digest\<close> string loses its tag
  (\<open>resolve_ref_row_roundtrip\<close>), and a record of valid references reconciles into
  one row per reference, in order (\<open>reconcile_with_reference_parser\<close>).

  \<^bold>\<open>Bounds and fuel.\<close> The loops of \<^verbatim>\<open>images.go\<close> range over finite lists and
  are structural recursion (\<open>fun\<close>), so no fuel is needed. The \<^verbatim>\<open>for\<close> loop of
  \<^verbatim>\<open>mflag\<close>'s \<^verbatim>\<open>Parse\<close> is not structural (the retry pushes arguments back), so it is
  a \<^theory_text>\<open>partial_function (option)\<close>; that it returns \<open>Some\<close> on every input is
  proved by induction on the number of remaining arguments. \<^verbatim>\<open>tabwriter\<close>'s
  \<open>format\<close> recurses into column blocks; it is a \<^theory_text>\<open>function\<close> whose termination is
  proved with the measure (cells to the right of the known columns, number of lines).
  Widths count characters (ASCII text). \<^verbatim>\<open>Created\<close>
  and \<^verbatim>\<open>Size\<close> are \<open>64 word\<close> read with \<open>sint\<close>; a \<^verbatim>\<open>time.Duration\<close> is an
  \<open>int\<close> kept in \<open>[minDuration, maxDuration]\<close> by the saturation of \<^verbatim>\<open>Time.Sub\<close>;
  the seconds of a \<^verbatim>\<open>time.Time\<close> are a \<open>64 word\<close>, so that \<open>time_Unix\<close>
  wraps where Go's \<^verbatim>\<open>int64\<close> addition does.

  \<^bold>\<open>Not modelled.\<close> Of \<^verbatim>\<open>mflag\<close>: usage and error messages, exit statuses,
  warnings for deprecated names and the record of the flags actually set (the command
  reads none of them); the daemon and the clock (parameters of \<open>cli_env\<close>: every
  theorem holds for all of them); \<^verbatim>\<open>pkg/units\<close>' \<^verbatim>\<open>HumanDuration\<close> and
  \<^verbatim>\<open>HumanSize\<close>, also parameters: they are outside the repository's sources, the
  specification leaves their output to the implementation, and \<^verbatim>\<open>HumanSize\<close> prints a
  \<^verbatim>\<open>float64\<close> with \<^verbatim>\<open>%.4g\<close>, which has no faithful model over the integers used
  here; of the reference package, the functions the command does not call, the unnamed
  result \<^verbatim>\<open>ParseNamed\<close> rejects (never produced, the name capture being non-empty)
  and the \<^verbatim>\<open>ErrNameContainsUppercase\<close> message of later versions (an error either
  way); of the filters package, the methods the command
  does not call and non-ASCII white space and letters in \<^verbatim>\<open>TrimSpace\<close> and
  \<^verbatim>\<open>ToLower\<close> (the theorems about \<open>CmdImages\<close> also hold for any filter parser); of \<^verbatim>\<open>tabwriter\<close>: right alignment, padding with tabs,
  \<^verbatim>\<open>DiscardEmptyColumns\<close>, escapes and HTML filtering (line 62 uses none); the conversion of
  \<^verbatim>\<open>Size\<close> to \<^verbatim>\<open>float64\<close> (inside the size formatter). Written fields are assumed
  free of line terminators, as IDs, reference names and formatted sizes are.

  \<^bold>\<open>Further work.\<close> The layout of listings whose rows have different numbers of
  cells (a table split into several column blocks).
\<close>

subsection \<open>The listing the command promises\<close>

text \<open>
  The specification's data flow: image records, each reconciled into rows, each row
  rendered into one line, after a header unless \<^verbatim>\<open>-q\<close> is given; a parse error
  anywhere makes the whole listing that error.
\<close>

definition listing :: "'a cli_env \<Rightarrow> images_flags \<Rightarrow> image list \<Rightarrow> string list go_result" where
  "listing env fl images =
     (case reconcile_images (ParseNamed env) images of
        Inl err \<Rightarrow> Inl err
      | Inr rows \<Rightarrow> Inr ((if quiet fl then [] else [header_line fl]) @ row_lines env fl 0 rows))"

text \<open>Data for the scenarios: two images, one tagged and one dangling, and a clock that advances an hour per reading.\<close>

definition demo_img1 :: image where
  "demo_img1 = \<lparr>ID = ''0123456789abcdef0123'', RepoTags = [''library/foo:latest'', ''foo:1''],
                RepoDigests = [], Created = 0, Size = 1048576\<rparr>"

definition demo_img2 :: image where
  "demo_img2 = \<lparr>ID = ''fedcba9876543210fedc'', RepoTags = [''<none>:<none>''],
                RepoDigests = [''<none>@<none>''], Created = 0, Size = 2048\<rparr>"

definition demo_bad :: image where
  "demo_bad = \<lparr>ID = ''00badbadbadbadbadbad'', RepoTags = ['':latest''], RepoDigests = [],
               Created = 0, Size = 1\<rparr>"

definition demo_env :: "image list \<Rightarrow> unit cli_env" where
  "demo_env imgs = \<lparr>ParseFlag = (\<lambda>f a. if f = ''bad'' then Inl (GoError ''bad filter'') else Inr a),
     NewArgs = (), ImageList = (\<lambda>opts. Inr imgs), ParseNamed = ParseNamed_simple,
     Now = (\<lambda>k. time_Unix (3600 * (int k + 1)) 0),
     HumanDuration = (\<lambda>d. if d = 3600000000000 then ''1 hour''
                          else if d = 7200000000000 then ''2 hours'' else ''3 hours''),
     HumanSize = (\<lambda>s. if s = 1048576 then ''1MB'' else ''2kB'')\<rparr>"

definition demo_flags :: "bool \<Rightarrow> images_flags" where
  "demo_flags q = \<lparr>quiet = q, all = False, noTrunc = False, showDigests = False, flFilter = []\<rparr>"

text \<open>
  An environment with the filters package, whose daemon lists the first demo image
  when asked for dangling images and nothing otherwise.
\<close>

definition demo_filter_env :: "filter_args cli_env" where
  "demo_filter_env = \<lparr>ParseFlag = filters_ParseFlag, NewArgs = filters_NewArgs,
     ImageList = (\<lambda>opts. Inr (if Filters opts ''dangling'' = Some {''true''} then [demo_img1] else [])),
     ParseNamed = ParseNamed_simple, Now = (\<lambda>k. time_Unix (3600 * (int k + 1)) 0),
     HumanDuration = (\<lambda>d. ''1 hour''), HumanSize = (\<lambda>s. ''1MB'')\<rparr>"

lemmas demo_defs = demo_img1_def demo_img2_def demo_bad_def demo_env_def demo_flags_def


subsection \<open>The command implements the listing\<close>

text \<open>
  C1: When the filters parse and the daemon returns the images, a listing that succeeds is
  exactly what the command delivers and the command returns nil (with -q, for IDs
  without tabs).
\<close>

theorem CmdImages_refines_listing:
  assumes "parse_filters (ParseFlag env) (flFilter fl) (NewArgs env) = Inr fa"
    and "ImageList env \<lparr>MatchName = match_name args, All_images = all fl, Filters = fa\<rparr> = Inr images"
    and "listing env fl images = Inr out"
    and "quiet fl \<longrightarrow> (\<forall>img \<in> set images. tab_free (display_id fl (ID img)))"
  shows "fst (CmdImages env fl args) = None \<and> stdout (CmdImages env fl args) = out"
proof -
  let ?P = "ParseNamed env"
  obtain rows where scan: "scan_images ?P images = (None, rows)"
    and out: "out = (if quiet fl then [] else [header_line fl]) @ row_lines env fl 0 rows"
    using assms(3) by (auto simp: listing_def reconcile_images_scan split: prod.splits option.splits)
  have loop: "images_loop env fl images (write_header fl init_state) =
                (None, emit_all env fl rows (write_header fl init_state))"
    by (simp add: images_loop_scan scan)
  show ?thesis
  proof (cases "quiet fl")
    case False
    then show ?thesis
      using CmdImages_listed [OF assms(1,2)] loop header_state [of fl]
      by (simp add: stdout_def out emit_all_written)
  next
    case True
    have "\<forall>(img, r) \<in> set rows. tab_free (display_id fl (ID img))"
      using scan_images_rows_from [of _ ?P images] scan assms(4) True by fastforce
    with True show ?thesis
      using CmdImages_listed [OF assms(1,2)] loop
      by (simp add: stdout_def out quiet_out)
  qed
qed



theorem CmdImages_refines_listing_witness:
  "parse_filters (ParseFlag (demo_env [demo_img1, demo_img2])) (flFilter (demo_flags False))
      (NewArgs (demo_env [demo_img1, demo_img2])) = Inr () \<and>
   ImageList (demo_env [demo_img1, demo_img2])
      \<lparr>MatchName = match_name [], All_images = all (demo_flags False), Filters = ()\<rparr> =
      Inr [demo_img1, demo_img2] \<and>
   listing (demo_env [demo_img1, demo_img2]) (demo_flags False) [demo_img1, demo_img2] =
      Inr [tab_join [''REPOSITORY'', ''TAG'', ''IMAGE ID'', ''CREATED'', ''SIZE''],
           tab_join [''library/foo'', ''latest'', ''0123456789ab'', ''1 hour ago'', ''1MB''],
           tab_join [''foo'', ''1'', ''0123456789ab'', ''2 hours ago'', ''1MB''],
           tab_join [''<none>'', ''<none>'', ''fedcba987654'', ''3 hours ago'', ''2kB'']] \<and>
   fst (CmdImages (demo_env [demo_img1, demo_img2]) (demo_flags False) []) = None \<and>
   stdout (CmdImages (demo_env [demo_img1, demo_img2]) (demo_flags False) []) =
      [tab_join [''REPOSITORY'', ''TAG'', ''IMAGE ID'', ''CREATED'', ''SIZE''],
       tab_join [''library/foo'', ''latest'', ''0123456789ab'', ''1 hour ago'', ''1MB''],
       tab_join [''foo'', ''1'', ''0123456789ab'', ''2 hours ago'', ''1MB''],
       tab_join [''<none>'', ''<none>'', ''fedcba987654'', ''3 hours ago'', ''2kB'']]"
proof -
  let ?e = "demo_env [demo_img1, demo_img2]" and ?fl = "demo_flags False"
  have h1: "parse_filters (ParseFlag ?e) (flFilter ?fl) (NewArgs ?e) = Inr ()"
    by (simp add: demo_defs)
  have h2: "ImageList ?e \<lparr>MatchName = match_name [], All_images = all ?fl, Filters = ()\<rparr> =
              Inr [demo_img1, demo_img2]"
    by (simp add: demo_defs)
  have h3: "listing ?e ?fl [demo_img1, demo_img2] =
      Inr [tab_join [''REPOSITORY'', ''TAG'', ''IMAGE ID'', ''CREATED'', ''SIZE''],
           tab_join [''library/foo'', ''latest'', ''0123456789ab'', ''1 hour ago'', ''1MB''],
           tab_join [''foo'', ''1'', ''0123456789ab'', ''2 hours ago'', ''1MB''],
           tab_join [''<none>'', ''<none>'', ''fedcba987654'', ''3 hours ago'', ''2kB'']]"
    by (simp add: listing_def demo_defs model_simps)
  have h4: "quiet ?fl \<longrightarrow> (\<forall>img \<in> set [demo_img1, demo_img2]. tab_free (display_id ?fl (ID img)))"
    by (simp add: demo_defs)
  from h1 h2 h3 h4 CmdImages_refines_listing [OF h1 h2 h3 h4] show ?thesis by blast
qed

text \<open>C5: Without -q, a parse error leaves the terminal untouched: the error is returned and nothing is delivered.\<close>

theorem CmdImages_error_no_output:
  assumes "\<not> quiet fl"
    and "parse_filters (ParseFlag env) (flFilter fl) (NewArgs env) = Inr fa"
    and "ImageList env \<lparr>MatchName = match_name args, All_images = all fl, Filters = fa\<rparr> = Inr images"
    and "listing env fl images = Inl err"
  shows "fst (CmdImages env fl args) = Some err \<and> stdout (CmdImages env fl args) = []"
proof -
  from assms(4) have "fst (scan_images (ParseNamed env) images) = Some err"
    by (auto simp: listing_def reconcile_images_scan split: prod.splits option.splits sum.splits)
  with CmdImages_stdout_not_quiet [OF assms(1-3)] show ?thesis by simp
qed


theorem CmdImages_error_no_output_witness:
  "fst (CmdImages (demo_env [demo_img1, demo_bad]) (demo_flags False) []) =
     Some (GoError ''invalid reference format'') \<and>
   stdout (CmdImages (demo_env [demo_img1, demo_bad]) (demo_flags False) []) = []"
proof -
  let ?e = "demo_env [demo_img1, demo_bad]" and ?fl = "demo_flags False"
  have h1: "\<not> quiet ?fl" by (simp add: demo_defs)
  have h2: "parse_filters (ParseFlag ?e) (flFilter ?fl) (NewArgs ?e) = Inr ()"
    by (simp add: demo_defs)
  have h3: "ImageList ?e \<lparr>MatchName = match_name [], All_images = all ?fl, Filters = ()\<rparr> =
              Inr [demo_img1, demo_bad]"
    by (simp add: demo_defs)
  have h4: "listing ?e ?fl [demo_img1, demo_bad] = Inl (GoError ''invalid reference format'')"
    by (simp add: listing_def demo_defs model_simps)
  from CmdImages_error_no_output [OF h1 h2 h3 h4] show ?thesis .
qed

text \<open>C6: With -q, the IDs of the rows before a parse error are already on the terminal when the error is returned.\<close>

theorem CmdImages_quiet_partial_output:
  assumes "quiet fl"
    and "parse_filters (ParseFlag env) (flFilter fl) (NewArgs env) = Inr fa"
    and "ImageList env \<lparr>MatchName = match_name args, All_images = all fl, Filters = fa\<rparr> = Inr images"
    and "\<forall>img \<in> set images. tab_free (display_id fl (ID img))"
    and "scan_images (ParseNamed env) images = (Some err, done)"
  shows "fst (CmdImages env fl args) = Some err \<and>
         stdout (CmdImages env fl args) = map (\<lambda>(img, r). display_id fl (ID img)) done"
  using CmdImages_stdout_quiet [OF assms(1-4)] assms(5) by simp


theorem CmdImages_quiet_partial_output_witness:
  "fst (CmdImages (demo_env [demo_img1, demo_bad]) (demo_flags True) []) =
     Some (GoError ''invalid reference format'') \<and>
   stdout (CmdImages (demo_env [demo_img1, demo_bad]) (demo_flags True) []) =
     [''0123456789ab'', ''0123456789ab'']"
proof -
  let ?e = "demo_env [demo_img1, demo_bad]" and ?fl = "demo_flags True"
  have h1: "quiet ?fl" by (simp add: demo_defs)
  have h2: "parse_filters (ParseFlag ?e) (flFilter ?fl) (NewArgs ?e) = Inr ()"
    by (simp add: demo_defs)
  have h3: "ImageList ?e \<lparr>MatchName = match_name [], All_images = all ?fl, Filters = ()\<rparr> =
              Inr [demo_img1, demo_bad]"
    by (simp add: demo_defs)
  have h4: "\<forall>img \<in> set [demo_img1, demo_bad]. tab_free (display_id ?fl (ID img))"
    by (simp add: demo_defs model_simps)
  have h5: "scan_images (ParseNamed ?e) [demo_img1, demo_bad] =
     (Some (GoError ''invalid reference format''),
      [(demo_img1, \<lparr>repo = ''library/foo'', tag = ''latest'', digest = ''<none>''\<rparr>),
       (demo_img1, \<lparr>repo = ''foo'', tag = ''1'', digest = ''<none>''\<rparr>)])"
    by (simp add: demo_defs model_simps)
  from CmdImages_quiet_partial_output [OF h1 h2 h3 h4 h5] show ?thesis
    by (simp add: demo_defs model_simps)
qed

text \<open>C7: With -q, every delivered line is a single cell, the displayed ID of a listed image, whatever --digests says.\<close>

theorem CmdImages_quiet_ids_only:
  assumes "quiet fl"
    and "\<forall>opts imgs. ImageList env opts = Inr imgs \<longrightarrow> (\<forall>img \<in> set imgs. tab_free (display_id fl (ID img)))"
  shows "\<forall>l \<in> set (stdout (CmdImages env fl args)).
           length (cells l) = 1 \<and>
           (\<exists>opts imgs img. ImageList env opts = Inr imgs \<and> img \<in> set imgs \<and> l = display_id fl (ID img))"
proof (cases "parse_filters (ParseFlag env) (flFilter fl) (NewArgs env)")
  case (Inl err)
  then show ?thesis by (simp add: CmdImages_def stdout_def init_state_def NewWriter_def)
next
  case (Inr fa)
  let ?o = "\<lparr>MatchName = match_name args, All_images = all fl, Filters = fa\<rparr>"
  show ?thesis
  proof (cases "ImageList env ?o")
    case (Inl err)
    with Inr show ?thesis by (simp add: CmdImages_def stdout_def init_state_def NewWriter_def)
  next
    case (Inr images)
    have tf: "\<forall>img \<in> set images. tab_free (display_id fl (ID img))"
      using assms(2) Inr by blast
    have "\<forall>x \<in> set (snd (scan_images (ParseNamed env) images)).
            length (cells (display_id fl (ID (fst x)))) = 1 \<and>
            (\<exists>opts imgs img. ImageList env opts = Inr imgs \<and> img \<in> set imgs \<and>
               display_id fl (ID (fst x)) = display_id fl (ID img))"
      using scan_images_rows_from [of _ "ParseNamed env" images] tf Inr by (fastforce simp: length_cells_one_iff)
    with CmdImages_stdout_quiet [OF assms(1) \<open>parse_filters _ _ _ = Inr fa\<close> Inr tf] show ?thesis
      by (force simp: split_beta)
  qed
qed


theorem CmdImages_quiet_ids_only_witness:
  "stdout (CmdImages (demo_env [demo_img1, demo_img2]) (demo_flags True) []) =
     [''0123456789ab'', ''0123456789ab'', ''fedcba987654''] \<and>
   length (cells ''fedcba987654'') = 1 \<and>
   (\<exists>opts imgs img. ImageList (demo_env [demo_img1, demo_img2]) opts = Inr imgs \<and> img \<in> set imgs \<and>
      ''fedcba987654'' = display_id (demo_flags True) (ID img))"
proof -
  let ?e = "demo_env [demo_img1, demo_img2]" and ?fl = "demo_flags True"
  have h1: "quiet ?fl" by (simp add: demo_defs)
  have h2: "\<forall>opts imgs. ImageList ?e opts = Inr imgs \<longrightarrow>
              (\<forall>img \<in> set imgs. tab_free (display_id ?fl (ID img)))"
    by (simp add: demo_defs model_simps)
  have out: "stdout (CmdImages ?e ?fl []) = [''0123456789ab'', ''0123456789ab'', ''fedcba987654'']"
    by (simp add: demo_defs model_simps)
  have "''fedcba987654'' \<in> set (stdout (CmdImages ?e ?fl []))"
    by (simp add: out)
  with CmdImages_quiet_ids_only [OF h1 h2, of "[]"]
  have "length (cells ''fedcba987654'') = 1 \<and>
        (\<exists>opts imgs img. ImageList ?e opts = Inr imgs \<and> img \<in> set imgs \<and>
           ''fedcba987654'' = display_id ?fl (ID img))"
    by blast
  with out show ?thesis by blast
qed

text \<open>C9: A successful non-quiet listing delivers the header and exactly one row per reference string left after the collapse.\<close>

theorem CmdImages_one_row_per_reference:
  assumes "\<not> quiet fl"
    and "parse_filters (ParseFlag env) (flFilter fl) (NewArgs env) = Inr fa"
    and "ImageList env \<lparr>MatchName = match_name args, All_images = all fl, Filters = fa\<rparr> = Inr images"
    and "fst (CmdImages env fl args) = None"
  shows "length (stdout (CmdImages env fl args)) = 1 + sum_list (map (length \<circ> tagsAndDigests) images)"
proof -
  note out = CmdImages_stdout_not_quiet [OF assms(1-3)]
  with assms(4) have "fst (scan_images (ParseNamed env) images) = None" by simp
  with out show ?thesis by (simp add: scan_images_length)
qed



theorem CmdImages_one_row_per_reference_witness:
  "length (stdout (CmdImages (demo_env [demo_img1, demo_img2]) (demo_flags False) [])) =
     1 + sum_list (map (length \<circ> tagsAndDigests) [demo_img1, demo_img2]) \<and>
   sum_list (map (length \<circ> tagsAndDigests) [demo_img1, demo_img2]) = 3"
proof -
  let ?e = "demo_env [demo_img1, demo_img2]" and ?fl = "demo_flags False"
  have h1: "\<not> quiet ?fl" by (simp add: demo_defs)
  have h2: "parse_filters (ParseFlag ?e) (flFilter ?fl) (NewArgs ?e) = Inr ()"
    by (simp add: demo_defs)
  have h3: "ImageList ?e \<lparr>MatchName = match_name [], All_images = all ?fl, Filters = ()\<rparr> =
              Inr [demo_img1, demo_img2]"
    by (simp add: demo_defs)
  have h4: "fst (CmdImages ?e ?fl []) = None"
    by (simp add: demo_defs model_simps)
  have "sum_list (map (length \<circ> tagsAndDigests) [demo_img1, demo_img2]) = 3"
    by (simp add: demo_defs model_simps)
  with CmdImages_one_row_per_reference [OF h1 h2 h3 h4] show ?thesis by simp
qed



subsection \<open>Buffering and flags\<close>

text \<open>C25: Nothing written is left in the writer at the end of a successful run, nor of any run with -q (IDs without tabs).\<close>

theorem CmdImages_nothing_left_buffered:
  assumes "fst (CmdImages env fl args) = None \<or> quiet fl"
    and "\<forall>opts imgs. ImageList env opts = Inr imgs \<longrightarrow> (\<forall>img \<in> set imgs. tab_free (display_id fl (ID img)))"
  shows "tw_pending (writer (snd (CmdImages env fl args))) = []"
proof (cases "parse_filters (ParseFlag env) (flFilter fl) (NewArgs env)")
  case (Inl err)
  then show ?thesis by (simp add: CmdImages_def init_state_def NewWriter_def)
next
  case (Inr fa)
  let ?o = "\<lparr>MatchName = match_name args, All_images = all fl, Filters = fa\<rparr>"
  show ?thesis
  proof (cases "ImageList env ?o")
    case (Inl err)
    with Inr show ?thesis by (simp add: CmdImages_def init_state_def NewWriter_def)
  next
    case (Inr images)
    let ?sc = "scan_images (ParseNamed env) images"
    have run: "CmdImages env fl args =
                 (case (fst ?sc, emit_all env fl (snd ?sc) (write_header fl init_state)) of
                    (Some err, st) \<Rightarrow> (Some err, st)
                  | (None, st) \<Rightarrow> (None, if \<not> quiet fl then st\<lparr>writer := tw_step (writer st) Flush\<rparr> else st))"
      using CmdImages_listed [OF \<open>parse_filters _ _ _ = Inr fa\<close> Inr] by (simp add: images_loop_scan)
    show ?thesis
    proof (cases "quiet fl")
      case True
      have "\<forall>(img, r) \<in> set (snd ?sc). tab_free (display_id fl (ID img))"
        using scan_images_rows_from [of _ "ParseNamed env" images] assms(2) Inr by fastforce
      with True have "tw_pending (writer (emit_all env fl (snd ?sc) (write_header fl init_state))) = []"
        by (rule quiet_pending)
      with True show ?thesis by (simp add: run split: option.split)
    next
      case False
      with assms(1) run show ?thesis
        by (auto simp: tw_flush_def split: option.splits)
    qed
  qed
qed

theorem CmdImages_nothing_left_buffered_witness:
  "tw_pending (writer (snd (CmdImages (demo_env [demo_img1, demo_bad]) (demo_flags True) []))) = []"
proof -
  have h1: "fst (CmdImages (demo_env [demo_img1, demo_bad]) (demo_flags True) []) = None \<or>
            quiet (demo_flags True)"
    by (simp add: demo_flags_def)
  have h2: "\<forall>opts imgs. ImageList (demo_env [demo_img1, demo_bad]) opts = Inr imgs \<longrightarrow>
              (\<forall>img \<in> set imgs. tab_free (display_id (demo_flags True) (ID img)))"
    by (simp add: demo_defs model_simps)
  from CmdImages_nothing_left_buffered [OF h1 h2] show ?thesis .
qed

text \<open>C26: -q takes precedence: with -q, --digests changes nothing that CmdImages does.\<close>

theorem CmdImages_quiet_ignores_digests:
  assumes "quiet fl"
  shows "CmdImages env (fl\<lparr>showDigests := b\<rparr>) args = CmdImages env fl args"
  using assms
  by (simp add: CmdImages_def write_header_def images_loop_quiet_showDigests
        split: sum.split prod.split option.split)

theorem CmdImages_quiet_ignores_digests_witness:
  "CmdImages (demo_env [demo_img1, demo_bad]) ((demo_flags True)\<lparr>showDigests := True\<rparr>) [] =
   CmdImages (demo_env [demo_img1, demo_bad]) (demo_flags True) []"
proof -
  have "quiet (demo_flags True)" by (simp add: demo_flags_def)
  from CmdImages_quiet_ignores_digests [OF this] show ?thesis .
qed

subsection \<open>Errors before the listing\<close>

text \<open>C16: A filter that does not parse is returned before the daemon is asked, and nothing is written.\<close>

theorem CmdImages_filter_error:
  assumes "parse_filters (ParseFlag env) (flFilter fl) (NewArgs env) = Inl err"
  shows "CmdImages env fl args = (Some err, init_state) \<and> stdout (CmdImages env fl args) = []"
  using assms by (simp add: CmdImages_def stdout_def init_state_def NewWriter_def)

theorem CmdImages_filter_error_witness:
  "CmdImages (demo_env [demo_img1]) ((demo_flags False)\<lparr>flFilter := [''dangling=true'', ''bad'']\<rparr>) [] =
     (Some (GoError ''bad filter''), init_state)"
proof -
  have h: "parse_filters (ParseFlag (demo_env [demo_img1]))
             (flFilter ((demo_flags False)\<lparr>flFilter := [''dangling=true'', ''bad'']\<rparr>))
             (NewArgs (demo_env [demo_img1])) = Inl (GoError ''bad filter'')"
    by (simp add: demo_defs)
  from CmdImages_filter_error [OF h] show ?thesis by blast
qed

text \<open>C17: An error of the daemon's image list is returned verbatim, and nothing is written.\<close>

theorem CmdImages_list_error:
  assumes "parse_filters (ParseFlag env) (flFilter fl) (NewArgs env) = Inr fa"
    and "ImageList env \<lparr>MatchName = match_name args, All_images = all fl, Filters = fa\<rparr> = Inl err"
  shows "CmdImages env fl args = (Some err, init_state) \<and> stdout (CmdImages env fl args) = []"
  using assms by (simp add: CmdImages_def stdout_def init_state_def NewWriter_def)

theorem CmdImages_list_error_witness:
  "CmdImages ((demo_env [])\<lparr>ImageList := (\<lambda>opts. Inl (GoError ''daemon unreachable''))\<rparr>)
     (demo_flags False) [] = (Some (GoError ''daemon unreachable''), init_state)"
proof -
  let ?e = "(demo_env [])\<lparr>ImageList := (\<lambda>opts. Inl (GoError ''daemon unreachable''))\<rparr>"
  have h1: "parse_filters (ParseFlag ?e) (flFilter (demo_flags False)) (NewArgs ?e) = Inr ()"
    by (simp add: demo_defs)
  have h2: "ImageList ?e \<lparr>MatchName = match_name [], All_images = all (demo_flags False), Filters = ()\<rparr> =
              Inl (GoError ''daemon unreachable'')"
    by simp
  from CmdImages_list_error [OF h1 h2] show ?thesis by blast
qed

text \<open>C19: The daemon is asked for exactly one options value: the single positional argument as match pattern, the -a flag and the parsed filters.\<close>

theorem CmdImages_forwards_options:
  assumes "parse_filters (ParseFlag env) (flFilter fl) (NewArgs env) = Inr fa"
  shows "CmdImages env fl args =
           CmdImages (env\<lparr>ImageList := (\<lambda>_. ImageList env
              \<lparr>MatchName = (if length args = 1 then hd args else []), All_images = all fl,
               Filters = fa\<rparr>)\<rparr>) fl args"
proof -
  have "match_name args = (if length args = 1 then hd args else [])"
    by (cases args) (auto simp: match_name_def)
  with assms show ?thesis by (simp add: CmdImages_def split: sum.split)
qed

theorem CmdImages_forwards_options_witness:
  "CmdImages (demo_env [demo_img1]) (demo_flags True) [''library/foo''] =
   CmdImages ((demo_env [demo_img1])\<lparr>ImageList := (\<lambda>_. ImageList (demo_env [demo_img1])
      \<lparr>MatchName = ''library/foo'', All_images = False, Filters = ()\<rparr>)\<rparr>) (demo_flags True) [''library/foo'']"
proof -
  have h: "parse_filters (ParseFlag (demo_env [demo_img1])) (flFilter (demo_flags True))
             (NewArgs (demo_env [demo_img1])) = Inr ()"
    by (simp add: demo_defs)
  from CmdImages_forwards_options [OF h] show ?thesis by (simp add: demo_defs)
qed

text \<open>
  C29: \<^verbatim>\<open>time.Now()\<close> is called exactly once for every row written without
  \<^verbatim>\<open>-q\<close> (also when a later reference fails), and never with \<^verbatim>\<open>-q\<close>.
\<close>

theorem CmdImages_clock_reads:
  assumes "parse_filters (ParseFlag env) (flFilter fl) (NewArgs env) = Inr fa"
    and "ImageList env \<lparr>MatchName = match_name args, All_images = all fl, Filters = fa\<rparr> = Inr images"
  shows "clock (snd (CmdImages env fl args)) =
           (if quiet fl then 0 else length (snd (scan_images (ParseNamed env) images)))"
  using header_state [of fl]
  by (cases "scan_images (ParseNamed env) images")
     (auto simp: CmdImages_listed [OF assms] images_loop_scan emit_all_clock split: option.splits)

theorem CmdImages_clock_reads_witness:
  "clock (snd (CmdImages (demo_env [demo_img1, demo_img2]) (demo_flags False) [])) = 3"
proof -
  let ?e = "demo_env [demo_img1, demo_img2]" and ?fl = "demo_flags False"
  have h1: "parse_filters (ParseFlag ?e) (flFilter ?fl) (NewArgs ?e) = Inr ()"
    by (simp add: demo_defs)
  have h2: "ImageList ?e \<lparr>MatchName = match_name [], All_images = all ?fl, Filters = ()\<rparr> =
              Inr [demo_img1, demo_img2]"
    by (simp add: demo_defs)
  have "length (snd (scan_images (ParseNamed ?e) [demo_img1, demo_img2])) = 3"
    by (simp add: demo_defs model_simps)
  with CmdImages_clock_reads [OF h1 h2] show ?thesis by (simp add: demo_flags_def)
qed

theorem CmdImages_main_match_name_witness:
  "match_name [''ubuntu''] = ''ubuntu'' \<and>
   CmdImages_main (demo_env [demo_img1]) [''-a'', ''ubuntu''] =
     Some (Returned (CmdImages (demo_env [demo_img1]) \<lparr>quiet = False, all = True, noTrunc = False, showDigests = False,
                                    flFilter = []\<rparr> [''ubuntu'']))"
proof -
  have "images_cmd_flags [''-a'', ''ubuntu''] =
          Some (Inr (\<lparr>quiet = False, all = True, noTrunc = False, showDigests = False, flFilter = []\<rparr>,
                     [''ubuntu'']))"
    by (simp add: model_simps Parse_loop_steps parseOne_def)
  from CmdImages_main_match_name [OF this, of "demo_env [demo_img1]"] show ?thesis by simp
qed

text \<open>Without \<^verbatim>\<open>-q\<close>, a run that succeeds shows the header and all rows laid out as
  one table: the terminal text is \<^verbatim>\<open>tabwriter\<close>'s format of exactly the lines
  delivered, with the settings of line 62.\<close>

lemma CmdImages_display_one_table:
  assumes "\<not> quiet fl" and "fst (CmdImages env fl args) = None"
  shows "tw_display (writer (snd (CmdImages env fl args))) =
           format (tw_cfg (writer init_state)) [] (map cells (stdout (CmdImages env fl args)))"
proof (cases "parse_filters (ParseFlag env) (flFilter fl) (NewArgs env)")
  case (Inl err)
  with assms(2) show ?thesis by (simp add: CmdImages_def)
next
  case (Inr fa)
  let ?o = "\<lparr>MatchName = match_name args, All_images = all fl, Filters = fa\<rparr>"
  show ?thesis
  proof (cases "ImageList env ?o")
    case (Inl err)
    with Inr assms(2) show ?thesis by (simp add: CmdImages_def)
  next
    case (Inr images)
    let ?sc = "scan_images (ParseNamed env) images"
    let ?st = "emit_all env fl (snd ?sc) (write_header fl init_state)"
    have run: "CmdImages env fl args =
                 (case (fst ?sc, ?st) of
                    (Some err, st) \<Rightarrow> (Some err, st)
                  | (None, st) \<Rightarrow> (None, if \<not> quiet fl then st\<lparr>writer := tw_step (writer st) Flush\<rparr> else st))"
      using CmdImages_listed [OF \<open>parse_filters _ _ _ = Inr fa\<close> Inr] by (simp add: images_loop_scan)
    with assms(2) have ok: "fst ?sc = None" by (auto split: option.splits)
    have "tw_display (writer ?st) = [] \<and> tw_cfg (writer ?st) = tw_cfg (writer init_state)"
      using emit_all_display_not_quiet [OF assms(1)] header_display by metis
    moreover have "tw_out (writer ?st) = []"
      using emit_all_out_not_quiet [OF assms(1)] header_state by metis
    ultimately show ?thesis using run ok assms(1)
      by (simp add: stdout_def tw_flush_def tw_written_def)
  qed
qed


text \<open>C33: columns line up: when the lines a successful run without \<^verbatim>\<open>-q\<close> delivers all
  have the same number of cells, cell \<open>j\<close> of every line shown on the terminal starts at
  the same position, the sum of the widths of the columns to its left.\<close>

theorem CmdImages_display_aligned:
  assumes "\<not> quiet fl" and "fst (CmdImages env fl args) = None"
    and "\<forall>s\<in>set (stdout (CmdImages env fl args)). length (cells s) = Suc k"
    and "i < length (stdout (CmdImages env fl args))" and "j \<le> k"
  shows "take (length (cells (stdout (CmdImages env fl args) ! i) ! j))
           (drop (sum_list (take j (map (col_width (tw_cfg (writer init_state))
                                           (map cells (stdout (CmdImages env fl args)))) [0..<k])))
             (tw_display (writer (snd (CmdImages env fl args))) ! i))
         = cells (stdout (CmdImages env fl args) ! i) ! j"
proof -
  let ?ls = "map cells (stdout (CmdImages env fl args))"
  have "\<forall>l\<in>set ?ls. length l = Suc k" using assms(3) by auto
  from format_table_aligned [OF this, of i j "tw_cfg (writer init_state)"] assms(4,5)
  show ?thesis by (simp add: CmdImages_display_one_table [OF assms(1,2)])
qed

text \<open>C34: with the settings of line 62, every column of such a listing is at least 20
  characters wide, and in every line the text of a cell is followed by spaces up to the
  column's width, at least 3 of them.\<close>

theorem CmdImages_display_padding:
  assumes "\<not> quiet fl" and "fst (CmdImages env fl args) = None"
    and "\<forall>s\<in>set (stdout (CmdImages env fl args)). length (cells s) = Suc k"
    and "i < length (stdout (CmdImages env fl args))" and "j < k"
  shows "drop (length (cells (stdout (CmdImages env fl args) ! i) ! j))
           (take (col_width (tw_cfg (writer init_state)) (map cells (stdout (CmdImages env fl args))) j)
             (drop (sum_list (take j (map (col_width (tw_cfg (writer init_state))
                                             (map cells (stdout (CmdImages env fl args)))) [0..<k])))
               (tw_display (writer (snd (CmdImages env fl args))) ! i)))
         = replicate (col_width (tw_cfg (writer init_state)) (map cells (stdout (CmdImages env fl args))) j
                        - length (cells (stdout (CmdImages env fl args) ! i) ! j)) CHR '' ''
       \<and> 3 \<le> col_width (tw_cfg (writer init_state)) (map cells (stdout (CmdImages env fl args))) j
                - length (cells (stdout (CmdImages env fl args) ! i) ! j)
       \<and> 20 \<le> col_width (tw_cfg (writer init_state)) (map cells (stdout (CmdImages env fl args))) j"
proof -
  let ?ls = "map cells (stdout (CmdImages env fl args))"
  have "\<forall>l\<in>set ?ls. length l = Suc k" using assms(3) by auto
  from format_table_padding [OF this, of i j "tw_cfg (writer init_state)"] assms(4,5)
  show ?thesis by (simp add: CmdImages_display_one_table [OF assms(1,2)] init_state_def NewWriter_def)
qed


lemma demo_listing_lines:
  "stdout (CmdImages (demo_env [demo_img1]) (demo_flags False) []) =
     [tab_join [''REPOSITORY'', ''TAG'', ''IMAGE ID'', ''CREATED'', ''SIZE''],
      tab_join [''library/foo'', ''latest'', ''0123456789ab'', ''1 hour ago'', ''1MB''],
      tab_join [''foo'', ''1'', ''0123456789ab'', ''2 hours ago'', ''1MB'']]
   \<and> fst (CmdImages (demo_env [demo_img1]) (demo_flags False) []) = None"
  by (simp add: demo_defs model_simps)

theorem CmdImages_display_aligned_witness:
  "take 12 (drop 40 (tw_display (writer (snd (CmdImages (demo_env [demo_img1]) (demo_flags False) []))) ! 1))
     = ''0123456789ab''"
  using CmdImages_display_aligned [of "demo_flags False" "demo_env [demo_img1]" "[]" 4 1 2]
    demo_listing_lines
  by (simp add: demo_flags_def cells_tab_join col_width_def init_state_def NewWriter_def numeral_eq_Suc)

theorem CmdImages_display_padding_witness:
  "drop 11 (take 20 (tw_display (writer (snd (CmdImages (demo_env [demo_img1]) (demo_flags False) []))) ! 1))
     = replicate 9 CHR '' ''"
  using CmdImages_display_padding [of "demo_flags False" "demo_env [demo_img1]" "[]" 4 1 0]
    demo_listing_lines
  by (simp add: demo_flags_def cells_tab_join col_width_def init_state_def NewWriter_def numeral_eq_Suc)

text \<open>C35: with \<^verbatim>\<open>-q\<close> (and IDs without tabs) the terminal shows exactly the lines
  delivered: each ID is flushed on its own and formatting leaves a single-cell line as
  it is, also when a later reference fails to parse.\<close>

theorem CmdImages_quiet_display:
  assumes "quiet fl"
    and "\<forall>opts imgs. ImageList env opts = Inr imgs \<longrightarrow> (\<forall>img \<in> set imgs. tab_free (display_id fl (ID img)))"
  shows "tw_display (writer (snd (CmdImages env fl args))) = stdout (CmdImages env fl args)"
proof (cases "parse_filters (ParseFlag env) (flFilter fl) (NewArgs env)")
  case (Inl err)
  then show ?thesis by (simp add: CmdImages_def stdout_def init_state_def NewWriter_def)
next
  case (Inr fa)
  let ?o = "\<lparr>MatchName = match_name args, All_images = all fl, Filters = fa\<rparr>"
  show ?thesis
  proof (cases "ImageList env ?o")
    case (Inl err)
    with Inr show ?thesis by (simp add: CmdImages_def stdout_def init_state_def NewWriter_def)
  next
    case (Inr images)
    let ?sc = "scan_images (ParseNamed env) images"
    let ?st = "emit_all env fl (snd ?sc) (write_header fl init_state)"
    have run: "CmdImages env fl args =
                 (case (fst ?sc, ?st) of
                    (Some err, st) \<Rightarrow> (Some err, st)
                  | (None, st) \<Rightarrow> (None, if \<not> quiet fl then st\<lparr>writer := tw_step (writer st) Flush\<rparr> else st))"
      using CmdImages_listed [OF \<open>parse_filters _ _ _ = Inr fa\<close> Inr] by (simp add: images_loop_scan)
    have tf: "\<forall>(img, r) \<in> set (snd ?sc). tab_free (display_id fl (ID img))"
      using scan_images_rows_from [of _ "ParseNamed env" images] assms(2) Inr by fastforce
    have "tw_pending (writer (write_header fl init_state)) = []"
      using assms(1) by (simp add: write_header_def init_state_def NewWriter_def)
    then have "tw_display (writer ?st) = tw_display (writer (write_header fl init_state)) @
                 row_lines env fl (clock (write_header fl init_state)) (snd ?sc)"
      by (rule emit_all_display_quiet [OF assms(1) tf])
    then have "tw_display (writer ?st) = row_lines env fl 0 (snd ?sc)"
      using header_display [of fl] header_state [of fl] by simp
    moreover have "tw_out (writer ?st) = row_lines env fl 0 (snd ?sc)"
      using assms(1) tf by (rule quiet_out)
    ultimately show ?thesis using run assms(1)
      by (simp add: stdout_def split: option.splits)
  qed
qed

theorem CmdImages_quiet_display_witness:
  "tw_display (writer (snd (CmdImages (demo_env [demo_img1, demo_bad]) (demo_flags True) []))) =
     [''0123456789ab'', ''0123456789ab'']"
proof -
  let ?e = "demo_env [demo_img1, demo_bad]" and ?fl = "demo_flags True"
  have h1: "quiet ?fl" by (simp add: demo_defs)
  have h2: "\<forall>opts imgs. ImageList ?e opts = Inr imgs \<longrightarrow>
              (\<forall>img \<in> set imgs. tab_free (display_id ?fl (ID img)))"
    by (simp add: demo_defs model_simps)
  have "stdout (CmdImages ?e ?fl []) = [''0123456789ab'', ''0123456789ab'']"
    by (simp add: demo_defs model_simps)
  with CmdImages_quiet_display [OF h1 h2, of "[]"] show ?thesis by simp
qed

subsection \<open>Scenarios\<close>

text \<open>
  The clock is read once per row, not once per listing: two rows of the same image,
  created at one instant, can show different ages.
\<close>

theorem CmdImages_reads_clock_per_row:
  "stdout (CmdImages (demo_env [demo_img1]) (demo_flags False) []) =
     [header_line (demo_flags False),
      tab_join [''library/foo'', ''latest'', ''0123456789ab'', ''1 hour ago'', ''1MB''],
      tab_join [''foo'', ''1'', ''0123456789ab'', ''2 hours ago'', ''1MB'']]"
  by (simp add: demo_defs model_simps)

theorem images_loop_buffers_until_flush_witness:
  "tw_out (writer (snd (images_loop (demo_env [demo_img1, demo_bad]) (demo_flags False)
      [demo_img1, demo_bad] (write_header (demo_flags False) init_state)))) = []"
proof -
  have h: "\<not> quiet (demo_flags False)" by (simp add: demo_flags_def)
  from images_loop_buffers_until_flush [OF h] show ?thesis .
qed

theorem header_matches_row_columns_witness:
  "length (cells (row_line (\<lambda>d. ''1 hour'') (\<lambda>s. ''1MB'') (demo_flags False) (time_Unix 3600 0) demo_img1
            ''0123456789ab'' \<lparr>repo = ''foo'', tag = ''1'', digest = ''<none>''\<rparr>)) = 5"
proof -
  have h1: "\<not> quiet (demo_flags False)" by (simp add: demo_flags_def)
  have h2: "list_all tab_free [repo \<lparr>repo = ''foo'', tag = ''1'', digest = ''<none>''\<rparr>,
              tag \<lparr>repo = ''foo'', tag = ''1'', digest = ''<none>''\<rparr>,
              digest \<lparr>repo = ''foo'', tag = ''1'', digest = ''<none>''\<rparr>, ''0123456789ab'',
              age_cell (\<lambda>d. ''1 hour'') (time_Unix 3600 0) demo_img1, size_cell (\<lambda>s. ''1MB'') demo_img1]"
    by (simp add: age_cell_def size_cell_def tab_free_def)
  from header_matches_row_columns [OF h1 h2] show ?thesis
    by (simp add: header_line_cells demo_flags_def)
qed

text \<open>What \<^verbatim>\<open>docker images\<close> shows for the first demo image.\<close>

lemma demo_display:
  "tw_display (writer (snd (CmdImages (demo_env [demo_img1]) (demo_flags False) []))) =
     [''REPOSITORY          TAG                 IMAGE ID            CREATED             SIZE'',
      ''library/foo         latest              0123456789ab        1 hour ago          1MB'',
      ''foo                 1                   0123456789ab        2 hours ago         1MB'']"
proof -
  have "stdout (CmdImages (demo_env [demo_img1]) (demo_flags False) []) =
     [tab_join [''REPOSITORY'', ''TAG'', ''IMAGE ID'', ''CREATED'', ''SIZE''],
      tab_join [''library/foo'', ''latest'', ''0123456789ab'', ''1 hour ago'', ''1MB''],
      tab_join [''foo'', ''1'', ''0123456789ab'', ''2 hours ago'', ''1MB'']]"
    by (simp add: demo_defs model_simps)
  moreover have "fst (CmdImages (demo_env [demo_img1]) (demo_flags False) []) = None"
    by (simp add: demo_defs model_simps)
  ultimately show ?thesis
    using CmdImages_display_one_table [of "demo_flags False" "demo_env [demo_img1]" "[]"]
    by (simp add: demo_flags_def init_state_def NewWriter_def writeLine_def pad_cell_def
                  cells_tab_join numeral_eq_Suc)
qed

text \<open>
  C28: With the filters package, only the set of \<^verbatim>\<open>--filter\<close> values matters:
  two runs whose filter lists have the same elements, in any order and with any
  repetitions, ask the daemon the same question and print the same output.
\<close>

theorem CmdImages_filters_order_independent:
  assumes "ParseFlag env = filters_ParseFlag" and "NewArgs env = filters_NewArgs"
    and "set fs = set gs"
  shows "CmdImages env (fl\<lparr>flFilter := fs\<rparr>) args = CmdImages env (fl\<lparr>flFilter := gs\<rparr>) args"
  using assms by (simp add: CmdImages_def parse_filters_filters_of cong: sum.case_cong prod.case_cong option.case_cong)

theorem CmdImages_filters_order_independent_witness:
  "CmdImages demo_filter_env ((demo_flags False)\<lparr>flFilter := [''dangling=true'', ''label=a'']\<rparr>) [] =
   CmdImages demo_filter_env ((demo_flags False)\<lparr>flFilter := [''label=a'', ''dangling=true'', ''label=a'']\<rparr>) []"
  using CmdImages_filters_order_independent [of demo_filter_env "[''dangling=true'', ''label=a'']"
      "[''label=a'', ''dangling=true'', ''label=a'']" "demo_flags False" "[]"]
  by (simp add: demo_filter_env_def insert_commute)

lemma resolve_ref_valid_reference:
  assumes "ref_valid r"
  shows "resolve_ref reference_ParseNamed (ref_String r) = Inr (ref_fields r none_row)"
  using ref_String_not_sentinel [OF assms] reference_ParseNamed_of_valid [OF refl assms]
  by (simp add: resolve_ref_def none_row_def del: ref_fields_def)

lemma resolve_valid_references:
  "list_all ref_valid xs \<Longrightarrow>
   list_all2 (\<lambda>s r. resolve_ref reference_ParseNamed s = Inr r)
     (map ref_String xs) (map (\<lambda>r. ref_fields r none_row) xs)"
  by (induction xs) (simp_all add: resolve_ref_valid_reference del: ref_fields_def)

text \<open>
  C27: With the reference parser of \<^verbatim>\<open>distribution/reference\<close>, a record whose tag and
  digest strings are the string forms of valid references reconciles without error into
  one row per string, in order (tags first): the row holds the reference's name and,
  as the type switch takes it, its digest if it has one, else its tag.
\<close>

theorem reconcile_with_reference_parser:
  assumes "list_all ref_valid (ts @ ds)"
    and "RepoTags img = map ref_String ts" and "RepoDigests img = map ref_String ds"
  shows "reconcile reference_ParseNamed img = Inr (map (\<lambda>r. ref_fields r none_row) (ts @ ds))"
proof -
  have nd: "\<not> dangling (RepoTags img) (RepoDigests img)"
  proof
    assume "dangling (RepoTags img) (RepoDigests img)"
    then obtain t where "ts = [t]" "ref_String t = ''<none>:<none>''"
      using assms(2) by (auto simp: dangling_iff)
    moreover have "ref_valid t" using assms(1) \<open>ts = [t]\<close> by simp
    ultimately show False using ref_String_not_sentinel [of t] by (simp add: HasPrefix_def)
  qed
  have td: "tagsAndDigests img = map ref_String (ts @ ds)"
    using nd assms(2,3) by (simp add: tagsAndDigests_def)
  have "list_all2 (\<lambda>s r. resolve_ref reference_ParseNamed s = Inr r)
          (map ref_String (ts @ ds)) (map (\<lambda>r. ref_fields r none_row) (ts @ ds))"
    using assms(1) by (rule resolve_valid_references)
  then show ?thesis by (simp add: reconcile_def td resolve_all_Inr_iff del: ref_fields_def)
qed

theorem reconcile_with_reference_parser_witness:
  "reconcile reference_ParseNamed
     \<lparr>ID = ''0a1b'', RepoTags = [''library/foo:latest''],
      RepoDigests = [''library/foo:1.0@sha256:0123456789abcdef0123456789abcdef0123456789abcdef0123456789abcdef''],
      Created = 0, Size = 0\<rparr> =
   Inr [\<lparr>repo = ''library/foo'', tag = ''latest'', digest = ''<none>''\<rparr>,
        \<lparr>repo = ''library/foo'', tag = ''<none>'',
         digest = ''sha256:0123456789abcdef0123456789abcdef0123456789abcdef0123456789abcdef''\<rparr>]"
proof -
  let ?t = "TaggedReference ''library/foo'' ''latest''"
  let ?d = "FullReference ''library/foo'' ''1.0''
              ''sha256:0123456789abcdef0123456789abcdef0123456789abcdef0123456789abcdef''"
  have v: "list_all ref_valid ([?t] @ [?d])"
    by (simp add: ref_valid_def NameRegexp_ok_def TagRegexp_ok_def DigestRegexp_ok_def ParseDigest_def)
  show ?thesis
    using reconcile_with_reference_parser [OF v, of
      "\<lparr>ID = ''0a1b'', RepoTags = [''library/foo:latest''],
        RepoDigests = [''library/foo:1.0@sha256:0123456789abcdef0123456789abcdef0123456789abcdef0123456789abcdef''],
        Created = 0, Size = 0\<rparr>"]
    by (simp add: none_row_def)
qed

text \<open>
  C12: With the reference parser of \<^verbatim>\<open>distribution/reference\<close>, the
  reconciliation of one combined tag or digest string (lines 88--106) fails, so that
  \<^verbatim>\<open>CmdImages\<close> returns the parse error on line 96, exactly when the string
  neither starts with \<^verbatim>\<open><none>\<close> nor is the string form of a valid reference.
\<close>

theorem resolve_ref_reference_parser_ok:
  "(\<exists>row. resolve_ref reference_ParseNamed s = Inr row) \<longleftrightarrow>
     is_none_ref s \<or> (\<exists>r. ref_valid r \<and> s = ref_String r)"
proof -
  have "(\<exists>ref. reference_ParseNamed s = Inr ref) \<longleftrightarrow> (\<exists>r. ref_valid r \<and> s = ref_String r)"
    using reference_ParseNamed_roundtrip by blast
  then show ?thesis using resolve_ref_ok_iff [of reference_ParseNamed s] by simp
qed

theorem resolve_ref_reference_parser_ok_witness:
  "\<not> (\<exists>row. resolve_ref reference_ParseNamed '':latest'' = Inr row)"
proof -
  have "\<not> is_none_ref '':latest''" by (simp add: HasPrefix_def)
  moreover have "\<not> (\<exists>r. ref_valid r \<and> '':latest'' = ref_String r)"
  proof
    assume "\<exists>r. ref_valid r \<and> '':latest'' = ref_String r"
    then obtain r where "ref_valid r" "ref_String r = '':latest''" by auto
    then show False using ref_String_hd [of r] by simp
  qed
  ultimately show ?thesis using resolve_ref_reference_parser_ok [of "'':latest''"] by blast
qed

text \<open>
  C24: A row printed back gives the string it came from: with the reference parser, a
  string that does not start with \<^verbatim>\<open><none>\<close> and resolves to a row is the row's
  repository followed by \<^verbatim>\<open>:\<close> and its tag and by \<^verbatim>\<open>@\<close> and its digest, each
  when not \<^verbatim>\<open><none>\<close>, except for a \<^verbatim>\<open>name:tag@digest\<close> string, whose tag the
  row drops.
\<close>

theorem resolve_ref_row_roundtrip:
  assumes "resolve_ref reference_ParseNamed s = Inr row" and "\<not> is_none_ref s"
  shows "s = repo row @ (if tag row = ''<none>'' then [] else CHR '':'' # tag row) @
               (if digest row = ''<none>'' then [] else CHR ''@'' # digest row) \<or>
         (\<exists>t. tag row = ''<none>'' \<and> s = repo row @ CHR '':'' # t @ CHR ''@'' # digest row)"
proof -
  obtain ref where p: "reference_ParseNamed s = Inr ref" and row: "row = ref_fields ref none_row"
    using assms by (cases "reference_ParseNamed s") (auto simp: resolve_ref_def none_row_def)
  from p have s: "s = ref_String ref" and v: "ref_valid ref"
    using reference_ParseNamed_roundtrip by blast+
  have nt: "\<not> TagRegexp_ok ''<none>''" by (simp add: TagRegexp_ok_def)
  have nd: "\<not> DigestRegexp_ok ''<none>''" by (simp add: DigestRegexp_ok_def)
  show ?thesis
    using s v row nt nd by (cases ref) (auto simp: ref_valid_def none_row_def)
qed

theorem resolve_ref_row_roundtrip_witness:
  "resolve_ref reference_ParseNamed ''library/foo:latest'' =
     Inr \<lparr>repo = ''library/foo'', tag = ''latest'', digest = ''<none>''\<rparr> \<and>
   ''library/foo:latest'' = ''library/foo'' @ CHR '':'' # ''latest''"
proof -
  have v: "ref_valid (TaggedReference ''library/foo'' ''latest'')"
    by (simp add: ref_valid_def NameRegexp_ok_def TagRegexp_ok_def)
  have r: "resolve_ref reference_ParseNamed ''library/foo:latest'' =
             Inr \<lparr>repo = ''library/foo'', tag = ''latest'', digest = ''<none>''\<rparr>"
    using resolve_ref_valid_reference [OF v] by (simp add: none_row_def)
  have "\<not> is_none_ref ''library/foo:latest''" by (simp add: HasPrefix_def)
  from resolve_ref_row_roundtrip [OF r this] show ?thesis using r by simp
qed

end
